(* ===== verification/Prelude.thy ===== *)
theory Prelude imports Main "HOL-Library.Word" begin

text \<open>
  Shared vocabulary of the development: the machine integer types of the C sources, byte order
  conversion (the macros of \<^verbatim>\<open>group/include/linux_endian.h\<close>), the outcome script of
  \<^verbatim>\<open>malloc\<close>, the first-match list operations that model following a pointer into a kernel
  style linked list, the Linux errno values, and the lemma collections the component theories
  extend.
\<close>

unbundle bit_operations_syntax

named_theorems range_simps \<open>facts on closed byte ranges over machine words\<close>
named_theorems frame_simps \<open>fields that an operation leaves alone\<close>

section \<open>Machine integers\<close>

type_synonym u8 = "8 word"
type_synonym u16 = "16 word"
type_synonym u32 = "32 word"
type_synonym u64 = "64 word"

lemma word_le_pred_iff [range_simps]:
  fixes t x :: "'a::len word"
  assumes "s < t"
  shows "x \<le> t - 1 \<longleftrightarrow> x < t"
proof -
  from assms have "t \<noteq> 0" by auto
  moreover from this have "0 < unat t" by (simp add: unat_gt_0)
  ultimately show ?thesis by (auto simp: word_le_nat_alt word_less_nat_alt unat_minus_one)
qed

lemma word_succ_le_iff [range_simps]:
  fixes t x :: "'a::len word"
  assumes "t < e"
  shows "t + 1 \<le> x \<longleftrightarrow> t < x"
proof -
  have "unat t < unat e" "unat e < 2 ^ LENGTH('a)"
    using assms by (simp_all add: word_less_nat_alt)
  then have "Suc (unat t) < 2 ^ LENGTH('a)" by linarith
  then have "unat (t + 1) = Suc (unat t)" by (simp add: unat_word_ariths)
  then show ?thesis by (auto simp: word_le_nat_alt word_less_nat_alt)
qed

section \<open>Byte order\<close>

text \<open>
  \<^verbatim>\<open>bswap_32\<close> and \<^verbatim>\<open>bswap_64\<close> reverse the bytes of a word. The wire format of the daemons is
  little endian; \<open>be\<close> says that the host is big endian, the branch the preprocessor takes.
\<close>

definition bswap_32 :: "u32 \<Rightarrow> u32" where
  "bswap_32 x = push_bit 24 (take_bit 8 x) OR push_bit 16 (take_bit 8 (drop_bit 8 x))
     OR push_bit 8 (take_bit 8 (drop_bit 16 x)) OR take_bit 8 (drop_bit 24 x)"

definition bswap_64 :: "u64 \<Rightarrow> u64" where
  "bswap_64 x =
     push_bit 32 (ucast (bswap_32 (ucast x))) OR ucast (bswap_32 (ucast (drop_bit 32 x)))"

definition cpu_to_le32 :: "bool \<Rightarrow> u32 \<Rightarrow> u32" where
  "cpu_to_le32 be x = (if be then bswap_32 x else x)"

definition le32_to_cpu :: "bool \<Rightarrow> u32 \<Rightarrow> u32" where
  "le32_to_cpu be x = (if be then bswap_32 x else x)"

definition cpu_to_le64 :: "bool \<Rightarrow> u64 \<Rightarrow> u64" where
  "cpu_to_le64 be x = (if be then bswap_64 x else x)"

definition le64_to_cpu :: "bool \<Rightarrow> u64 \<Rightarrow> u64" where
  "le64_to_cpu be x = (if be then bswap_64 x else x)"

lemma bit_bswap_32:
  assumes "r < 8"
  shows "bit (bswap_32 x) (8 * q + r) \<longleftrightarrow> q < 4 \<and> bit x (8 * (3 - q) + r)"
proof -
  consider "q = 0" | "q = 1" | "q = 2" | "q = 3" | "4 \<le> q" by linarith
  then show ?thesis
    using assms by cases (auto simp: bswap_32_def bit_simps)
qed

lemma bswap_32_invol [simp]: "bswap_32 (bswap_32 x) = x"
proof (rule bit_word_eqI)
  fix n assume "n < LENGTH(32)"
  then have n: "n = 8 * (n div 8) + n mod 8" "n mod 8 < 8" "n div 8 < 4" by simp_all
  then have "3 - (3 - n div 8) = n div 8" "3 - n div 8 < 4" by linarith+
  with n show "bit (bswap_32 (bswap_32 x)) n = bit x n"
    using bit_bswap_32 [OF n(2), of "bswap_32 x" "n div 8"]
      bit_bswap_32 [OF n(2), of x "3 - n div 8"] by simp
qed

lemma bswap_64_invol [simp]: "bswap_64 (bswap_64 x) = x"
proof -
  have lo: "ucast (bswap_64 x) = bswap_32 (ucast (drop_bit 32 x))"
    by (rule bit_word_eqI) (auto simp: bswap_64_def bit_simps)
  have hi: "ucast (drop_bit 32 (bswap_64 x)) = bswap_32 (ucast x)"
    by (rule bit_word_eqI) (auto simp: bswap_64_def bit_simps dest: bit_imp_le_length)
  show ?thesis
    unfolding bswap_64_def [of "bswap_64 x"] lo hi bswap_32_invol
    by (rule bit_word_eqI) (auto simp: bit_simps)
qed

lemma le32_roundtrip [simp]: "le32_to_cpu be (cpu_to_le32 be x) = x"
  by (simp add: le32_to_cpu_def cpu_to_le32_def)

lemma le64_roundtrip [simp]: "le64_to_cpu be (cpu_to_le64 be x) = x"
  by (simp add: le64_to_cpu_def cpu_to_le64_def)

section \<open>Allocation\<close>

text \<open>
  \<^verbatim>\<open>malloc\<close> may fail at any call, and the memory it returns has arbitrary contents. A run carries a
  script with one entry per call: whether it succeeds, and the 32-bit value found in fields the
  program does not initialise. An exhausted script stands for calls that succeed with zeroed memory.
  \<open>mem_ok\<close> says that no call fails, \<open>junk\<close> is the uninitialised contents of the next block.
\<close>

type_synonym mem = "(bool \<times> u32) list"

fun malloc :: "mem \<Rightarrow> bool \<times> mem" where
  "malloc [] = (True, [])"
| "malloc (b # m) = (fst b, m)"

fun junk :: "mem \<Rightarrow> u32" where
  "junk [] = 0"
| "junk (b # m) = snd b"

definition mem_ok :: "mem \<Rightarrow> bool" where
  "mem_ok m \<longleftrightarrow> list_all fst m"

lemma mem_ok_Nil [simp]: "mem_ok []"
  by (simp add: mem_ok_def)

lemma malloc_ok [simp]: "mem_ok m \<Longrightarrow> fst (malloc m)"
  by (cases m) (auto simp: mem_ok_def)

lemma malloc_keeps_ok [simp]: "mem_ok m \<Longrightarrow> mem_ok (snd (malloc m))"
  by (cases m) (auto simp: mem_ok_def)

section \<open>First-match list operations\<close>

text \<open>
  The daemons keep objects on linked lists and pass pointers to entries found by a key search.
  \<open>update_first\<close> writes through such a pointer and \<open>delete_first\<close> unlinks the entry.
\<close>

fun update_first :: "('a \<Rightarrow> bool) \<Rightarrow> ('a \<Rightarrow> 'a) \<Rightarrow> 'a list \<Rightarrow> 'a list" where
  "update_first P f [] = []"
| "update_first P f (x # xs) = (if P x then f x # xs else x # update_first P f xs)"

fun delete_first :: "('a \<Rightarrow> bool) \<Rightarrow> 'a list \<Rightarrow> 'a list" where
  "delete_first P [] = []"
| "delete_first P (x # xs) = (if P x then xs else x # delete_first P xs)"

lemma length_update_first [simp]: "length (update_first P f xs) = length xs"
  by (induction xs) auto

lemma map_update_first: "(\<And>x. P x \<Longrightarrow> g (f x) = g x) \<Longrightarrow> map g (update_first P f xs) = map g xs"
  by (induction xs) auto

lemma find_update_first:
  "(\<And>x. P x \<Longrightarrow> P (f x)) \<Longrightarrow> find P (update_first P f xs) = map_option f (find P xs)"
  by (induction xs) auto

lemma find_update_first_other:
  "(\<And>x. P x \<Longrightarrow> \<not> Q x \<and> \<not> Q (f x)) \<Longrightarrow> find Q (update_first P f xs) = find Q xs"
  by (induction xs) auto

lemma update_first_id: "find P xs = None \<Longrightarrow> update_first P f xs = xs"
  by (induction xs) (auto split: if_splits)

lemma find_append: "find P (xs @ ys) = (case find P xs of None \<Rightarrow> find P ys | Some x \<Rightarrow> Some x)"
  by (induction xs) auto

lemma set_update_first: "set (update_first P f xs) \<subseteq> set xs \<union> f ` {x \<in> set xs. P x}"
  by (induction xs) auto

lemma set_delete_first: "set (delete_first P xs) \<subseteq> set xs"
  by (induction xs) auto

lemma option_eqI: "(\<And>v. x = Some v \<longleftrightarrow> y = Some v) \<Longrightarrow> x = y"
  by (cases x; cases y) auto

section \<open>Linux errno values\<close>

definition ENOENT :: int where "ENOENT = 2"
definition EAGAIN :: int where "EAGAIN = 11"
definition ENOMEM :: int where "ENOMEM = 12"
definition EEXIST :: int where "EEXIST = 17"
definition EINVAL :: int where "EINVAL = 22"
definition ENOSPC :: int where "ENOSPC = 28"
definition ENOSYS :: int where "ENOSYS = 38"
definition EBUSY :: int where "EBUSY = 16"
definition ESRCH :: int where "ESRCH = 3"
definition EADDRINUSE :: int where "EADDRINUSE = 98"
definition ENOTCONN :: int where "ENOTCONN = 107"
definition ETIMEDOUT :: int where "ETIMEDOUT = 110"
definition EALREADY :: int where "EALREADY = 114"
definition EINPROGRESS :: int where "EINPROGRESS = 115"

text \<open>\<^verbatim>\<open>EWOULDBLOCK\<close> is \<^verbatim>\<open>EAGAIN\<close>.\<close>

abbreviation EWOULDBLOCK :: int where "EWOULDBLOCK \<equiv> EAGAIN"

lemmas errno_defs =
  ENOENT_def EAGAIN_def ENOMEM_def EEXIST_def EINVAL_def ENOSPC_def ENOSYS_def EINPROGRESS_def
  EBUSY_def ESRCH_def EADDRINUSE_def ENOTCONN_def ETIMEDOUT_def EALREADY_def

end
