(* ===== verification/Plock_Ranges.thy ===== *)
theory Plock_Ranges imports Prelude begin

text \<open>
  Byte range arithmetic of the POSIX lock daemon (\<^verbatim>\<open>group/dlm_controld/plock.c\<close>): the overlap
  test, the classification of how a new range meets an existing one, and the shrinking of a range
  by a partial overlap. Ranges are closed intervals of 64-bit offsets. The lemmas express each
  routine by the set of bytes it stands for, so that no later proof does word arithmetic.
\<close>

section \<open>Definitions\<close>

definition ranges_overlap :: "u64 \<Rightarrow> u64 \<Rightarrow> u64 \<Rightarrow> u64 \<Rightarrow> bool" where
  "ranges_overlap start1 end1 start2 end2 =
     (if end1 < start2 \<or> start1 > end2 then False else True)"

definition overlap_type :: "u64 \<Rightarrow> u64 \<Rightarrow> u64 \<Rightarrow> u64 \<Rightarrow> int" where
  "overlap_type s1 e1 s2 e2 =
     (if s1 = s2 \<and> e1 = e2 then 0
      else if s1 = s2 \<and> e1 < e2 then 1
      else if s1 > s2 \<and> e1 = e2 then 1
      else if s1 > s2 \<and> e1 < e2 then 2
      else if s1 \<le> s2 \<and> e1 \<ge> e2 then 3
      else if s1 > s2 \<and> e1 > e2 then 4
      else if s1 < s2 \<and> e1 < e2 then 4
      else -1)"

text \<open>The range passed by reference is returned with the error code.\<close>

definition shrink_range2 :: "u64 \<Rightarrow> u64 \<Rightarrow> u64 \<Rightarrow> u64 \<Rightarrow> int \<times> u64 \<times> u64" where
  "shrink_range2 start2 end2 start fin =
     (if start2 < start then (0, start2, start - 1)
      else if end2 > fin then (0, fin + 1, end2)
      else (-1, start2, end2))"

section \<open>Ranges as byte sets\<close>

lemma ranges_overlap_iff [range_simps]:
  assumes "s1 \<le> e1" "s2 \<le> e2"
  shows "ranges_overlap s1 e1 s2 e2 \<longleftrightarrow> {s1..e1} \<inter> {s2..e2} \<noteq> {}"
proof
  assume "ranges_overlap s1 e1 s2 e2"
  then have "max s1 s2 \<in> {s1..e1} \<inter> {s2..e2}"
    using assms by (auto simp: ranges_overlap_def max_def split: if_splits)
  then show "{s1..e1} \<inter> {s2..e2} \<noteq> {}" by blast
qed (auto simp: ranges_overlap_def)

lemma ranges_overlap_commute: "ranges_overlap s1 e1 s2 e2 = ranges_overlap s2 e2 s1 e1"
  by (auto simp: ranges_overlap_def)

lemma overlap_type_total: "overlap_type s1 e1 s2 e2 \<in> {0, 1, 2, 3, 4}"
  by (auto simp: overlap_type_def)

text \<open>The six pictures in the comments of \<^verbatim>\<open>overlap_type\<close>, as relations of the byte sets.\<close>

lemma overlap_type_0: "overlap_type s1 e1 s2 e2 = 0 \<longleftrightarrow> s1 = s2 \<and> e1 = e2"
  by (auto simp: overlap_type_def)

lemma overlap_type_1:
  "overlap_type s1 e1 s2 e2 = 1 \<longleftrightarrow> (s1 = s2 \<and> e1 < e2 \<or> s2 < s1 \<and> e1 = e2)"
  by (auto simp: overlap_type_def)

lemma overlap_type_2: "overlap_type s1 e1 s2 e2 = 2 \<longleftrightarrow> s2 < s1 \<and> e1 < e2"
  by (auto simp: overlap_type_def)

lemma overlap_type_3:
  "overlap_type s1 e1 s2 e2 = 3 \<longleftrightarrow> s1 \<le> s2 \<and> e2 \<le> e1 \<and> (s1, e1) \<noteq> (s2, e2)"
  by (auto simp: overlap_type_def)

lemma overlap_type_4:
  "overlap_type s1 e1 s2 e2 = 4 \<longleftrightarrow> (s2 < s1 \<and> e2 < e1 \<or> s1 < s2 \<and> e1 < e2)"
  by (auto simp: overlap_type_def)

lemmas overlap_type_iffs = overlap_type_0 overlap_type_1 overlap_type_2 overlap_type_3 overlap_type_4

lemma range_front [range_simps]: "s < (t::u64) \<Longrightarrow> {s..t - 1} = {s..<t}"
  by (auto simp: word_le_pred_iff)

lemma range_back [range_simps]: "t < (e::u64) \<Longrightarrow> {t + 1..e} = {t<..e}"
  by (auto simp: word_succ_le_iff)

lemma range_front_nonempty [range_simps]: "s < (t::u64) \<Longrightarrow> s \<le> t - 1"
  by (simp add: word_le_pred_iff)

lemma range_back_nonempty [range_simps]: "t < (e::u64) \<Longrightarrow> t + 1 \<le> e"
  by (simp add: word_succ_le_iff)

text \<open>
  Shrinking removes exactly the overlap when the overlap touches one end of the range, the only
  way \<^verbatim>\<open>plock.c\<close> calls it.
\<close>

lemma shrink_range2_bytes:
  assumes "overlap_type start fin start2 end2 \<in> {1, 4}"
    and "start \<le> fin" "start2 \<le> end2" "{start..fin} \<inter> {start2..end2} \<noteq> {}"
  obtains s' e' where "shrink_range2 start2 end2 start fin = (0, s', e')"
    "s' \<le> e'" "{s'..e'} = {start2..end2} - {start..fin}"
proof (cases "start2 < start")
  case True
  then have "{start2..start - 1} = {start2..end2} - {start..fin}"
    using assms by (auto simp: range_simps overlap_type_iffs)
  with True show thesis
    using that [of start2 "start - 1"] by (simp add: shrink_range2_def range_simps)
next
  case False
  with assms have lt: "fin < end2" by (auto simp: overlap_type_iffs)
  then have "{fin + 1..end2} = {start2..end2} - {start..fin}"
    using assms False by (auto simp: range_simps overlap_type_iffs)
  with False lt show thesis
    using that [of "fin + 1" end2] by (simp add: shrink_range2_def range_simps)
qed

end
