(* ===== verification/Plock_Locks.thy ===== *)
theory Plock_Locks imports Plock_Ranges begin

text \<open>
  The lock list of one plock resource (\<^verbatim>\<open>group/dlm_controld/plock.c\<close>): the lock and request
  records, the conflict test, and the insertion and removal of a byte range. The list is compared
  with an abstract specification, a map from (owner, byte) to the mode held.
\<close>

section \<open>Data\<close>

record posix_lock =
  po_pid :: u32
  po_owner :: u64
  po_start :: u64
  po_end :: u64
  po_ex :: int
  po_nodeid :: u32
  po_flags :: u32

text \<open>
  \<^verbatim>\<open>struct dlm_plock_info\<close> is declared by the kernel header \<^verbatim>\<open>linux/dlm_plock.h\<close>; the record has
  the fields the sources read and write. The operation codes of that header are constructors, and
  \<open>OP_other\<close> is any other byte.
\<close>

datatype plock_op = DLM_PLOCK_OP_LOCK | DLM_PLOCK_OP_UNLOCK | DLM_PLOCK_OP_GET | OP_other u8

record dlm_plock_info =
  pi_version0 :: u32
  pi_version1 :: u32
  pi_version2 :: u32
  pi_optype :: plock_op
  pi_ex :: u8
  pi_wait :: u8
  pi_pid :: u32
  pi_nodeid :: u32
  pi_rv :: u32
  pi_fsid :: u32
  pi_number :: u64
  pi_start :: u64
  pi_end :: u64
  pi_owner :: u64

section \<open>Operations\<close>

text \<open>
  \<^verbatim>\<open>is_conflict\<close> returns the truth value and the request, which a GET overwrites with the lock in
  the way.
\<close>

fun is_conflict :: "posix_lock list \<Rightarrow> dlm_plock_info \<Rightarrow> bool \<Rightarrow> bool \<times> dlm_plock_info" where
  "is_conflict [] i get = (False, i)"
| "is_conflict (po # locks) i get =
     (if po_nodeid po = pi_nodeid i \<and> po_owner po = pi_owner i then is_conflict locks i get
      else if \<not> ranges_overlap (po_start po) (po_end po) (pi_start i) (pi_end i)
        then is_conflict locks i get
      else if pi_ex i \<noteq> 0 \<or> po_ex po \<noteq> 0
        then (True, if get then i\<lparr>pi_ex := word_of_int (po_ex po), pi_pid := po_pid po,
                                  pi_start := po_start po, pi_end := po_end po\<rparr> else i)
      else is_conflict locks i get)"

text \<open>
  The loops below walk a list with \<^verbatim>\<open>list_for_each_entry_safe\<close>. Their list argument is what is
  left of \<^verbatim>\<open>r->locks\<close> from the cursor on, so \<^verbatim>\<open>list_add_tail\<close> appends at its end. The first
  component of a result is the C return value; the last is the remaining allocation script.
\<close>

definition add_lock ::
  "posix_lock list \<Rightarrow> u32 \<Rightarrow> u64 \<Rightarrow> u32 \<Rightarrow> int \<Rightarrow> u64 \<Rightarrow> u64 \<Rightarrow> mem \<Rightarrow> int \<times> posix_lock list \<times> mem"
where
  "add_lock locks nodeid owner pid ex start fin m =
     (let (ok, m') = malloc m in
      if \<not> ok then (- ENOMEM, locks, m')
      else (0, locks @ [\<lparr>po_pid = pid, po_owner = owner, po_start = start, po_end = fin,
                         po_ex = ex, po_nodeid = nodeid, po_flags = 0\<rparr>], m'))"

text \<open>C's \<^verbatim>\<open>!in->ex\<close>, the mode of the fragments that stay outside the request.\<close>

definition not_ex :: "dlm_plock_info \<Rightarrow> int" where
  "not_ex i = (if pi_ex i = 0 then 1 else 0)"

definition convert_lock :: "posix_lock \<Rightarrow> dlm_plock_info \<Rightarrow> posix_lock" where
  "convert_lock po i = po\<lparr>po_start := pi_start i, po_end := pi_end i, po_ex := uint (pi_ex i)\<rparr>"

definition lock_case1 ::
  "posix_lock \<Rightarrow> posix_lock list \<Rightarrow> dlm_plock_info \<Rightarrow> mem \<Rightarrow> int \<times> posix_lock list \<times> mem"
where
  "lock_case1 po rest i m =
     (case shrink_range2 (po_start po) (po_end po) (pi_start i) (pi_end i) of
        (rv, start2, end2) \<Rightarrow>
          if rv \<noteq> 0 then (rv, po # rest, m)
          else add_lock (convert_lock po i # rest) (pi_nodeid i) (pi_owner i) (pi_pid i)
                 (not_ex i) start2 end2 m)"

definition lock_case2 ::
  "posix_lock \<Rightarrow> posix_lock list \<Rightarrow> dlm_plock_info \<Rightarrow> mem \<Rightarrow> int \<times> posix_lock list \<times> mem"
where
  "lock_case2 po rest i m =
     (case add_lock rest (pi_nodeid i) (pi_owner i) (pi_pid i) (not_ex i)
             (po_start po) (pi_start i - 1) m of
        (rv, rest1, m1) \<Rightarrow>
          if rv \<noteq> 0 then (rv, po # rest1, m1)
          else (case add_lock rest1 (pi_nodeid i) (pi_owner i) (pi_pid i) (not_ex i)
                       (pi_end i + 1) (po_end po) m1 of
                  (rv2, rest2, m2) \<Rightarrow>
                    if rv2 \<noteq> 0 then (rv2, po # rest2, m2)
                    else (0, convert_lock po i # rest2, m2)))"

definition mine :: "dlm_plock_info \<Rightarrow> posix_lock \<Rightarrow> bool" where
  "mine i po \<longleftrightarrow> po_nodeid po = pi_nodeid i \<and> po_owner po = pi_owner i"

definition prepend :: "'a \<Rightarrow> int \<times> 'a list \<times> mem \<Rightarrow> int \<times> 'a list \<times> mem" where
  "prepend x res = (case res of (rv, xs, m) \<Rightarrow> (rv, x # xs, m))"

fun lock_internal :: "dlm_plock_info \<Rightarrow> mem \<Rightarrow> posix_lock list \<Rightarrow> int \<times> posix_lock list \<times> mem" where
  "lock_internal i m [] =
     add_lock [] (pi_nodeid i) (pi_owner i) (pi_pid i) (uint (pi_ex i)) (pi_start i) (pi_end i) m"
| "lock_internal i m (po # rest) =
     (if \<not> mine i po \<or> \<not> ranges_overlap (po_start po) (po_end po) (pi_start i) (pi_end i)
      then prepend po (lock_internal i m rest)
      else let ty = overlap_type (pi_start i) (pi_end i) (po_start po) (po_end po) in
        if ty = 0 then
          (if po_ex po = uint (pi_ex i) then (0, po # rest, m)
           else (0, po\<lparr>po_ex := uint (pi_ex i)\<rparr> # rest, m))
        else if ty = 1 then
          (if po_ex po = uint (pi_ex i) then (0, po # rest, m) else lock_case1 po rest i m)
        else if ty = 2 then
          (if po_ex po = uint (pi_ex i) then (0, po # rest, m) else lock_case2 po rest i m)
        else if ty = 3 then lock_internal i m rest
        else if ty = 4 then
          (if po_start po < pi_start i
           then prepend (po\<lparr>po_end := pi_start i - 1\<rparr>) (lock_internal i m rest)
           else prepend (po\<lparr>po_start := pi_end i + 1\<rparr>) (lock_internal i m rest))
        else (-1, po # rest, m))"

definition shrink_range :: "posix_lock \<Rightarrow> u64 \<Rightarrow> u64 \<Rightarrow> int \<times> posix_lock" where
  "shrink_range po start fin =
     (case shrink_range2 (po_start po) (po_end po) start fin of
        (rv, s, e) \<Rightarrow> (rv, po\<lparr>po_start := s, po_end := e\<rparr>))"

text \<open>The running value of \<^verbatim>\<open>rv\<close> is the second argument.\<close>

fun unlock_internal ::
  "dlm_plock_info \<Rightarrow> int \<Rightarrow> mem \<Rightarrow> posix_lock list \<Rightarrow> int \<times> posix_lock list \<times> mem"
where
  "unlock_internal i rv m [] = (rv, [], m)"
| "unlock_internal i rv m (po # rest) =
     (if \<not> mine i po \<or> \<not> ranges_overlap (po_start po) (po_end po) (pi_start i) (pi_end i)
      then prepend po (unlock_internal i rv m rest)
      else let ty = overlap_type (pi_start i) (pi_end i) (po_start po) (po_end po) in
        if ty = 0 then (rv, rest, m)
        else if ty = 1 then
          (case shrink_range po (pi_start i) (pi_end i) of (rv', po') \<Rightarrow> (rv', po' # rest, m))
        else if ty = 2 then
          (case add_lock rest (pi_nodeid i) (pi_owner i) (pi_pid i) (po_ex po)
                  (pi_end i + 1) (po_end po) m of
             (rv', rest', m') \<Rightarrow> (rv', po\<lparr>po_end := pi_start i - 1\<rparr> # rest', m'))
        else if ty = 3 then unlock_internal i rv m rest
        else if ty = 4 then
          (case shrink_range po (pi_start i) (pi_end i) of
             (rv', po') \<Rightarrow> prepend po' (unlock_internal i rv' m rest))
        else (-1, po # rest, m))"

section \<open>The abstract specification\<close>

text \<open>
  A lock owner is a node and the kernel's owner cookie. \<open>held\<close> is the abstract state: which mode an
  owner holds on a byte, if any. \<open>spec_lock\<close> and \<open>spec_unlock\<close> are what POSIX asks of F_SETLK.
\<close>

type_synonym holder = "u32 \<times> u64"
type_synonym lock_map = "holder \<Rightarrow> u64 \<Rightarrow> int option"

abbreviation who :: "posix_lock \<Rightarrow> holder" where
  "who po \<equiv> (po_nodeid po, po_owner po)"

abbreviation pi_who :: "dlm_plock_info \<Rightarrow> holder" where
  "pi_who i \<equiv> (pi_nodeid i, pi_owner i)"

definition bytes :: "posix_lock \<Rightarrow> u64 set" where
  "bytes po = {po_start po..po_end po}"

definition pi_bytes :: "dlm_plock_info \<Rightarrow> u64 set" where
  "pi_bytes i = {pi_start i..pi_end i}"

definition held :: "posix_lock list \<Rightarrow> lock_map" where
  "held locks h b =
     map_option po_ex (find (\<lambda>po. who po = h \<and> po_start po \<le> b \<and> b \<le> po_end po) locks)"

definition spec_lock :: "lock_map \<Rightarrow> dlm_plock_info \<Rightarrow> lock_map" where
  "spec_lock A i = (\<lambda>h b. if h = pi_who i \<and> b \<in> pi_bytes i then Some (uint (pi_ex i)) else A h b)"

definition spec_unlock :: "lock_map \<Rightarrow> dlm_plock_info \<Rightarrow> lock_map" where
  "spec_unlock A i = (\<lambda>h b. if h = pi_who i \<and> b \<in> pi_bytes i then None else A h b)"

definition spec_conflict :: "lock_map \<Rightarrow> dlm_plock_info \<Rightarrow> bool" where
  "spec_conflict A i \<longleftrightarrow>
     (\<exists>h b ex. h \<noteq> pi_who i \<and> b \<in> pi_bytes i \<and> A h b = Some ex \<and> (pi_ex i \<noteq> 0 \<or> ex \<noteq> 0))"

text \<open>
  Well-formed locks and requests have a non-empty range and a boolean mode. A lock list is in
  normal form when the ranges of one owner are disjoint, and safe when overlapping locks of
  different owners are all shared.
\<close>

definition wf_lock :: "posix_lock \<Rightarrow> bool" where
  "wf_lock po \<longleftrightarrow> po_start po \<le> po_end po \<and> po_ex po \<in> {0, 1}"

definition wf_info :: "dlm_plock_info \<Rightarrow> bool" where
  "wf_info i \<longleftrightarrow> pi_start i \<le> pi_end i \<and> pi_ex i \<in> {0, 1}"

definition wf_locks :: "posix_lock list \<Rightarrow> bool" where
  "wf_locks locks \<longleftrightarrow> list_all wf_lock locks"

definition own_disjoint :: "posix_lock list \<Rightarrow> bool" where
  "own_disjoint locks \<longleftrightarrow>
     sorted_wrt (\<lambda>p q. who p = who q \<longrightarrow>
       \<not> ranges_overlap (po_start p) (po_end p) (po_start q) (po_end q)) locks"

definition locks_safe :: "posix_lock list \<Rightarrow> bool" where
  "locks_safe locks \<longleftrightarrow>
     (\<forall>p \<in> set locks. \<forall>q \<in> set locks. who p \<noteq> who q \<longrightarrow>
        ranges_overlap (po_start p) (po_end p) (po_start q) (po_end q) \<longrightarrow>
        po_ex p = 0 \<and> po_ex q = 0)"

definition locks_inv :: "posix_lock list \<Rightarrow> bool" where
  "locks_inv locks \<longleftrightarrow> wf_locks locks \<and> own_disjoint locks \<and> locks_safe locks"

end
