(* ===== verification/Plock_Refine.thy ===== *)
theory Plock_Refine imports Plock_Locks begin

text \<open>
  The lock list of \<^verbatim>\<open>plock.c\<close> implements the abstract lock map: a successful \<open>lock_internal\<close> is
  \<open>spec_lock\<close>, \<open>unlock_internal\<close> is \<open>spec_unlock\<close>, \<open>is_conflict\<close> decides \<open>spec_conflict\<close>, and the
  list invariant is kept. Whatever \<^verbatim>\<open>malloc\<close> does, no call makes two owners hold conflicting locks.
\<close>

section \<open>Basic facts\<close>

definition holds :: "posix_lock list \<Rightarrow> holder \<Rightarrow> u64 \<Rightarrow> int \<Rightarrow> bool" where
  "holds locks h b ex \<longleftrightarrow> (\<exists>po \<in> set locks. who po = h \<and> b \<in> bytes po \<and> po_ex po = ex)"

lemma holds_simps [simp]:
  "\<not> holds [] h b ex"
  "holds (p # ps) h b ex \<longleftrightarrow> (who p = h \<and> b \<in> bytes p \<and> po_ex p = ex) \<or> holds ps h b ex"
  "holds (ps @ qs) h b ex \<longleftrightarrow> holds ps h b ex \<or> holds qs h b ex"
  by (auto simp: holds_def)

lemma mine_who: "mine i po \<longleftrightarrow> who po = pi_who i"
  by (auto simp: mine_def)

lemma uint_ex_bool: "wf_info i \<Longrightarrow> uint (pi_ex i) \<in> {0, 1}"
  by (auto simp: wf_info_def)

lemma uint_ex_0 [simp]: "uint (pi_ex i) = 0 \<longleftrightarrow> pi_ex i = 0"
  by (simp add: uint_0_iff)

lemma not_ex_orig_mode:
  assumes "wf_info i" "wf_lock po" "po_ex po \<noteq> uint (pi_ex i)"
  shows "not_ex i = po_ex po"
  using assms by (auto simp: not_ex_def wf_lock_def wf_info_def)

lemma wf_locks_simps [simp]:
  "wf_locks []" "wf_locks (p # ps) \<longleftrightarrow> wf_lock p \<and> wf_locks ps"
  "wf_locks (ps @ qs) \<longleftrightarrow> wf_locks ps \<and> wf_locks qs"
  by (auto simp: wf_locks_def)

lemma wf_locksD: "wf_locks ps \<Longrightarrow> p \<in> set ps \<Longrightarrow> wf_lock p"
  by (auto simp: wf_locks_def list_all_iff)

lemma overlap_bytes:
  "wf_lock p \<Longrightarrow> wf_lock q \<Longrightarrow>
     ranges_overlap (po_start p) (po_end p) (po_start q) (po_end q) \<longleftrightarrow> bytes p \<inter> bytes q \<noteq> {}"
  by (simp add: wf_lock_def bytes_def ranges_overlap_iff)

lemma overlap_pi_bytes:
  "wf_lock p \<Longrightarrow> wf_info i \<Longrightarrow>
     ranges_overlap (po_start p) (po_end p) (pi_start i) (pi_end i) \<longleftrightarrow> bytes p \<inter> pi_bytes i \<noteq> {}"
  by (simp add: wf_lock_def wf_info_def bytes_def pi_bytes_def ranges_overlap_iff)

lemma own_disjoint_Nil [simp]: "own_disjoint []"
  by (simp add: own_disjoint_def)

lemma no_clash_iff:
  assumes "wf_lock p" "wf_locks ps"
  shows "(\<forall>q \<in> set ps. who p = who q \<longrightarrow>
            \<not> ranges_overlap (po_start p) (po_end p) (po_start q) (po_end q)) \<longleftrightarrow>
         (\<forall>b ex. b \<in> bytes p \<longrightarrow> \<not> holds ps (who p) b ex)"
proof -
  have "(\<forall>q \<in> set ps. who p = who q \<longrightarrow>
            \<not> ranges_overlap (po_start p) (po_end p) (po_start q) (po_end q)) \<longleftrightarrow>
        (\<forall>q \<in> set ps. who p = who q \<longrightarrow> bytes p \<inter> bytes q = {})"
  proof (rule ball_cong [OF refl])
    fix q assume "q \<in> set ps"
    with assms have "wf_lock q" by (simp add: wf_locksD)
    with assms show "(who p = who q \<longrightarrow>
            \<not> ranges_overlap (po_start p) (po_end p) (po_start q) (po_end q)) \<longleftrightarrow>
        (who p = who q \<longrightarrow> bytes p \<inter> bytes q = {})" by (simp add: overlap_bytes)
  qed
  also have "\<dots> \<longleftrightarrow> (\<forall>b ex. b \<in> bytes p \<longrightarrow> \<not> holds ps (who p) b ex)"
    unfolding holds_def by (fastforce simp: disjoint_iff)
  finally show ?thesis .
qed

lemma own_disjoint_Cons:
  assumes "wf_lock p" "wf_locks ps"
  shows "own_disjoint (p # ps) \<longleftrightarrow>
           (\<forall>b ex. b \<in> bytes p \<longrightarrow> \<not> holds ps (who p) b ex) \<and> own_disjoint ps"
  using no_clash_iff [OF assms] by (simp add: own_disjoint_def)

lemma own_disjoint_snoc:
  assumes "wf_lock p" "wf_locks ps"
  shows "own_disjoint (ps @ [p]) \<longleftrightarrow>
           own_disjoint ps \<and> (\<forall>b ex. b \<in> bytes p \<longrightarrow> \<not> holds ps (who p) b ex)"
proof -
  have "(\<forall>q \<in> set ps. who q = who p \<longrightarrow>
           \<not> ranges_overlap (po_start q) (po_end q) (po_start p) (po_end p)) \<longleftrightarrow>
        (\<forall>q \<in> set ps. who p = who q \<longrightarrow>
           \<not> ranges_overlap (po_start p) (po_end p) (po_start q) (po_end q))"
    by (rule ball_cong [OF refl]) (subst ranges_overlap_commute, auto)
  with no_clash_iff [OF assms] show ?thesis
    by (simp add: own_disjoint_def sorted_wrt_append)
qed

lemma held_None_iff: "held locks h b = None \<longleftrightarrow> (\<forall>ex. \<not> holds locks h b ex)"
  by (auto simp: held_def holds_def find_None_iff bytes_def)

lemma held_Some_iff:
  assumes "wf_locks locks" "own_disjoint locks"
  shows "held locks h b = Some ex \<longleftrightarrow> holds locks h b ex"
  using assms
proof (induction locks)
  case (Cons p ps)
  then show ?case
    by (cases "who p = h \<and> b \<in> bytes p")
       (auto simp: own_disjoint_Cons held_def bytes_def)
qed (simp add: held_def)

section \<open>Locking and unlocking implement the specification\<close>

text \<open>
  \<open>update_post Q i L res\<close>: the call succeeded, its list is well-formed, and every byte of the
  request is now held by the requester exactly in the modes \<open>Q\<close>, all else being as in \<open>L\<close>.
\<close>

definition update_post ::
  "(int \<Rightarrow> bool) \<Rightarrow> dlm_plock_info \<Rightarrow> posix_lock list \<Rightarrow> int \<times> posix_lock list \<times> mem \<Rightarrow> bool"
where
  "update_post Q i L res \<longleftrightarrow>
     (case res of (rv, L', m') \<Rightarrow>
        rv = 0 \<and> mem_ok m' \<and> wf_locks L' \<and> own_disjoint L' \<and>
        (\<forall>h b ex. holds L' h b ex \<longleftrightarrow>
           (if h = pi_who i \<and> b \<in> pi_bytes i then Q ex else holds L h b ex)))"

lemma update_post_prepend:
  assumes post: "update_post Q i rest res" and disj: "own_disjoint (po # rest)"
    and wf: "wf_lock po" "wf_locks rest" "wf_lock po'"
    and same: "who po' = who po" "po_ex po' = po_ex po"
    and cut: "bytes po' = (if mine i po then bytes po - pi_bytes i else bytes po)"
  shows "update_post Q i (po # rest) (prepend po' res)"
proof -
  obtain rv L m where res: "res = (rv, L, m)" by (cases res)
  note post = post [unfolded res update_post_def prod.case]
  from disj wf have free: "b \<in> bytes po \<Longrightarrow> \<not> holds rest (who po) b ex" for b ex
    by (simp add: own_disjoint_Cons)
  have "own_disjoint (po' # L)"
  proof (subst own_disjoint_Cons)
    show "(\<forall>b ex. b \<in> bytes po' \<longrightarrow> \<not> holds L (who po') b ex) \<and> own_disjoint L"
      using post free cut same by (auto simp: mine_who split: if_splits)
  qed (use wf post in auto)
  then show ?thesis
    using post free cut same wf
    by (simp add: res update_post_def prepend_def mine_who) (auto split: if_splits)
qed

lemma update_post_drop:
  assumes "update_post Q i rest res" "mine i po" "bytes po \<subseteq> pi_bytes i"
  shows "update_post Q i (po # rest) res"
  using assms by (cases res) (auto simp: update_post_def mine_def)

lemma add_lock_ok:
  "mem_ok m \<Longrightarrow> add_lock locks nodeid owner pid ex start fin m =
     (0, locks @ [\<lparr>po_pid = pid, po_owner = owner, po_start = start, po_end = fin,
                   po_ex = ex, po_nodeid = nodeid, po_flags = 0\<rparr>], snd (malloc m))"
  by (simp add: add_lock_def split_beta)

lemma shrink_range_ok:
  assumes "wf_lock po" "wf_info i" "bytes po \<inter> pi_bytes i \<noteq> {}"
    and "overlap_type (pi_start i) (pi_end i) (po_start po) (po_end po) \<in> {1, 4}"
  obtains po' where "shrink_range po (pi_start i) (pi_end i) = (0, po')" "wf_lock po'"
    "bytes po' = bytes po - pi_bytes i" "who po' = who po" "po_ex po' = po_ex po"
proof -
  obtain s e where "shrink_range2 (po_start po) (po_end po) (pi_start i) (pi_end i) = (0, s, e)"
    "s \<le> e" "{s..e} = {po_start po..po_end po} - {pi_start i..pi_end i}"
    using assms shrink_range2_bytes [of "pi_start i" "pi_end i" "po_start po" "po_end po"]
    by (auto simp: wf_lock_def wf_info_def bytes_def pi_bytes_def Int_commute)
  then show thesis
    using that [of "po\<lparr>po_start := s, po_end := e\<rparr>"] assms
    by (simp add: shrink_range_def wf_lock_def bytes_def pi_bytes_def)
qed

lemma own_disjoint_append:
  assumes "wf_locks xs" "wf_locks ys"
  shows "own_disjoint (xs @ ys) \<longleftrightarrow> own_disjoint xs \<and> own_disjoint ys \<and>
           (\<forall>h b e e'. holds xs h b e \<longrightarrow> \<not> holds ys h b e')"
  using assms
proof (induction xs)
  case (Cons x xs)
  then have "own_disjoint ((x # xs) @ ys) \<longleftrightarrow>
      (\<forall>b ex. b \<in> bytes x \<longrightarrow> \<not> holds xs (who x) b ex \<and> \<not> holds ys (who x) b ex) \<and>
      own_disjoint xs \<and> own_disjoint ys \<and> (\<forall>h b e e'. holds xs h b e \<longrightarrow> \<not> holds ys h b e')"
    by (simp add: own_disjoint_Cons)
  also have "\<dots> \<longleftrightarrow> own_disjoint (x # xs) \<and> own_disjoint ys \<and>
      (\<forall>h b e e'. holds (x # xs) h b e \<longrightarrow> \<not> holds ys h b e')"
    using Cons.prems by (simp only: own_disjoint_Cons wf_locks_simps holds_simps) blast
  finally show ?case .
qed simp

text \<open>
  When the request lies inside one lock of its owner, the loop stops there: the lock is replaced by
  the pieces \<open>front\<close> (in place) and \<open>frags\<close> (appended).
\<close>

lemma update_post_split:
  assumes disj: "own_disjoint (po # rest)" and wf: "wf_lock po" "wf_locks rest"
    and mine: "mine i po" and inside: "pi_bytes i \<subseteq> bytes po"
    and pieces: "wf_locks (front @ frags)" "own_disjoint (front @ frags)"
      "\<And>h b ex. holds (front @ frags) h b ex \<longleftrightarrow> h = who po \<and>
         (b \<in> pi_bytes i \<and> Q ex \<or> b \<in> bytes po - pi_bytes i \<and> ex = po_ex po)"
    and "mem_ok m"
  shows "update_post Q i (po # rest) (0, front @ rest @ frags, m)"
proof -
  from disj wf have free: "b \<in> bytes po \<Longrightarrow> \<not> holds rest (who po) b ex" for b ex
    by (simp add: own_disjoint_Cons)
  have sep: "holds (front @ frags) h b e \<Longrightarrow> \<not> holds rest h b e'" for h b e e'
  proof -
    assume "holds (front @ frags) h b e"
    then have "h = who po" "b \<in> bytes po" using pieces(3) [of h b e] inside by auto
    then show ?thesis using free by simp
  qed
  have od: "own_disjoint (front @ rest @ frags)"
  proof -
    have 1: "own_disjoint front" "own_disjoint frags" "own_disjoint rest"
      and 2: "\<And>h b e e'. holds front h b e \<Longrightarrow> \<not> holds frags h b e'"
      using pieces(1,2) disj wf own_disjoint_append [of front frags]
      by (simp_all only: wf_locks_simps own_disjoint_Cons) blast+
    have 3: "\<And>h b e e'. holds front h b e \<Longrightarrow> \<not> holds rest h b e'"
      "\<And>h b e e'. holds rest h b e \<Longrightarrow> \<not> holds frags h b e'"
      using sep unfolding holds_simps by blast+
    have "own_disjoint (rest @ frags)"
      using 1 3(2) pieces(1) wf by (subst own_disjoint_append) (simp_all only: wf_locks_simps, blast)
    then show ?thesis
      using 1 2 3(1) pieces(1) wf
      by (subst own_disjoint_append) (simp_all only: wf_locks_simps holds_simps, blast)
  qed
  have "holds (front @ rest @ frags) h b ex \<longleftrightarrow>
      (if h = pi_who i \<and> b \<in> pi_bytes i then Q ex else holds (po # rest) h b ex)" for h b ex
  proof -
    have "holds (front @ rest @ frags) h b ex \<longleftrightarrow> holds (front @ frags) h b ex \<or> holds rest h b ex"
      by auto
    then show ?thesis
      using pieces(3) [of h b ex] free [of b ex] mine inside by (cases "h = who po") (auto simp: mine_who)
  qed
  then show ?thesis
    using od wf pieces(1) \<open>mem_ok m\<close> by (simp add: update_post_def)
qed

lemma wf_bytes_nonempty: "wf_lock po \<Longrightarrow> po_start po \<le> po_end po"
  by (simp add: wf_lock_def)

lemma request_inside:
  assumes "overlap_type (pi_start i) (pi_end i) (po_start po) (po_end po) \<in> {0, 1, 2}"
  shows "pi_bytes i \<subseteq> bytes po"
  using assms by (auto simp: overlap_type_iffs bytes_def pi_bytes_def)

lemma lock_covers:
  assumes "overlap_type (pi_start i) (pi_end i) (po_start po) (po_end po) = 3"
  shows "bytes po \<subseteq> pi_bytes i"
  using assms by (auto simp: overlap_type_iffs bytes_def pi_bytes_def)

lemma middle_cut:
  assumes "overlap_type (pi_start i) (pi_end i) (po_start po) (po_end po) = 2"
    and "wf_lock po" "wf_info i"
  shows "po_start po \<le> pi_start i - 1" "pi_end i + 1 \<le> po_end po"
    and "{po_start po..pi_start i - 1} \<inter> {pi_end i + 1..po_end po} = {}"
    and "bytes po - pi_bytes i = {po_start po..pi_start i - 1} \<union> {pi_end i + 1..po_end po}"
proof -
  have lt: "po_start po < pi_start i" "pi_end i < po_end po" "pi_start i \<le> pi_end i"
    using assms by (simp_all add: overlap_type_2 wf_info_def)
  then show "po_start po \<le> pi_start i - 1" "pi_end i + 1 \<le> po_end po"
    by (simp_all add: range_simps)
  show "{po_start po..pi_start i - 1} \<inter> {pi_end i + 1..po_end po} = {}"
    and "bytes po - pi_bytes i = {po_start po..pi_start i - 1} \<union> {pi_end i + 1..po_end po}"
    using lt by (auto simp: range_simps bytes_def pi_bytes_def)
qed

text \<open>The lock already covers the request in the same mode: nothing changes.\<close>

lemma lock_post_same:
  assumes "own_disjoint (po # rest)" "wf_lock po" "wf_locks rest" "mine i po"
    and "pi_bytes i \<subseteq> bytes po" "po_ex po = uint (pi_ex i)" "mem_ok m"
  shows "update_post (\<lambda>ex. ex = uint (pi_ex i)) i (po # rest) (0, po # rest, m)"
proof -
  have "update_post (\<lambda>ex. ex = uint (pi_ex i)) i (po # rest) (0, [po] @ rest @ [], m)"
    using assms by (intro update_post_split) (auto simp: own_disjoint_Cons)
  then show ?thesis by simp
qed

lemma convert_lock_simps [simp]:
  "bytes (convert_lock po i) = pi_bytes i" "po_ex (convert_lock po i) = uint (pi_ex i)"
  "po_nodeid (convert_lock po i) = po_nodeid po" "po_owner (convert_lock po i) = po_owner po"
  "wf_info i \<Longrightarrow> wf_lock (convert_lock po i)"
  by (auto simp: convert_lock_def bytes_def pi_bytes_def wf_lock_def wf_info_def)

lemma lock_case0_post:
  assumes "own_disjoint (po # rest)" "wf_lock po" "wf_locks rest" "mine i po" "wf_info i" "mem_ok m"
    and ty: "overlap_type (pi_start i) (pi_end i) (po_start po) (po_end po) = 0"
  shows "update_post (\<lambda>ex. ex = uint (pi_ex i)) i (po # rest)
           (0, po\<lparr>po_ex := uint (pi_ex i)\<rparr> # rest, m)"
proof -
  from ty have eq: "bytes po = pi_bytes i" by (simp add: overlap_type_0 bytes_def pi_bytes_def)
  have "update_post (\<lambda>ex. ex = uint (pi_ex i)) i (po # rest) (0, [convert_lock po i] @ rest @ [], m)"
    by (rule update_post_split) (use assms eq in \<open>auto simp: own_disjoint_Cons\<close>)
  moreover have "convert_lock po i = po\<lparr>po_ex := uint (pi_ex i)\<rparr>"
    using ty by (simp add: convert_lock_def overlap_type_0)
  ultimately show ?thesis by simp
qed

lemma lock_case1_post:
  assumes "own_disjoint (po # rest)" "wf_lock po" "wf_locks rest" "mine i po" "wf_info i" "mem_ok m"
    and ty: "overlap_type (pi_start i) (pi_end i) (po_start po) (po_end po) = 1"
    and ne: "po_ex po \<noteq> uint (pi_ex i)"
  shows "update_post (\<lambda>ex. ex = uint (pi_ex i)) i (po # rest) (lock_case1 po rest i m)"
proof -
  from ty have inside: "pi_bytes i \<subseteq> bytes po" by (simp add: request_inside)
  moreover have "pi_bytes i \<noteq> {}" using \<open>wf_info i\<close> by (auto simp: pi_bytes_def wf_info_def)
  ultimately have meet: "bytes po \<inter> pi_bytes i \<noteq> {}" by blast
  obtain s e where shrink: "shrink_range2 (po_start po) (po_end po) (pi_start i) (pi_end i) = (0, s, e)"
    and se: "s \<le> e" and cut: "{s..e} = bytes po - pi_bytes i"
    using shrink_range2_bytes [of "pi_start i" "pi_end i" "po_start po" "po_end po"] ty meet assms(2,5)
    by (auto simp: wf_lock_def wf_info_def bytes_def pi_bytes_def Int_commute)
  define f where "f = \<lparr>po_pid = pi_pid i, po_owner = pi_owner i, po_start = s, po_end = e,
      po_ex = not_ex i, po_nodeid = pi_nodeid i, po_flags = 0\<rparr>"
  have f: "who f = who po" "bytes f = bytes po - pi_bytes i" "po_ex f = po_ex po" "wf_lock f"
    using \<open>mine i po\<close> cut se not_ex_orig_mode [OF \<open>wf_info i\<close> \<open>wf_lock po\<close> ne] \<open>wf_lock po\<close>
    by (auto simp: f_def mine_def bytes_def wf_lock_def)
  have "update_post (\<lambda>ex. ex = uint (pi_ex i)) i (po # rest)
      (0, [convert_lock po i] @ rest @ [f], snd (malloc m))"
  proof (rule update_post_split)
    show "wf_locks ([convert_lock po i] @ [f])" using \<open>wf_info i\<close> f by simp
    show "own_disjoint ([convert_lock po i] @ [f])"
      using \<open>wf_info i\<close> f by (simp add: own_disjoint_Cons)
    show "holds ([convert_lock po i] @ [f]) h b ex \<longleftrightarrow> h = who po \<and>
        (b \<in> pi_bytes i \<and> ex = uint (pi_ex i) \<or> b \<in> bytes po - pi_bytes i \<and> ex = po_ex po)" for h b ex
      using f by auto
  qed (use assms inside in simp_all)
  then show ?thesis
    using \<open>mem_ok m\<close> by (simp add: lock_case1_def shrink add_lock_ok f_def)
qed

lemma lock_case2_post:
  assumes "own_disjoint (po # rest)" "wf_lock po" "wf_locks rest" "mine i po" "wf_info i" "mem_ok m"
    and ty: "overlap_type (pi_start i) (pi_end i) (po_start po) (po_end po) = 2"
    and ne: "po_ex po \<noteq> uint (pi_ex i)"
  shows "update_post (\<lambda>ex. ex = uint (pi_ex i)) i (po # rest) (lock_case2 po rest i m)"
proof -
  from ty have inside: "pi_bytes i \<subseteq> bytes po" by (simp add: request_inside)
  note mid = middle_cut [OF ty \<open>wf_lock po\<close> \<open>wf_info i\<close>]
    and orig = not_ex_orig_mode [OF \<open>wf_info i\<close> \<open>wf_lock po\<close> ne]
  define f where "f s e = \<lparr>po_pid = pi_pid i, po_owner = pi_owner i, po_start = s, po_end = e,
      po_ex = not_ex i, po_nodeid = pi_nodeid i, po_flags = 0\<rparr>" for s e
  let ?a = "f (po_start po) (pi_start i - 1)" and ?b = "f (pi_end i + 1) (po_end po)"
  have f: "who (f s e) = who po" "po_ex (f s e) = po_ex po" "bytes (f s e) = {s..e}" for s e
    using \<open>mine i po\<close> orig by (auto simp: f_def mine_def bytes_def)
  have ab: "wf_lock ?a" "wf_lock ?b"
    using mid(1,2) orig \<open>wf_lock po\<close> by (auto simp: f_def wf_lock_def)
  have "update_post (\<lambda>ex. ex = uint (pi_ex i)) i (po # rest)
      (0, [convert_lock po i] @ rest @ [?a, ?b], snd (malloc (snd (malloc m))))"
  proof (rule update_post_split)
    show "wf_locks ([convert_lock po i] @ [?a, ?b])" using \<open>wf_info i\<close> ab by simp
    show "own_disjoint ([convert_lock po i] @ [?a, ?b])"
      using \<open>wf_info i\<close> f ab mid(3,4) by (auto simp: own_disjoint_Cons)
    show "holds ([convert_lock po i] @ [?a, ?b]) h b ex \<longleftrightarrow> h = who po \<and>
        (b \<in> pi_bytes i \<and> ex = uint (pi_ex i) \<or> b \<in> bytes po - pi_bytes i \<and> ex = po_ex po)" for h b ex
      using f unfolding mid(4) by auto
  qed (use assms inside in simp_all)
  then show ?thesis
    using \<open>mem_ok m\<close> by (simp add: lock_case2_def add_lock_ok f_def)
qed

lemma lock_internal_post:
  assumes "wf_info i" "mem_ok m" "wf_locks L" "own_disjoint L"
  shows "update_post (\<lambda>ex. ex = uint (pi_ex i)) i L (lock_internal i m L)"
  using assms(3,4)
proof (induction L)
  case Nil
  have "wf_lock \<lparr>po_pid = pi_pid i, po_owner = pi_owner i, po_start = pi_start i, po_end = pi_end i,
      po_ex = uint (pi_ex i), po_nodeid = pi_nodeid i, po_flags = 0\<rparr>"
    using \<open>wf_info i\<close> by (auto simp: wf_lock_def wf_info_def)
  with \<open>mem_ok m\<close> show ?case
    by (auto simp: update_post_def add_lock_ok own_disjoint_def bytes_def pi_bytes_def)
next
  case (Cons po rest)
  let ?ov = "ranges_overlap (po_start po) (po_end po) (pi_start i) (pi_end i)"
  let ?ty = "overlap_type (pi_start i) (pi_end i) (po_start po) (po_end po)"
  from Cons.prems have wf: "wf_lock po" "wf_locks rest" by simp_all
  with Cons.prems(2) have od: "own_disjoint rest" by (simp add: own_disjoint_Cons)
  note IH = Cons.IH [OF wf(2) od]
  note step = update_post_prepend [OF IH Cons.prems(2) wf]
  show ?case
  proof (cases "mine i po \<and> ?ov")
    case False
    then have "bytes po = (if mine i po then bytes po - pi_bytes i else bytes po)"
      using overlap_pi_bytes [OF wf(1) \<open>wf_info i\<close>] by auto
    with False show ?thesis using step [OF wf(1)] by auto
  next
    case True
    consider "?ty = 0" | "?ty = 1" | "?ty = 2" | "?ty = 3" | "?ty = 4"
      using overlap_type_total [of "pi_start i" "pi_end i" "po_start po" "po_end po"] by auto
    then show ?thesis
    proof cases
      case 1
      then show ?thesis
        using True Cons.prems assms wf lock_case0_post [of po rest i m]
          lock_post_same [of po rest i m] request_inside [of i po] by simp
    next
      case 2 then show ?thesis
        using True Cons.prems assms wf lock_case1_post [of po rest i m]
          lock_post_same [of po rest i m] request_inside [of i po] by simp
    next
      case 3 then show ?thesis
        using True Cons.prems assms wf lock_case2_post [of po rest i m]
          lock_post_same [of po rest i m] request_inside [of i po] by simp
    next
      case 4 then show ?thesis
        using True update_post_drop [OF IH _ lock_covers] by simp
    next
      case 5
      obtain po' where po': "shrink_range po (pi_start i) (pi_end i) = (0, po')" "wf_lock po'"
        "bytes po' = bytes po - pi_bytes i" "who po' = who po" "po_ex po' = po_ex po"
        using shrink_range_ok [OF wf(1) \<open>wf_info i\<close>] 5 True
          overlap_pi_bytes [OF wf(1) \<open>wf_info i\<close>] by auto
      have "lock_internal i m (po # rest) =
          prepend (if po_start po < pi_start i then po\<lparr>po_end := pi_start i - 1\<rparr>
                   else po\<lparr>po_start := pi_end i + 1\<rparr>) (lock_internal i m rest)"
        using True 5 by simp
      also have "(if po_start po < pi_start i then po\<lparr>po_end := pi_start i - 1\<rparr>
                   else po\<lparr>po_start := pi_end i + 1\<rparr>) = po'"
        using po'(1) 5 [unfolded overlap_type_4]
        by (auto simp: shrink_range_def shrink_range2_def split: if_splits)
      finally show ?thesis using True po' step [OF po'(2)] by simp
    qed
  qed
qed

lemma unlock_internal_post:
  assumes "wf_info i" "mem_ok m" "wf_locks L" "own_disjoint L"
  shows "update_post (\<lambda>ex. False) i L (unlock_internal i 0 m L)"
  using assms(3,4)
proof (induction L)
  case Nil
  with \<open>mem_ok m\<close> show ?case by (simp add: update_post_def)
next
  case (Cons po rest)
  let ?ov = "ranges_overlap (po_start po) (po_end po) (pi_start i) (pi_end i)"
  let ?ty = "overlap_type (pi_start i) (pi_end i) (po_start po) (po_end po)"
  from Cons.prems have wf: "wf_lock po" "wf_locks rest" by simp_all
  with Cons.prems(2) have od: "own_disjoint rest" by (simp add: own_disjoint_Cons)
  note IH = Cons.IH [OF wf(2) od]
  note step = update_post_prepend [OF IH Cons.prems(2) wf]
  note split = update_post_split [OF Cons.prems(2) wf, of i _ _ "\<lambda>ex. False"]
  show ?case
  proof (cases "mine i po \<and> ?ov")
    case False
    then have "bytes po = (if mine i po then bytes po - pi_bytes i else bytes po)"
      using overlap_pi_bytes [OF wf(1) \<open>wf_info i\<close>] by auto
    with False show ?thesis using step [OF wf(1)] by auto
  next
    case True
    then have meet: "bytes po \<inter> pi_bytes i \<noteq> {}"
      using overlap_pi_bytes [OF wf(1) \<open>wf_info i\<close>] by simp
    consider "?ty = 0" | "?ty = 1" | "?ty = 2" | "?ty = 3" | "?ty = 4"
      using overlap_type_total [of "pi_start i" "pi_end i" "po_start po" "po_end po"] by auto
    then show ?thesis
    proof cases
      case 1
      then have "bytes po = pi_bytes i" by (simp add: overlap_type_0 bytes_def pi_bytes_def)
      then show ?thesis
        using 1 True split [of "[]" "[]" m] \<open>mem_ok m\<close> by simp
    next
      case 2
      then obtain po' where po': "shrink_range po (pi_start i) (pi_end i) = (0, po')" "wf_lock po'"
        "bytes po' = bytes po - pi_bytes i" "who po' = who po" "po_ex po' = po_ex po"
        using shrink_range_ok [OF wf(1) \<open>wf_info i\<close> meet] by auto
      have "update_post (\<lambda>ex. False) i (po # rest) (0, [po'] @ rest @ [], m)"
        by (rule split) (use 2 True po' \<open>mem_ok m\<close> request_inside [of i po] in
             \<open>auto simp: own_disjoint_Cons\<close>)
      with 2 True po' show ?thesis by simp
    next
      case 3
      let ?f = "\<lparr>po_pid = pi_pid i, po_owner = pi_owner i, po_start = pi_end i + 1,
        po_end = po_end po, po_ex = po_ex po, po_nodeid = pi_nodeid i, po_flags = 0\<rparr>"
      note mid = middle_cut [OF 3 wf(1) \<open>wf_info i\<close>]
      have "update_post (\<lambda>ex. False) i (po # rest)
          (0, [po\<lparr>po_end := pi_start i - 1\<rparr>] @ rest @ [?f], snd (malloc m))"
      proof (rule split)
        show "own_disjoint ([po\<lparr>po_end := pi_start i - 1\<rparr>] @ [?f])"
          using mid(1-3) wf(1) by (auto simp: own_disjoint_Cons wf_lock_def bytes_def)
        show "holds ([po\<lparr>po_end := pi_start i - 1\<rparr>] @ [?f]) h b ex \<longleftrightarrow> h = who po \<and>
            (b \<in> pi_bytes i \<and> False \<or> b \<in> bytes po - pi_bytes i \<and> ex = po_ex po)" for h b ex
          using True unfolding mid(4) by (auto simp: mine_def bytes_def)
      qed (use 3 True wf mid \<open>mem_ok m\<close> request_inside [of i po] in \<open>auto simp: wf_lock_def\<close>)
      with 3 True \<open>mem_ok m\<close> show ?thesis by (simp add: add_lock_ok)
    next
      case 4 then show ?thesis
        using True update_post_drop [OF IH _ lock_covers] by simp
    next
      case 5
      then obtain po' where po': "shrink_range po (pi_start i) (pi_end i) = (0, po')" "wf_lock po'"
        "bytes po' = bytes po - pi_bytes i" "who po' = who po" "po_ex po' = po_ex po"
        using shrink_range_ok [OF wf(1) \<open>wf_info i\<close> meet] by auto
      with 5 True show ?thesis using step [OF po'(2)] by simp
    qed
  qed
qed

section \<open>Safety, whatever malloc does\<close>

text \<open>
  \<open>derived G L L'\<close>: every lock of \<open>L'\<close> is well-formed and either lies inside a lock of \<open>L\<close> of the same
  owner and mode, or is one of the granted locks \<open>G\<close>.
\<close>

definition derived :: "(posix_lock \<Rightarrow> bool) \<Rightarrow> posix_lock list \<Rightarrow> posix_lock list \<Rightarrow> bool" where
  "derived G L L' \<longleftrightarrow> (\<forall>q \<in> set L'. wf_lock q \<and>
     (G q \<or> (\<exists>p \<in> set L. who q = who p \<and> po_ex q = po_ex p \<and> bytes q \<subseteq> bytes p)))"

definition granted :: "dlm_plock_info \<Rightarrow> posix_lock \<Rightarrow> bool" where
  "granted i q \<longleftrightarrow> who q = pi_who i \<and> po_ex q = uint (pi_ex i) \<and> bytes q \<subseteq> pi_bytes i"

lemma derived_Nil [simp]: "derived G L []"
  by (simp add: derived_def)

lemma derived_Cons [simp]:
  "derived G L (q # L') \<longleftrightarrow> wf_lock q \<and>
     (G q \<or> (\<exists>p \<in> set L. who q = who p \<and> po_ex q = po_ex p \<and> bytes q \<subseteq> bytes p)) \<and> derived G L L'"
  by (auto simp: derived_def)

lemma derived_append [simp]: "derived G L (xs @ ys) \<longleftrightarrow> derived G L xs \<and> derived G L ys"
  by (auto simp: derived_def)

lemma derived_refl: "wf_locks L \<Longrightarrow> set L \<subseteq> set L0 \<Longrightarrow> derived G L0 L"
  by (auto simp: derived_def dest: wf_locksD)

lemma derived_mono: "derived G L L' \<Longrightarrow> set L \<subseteq> set L0 \<Longrightarrow> derived G L0 L'"
  unfolding derived_def by blast

abbreviation res_locks :: "int \<times> posix_lock list \<times> mem \<Rightarrow> posix_lock list" where
  "res_locks res \<equiv> fst (snd res)"

lemma res_locks_prepend [simp]: "res_locks (prepend po res) = po # res_locks res"
  by (cases res) (simp add: prepend_def)

lemma derived_add_lock:
  assumes "derived G L xs"
    and "wf_lock \<lparr>po_pid = pid, po_owner = owner, po_start = start, po_end = fin, po_ex = ex,
           po_nodeid = nodeid, po_flags = 0\<rparr>"
    and "G \<lparr>po_pid = pid, po_owner = owner, po_start = start, po_end = fin, po_ex = ex,
           po_nodeid = nodeid, po_flags = 0\<rparr> \<or>
         (\<exists>p \<in> set L. (nodeid, owner) = who p \<and> ex = po_ex p \<and> {start..fin} \<subseteq> bytes p)"
  shows "derived G L (res_locks (add_lock xs nodeid owner pid ex start fin m))"
  using assms by (auto simp: add_lock_def split_beta bytes_def)

lemma wf_lock_orig:
  "wf_lock po \<Longrightarrow> s \<le> e \<Longrightarrow> wf_lock \<lparr>po_pid = pid, po_owner = owner, po_start = s, po_end = e,
     po_ex = po_ex po, po_nodeid = nodeid, po_flags = 0\<rparr>"
  by (simp add: wf_lock_def)

lemma granted_convert: "mine i po \<Longrightarrow> granted i (convert_lock po i)"
  by (simp add: granted_def mine_def)

lemma lock_case1_derived:
  assumes "wf_lock po" "wf_locks rest" "mine i po" "wf_info i" "bytes po \<inter> pi_bytes i \<noteq> {}"
    and ty: "overlap_type (pi_start i) (pi_end i) (po_start po) (po_end po) = 1"
    and ne: "po_ex po \<noteq> uint (pi_ex i)"
  shows "derived (granted i) (po # rest) (res_locks (lock_case1 po rest i m))"
proof -
  obtain s e where shrink: "shrink_range2 (po_start po) (po_end po) (pi_start i) (pi_end i) = (0, s, e)"
    and se: "s \<le> e" and cut: "{s..e} = bytes po - pi_bytes i"
    using shrink_range2_bytes [of "pi_start i" "pi_end i" "po_start po" "po_end po"] assms
    by (auto simp: wf_lock_def wf_info_def bytes_def pi_bytes_def Int_commute)
  have d: "derived (granted i) (po # rest) (convert_lock po i # rest)"
    using assms granted_convert [OF \<open>mine i po\<close>] by (auto intro: derived_refl)
  show ?thesis
    unfolding lock_case1_def shrink prod.case if_not_P [OF not_not [THEN iffD2, OF refl]]
    by (rule derived_add_lock [OF d])
       (use assms se cut not_ex_orig_mode [of i po] in
         \<open>auto simp: wf_lock_def mine_def\<close>)
qed

lemma lock_case2_derived:
  assumes "wf_lock po" "wf_locks rest" "mine i po" "wf_info i"
    and ty: "overlap_type (pi_start i) (pi_end i) (po_start po) (po_end po) = 2"
    and ne: "po_ex po \<noteq> uint (pi_ex i)"
  shows "derived (granted i) (po # rest) (res_locks (lock_case2 po rest i m))"
proof -
  note mid = middle_cut [OF ty assms(1,4)] and orig = not_ex_orig_mode [OF assms(4,1) ne]
  have sub: "{po_start po..pi_start i - 1} \<subseteq> bytes po" "{pi_end i + 1..po_end po} \<subseteq> bytes po"
    using mid(4) by blast+
  let ?add = "\<lambda>xs s e m. add_lock xs (pi_nodeid i) (pi_owner i) (pi_pid i) (not_ex i) s e m"
  have one: "derived (granted i) (po # rest) xs \<Longrightarrow> s \<le> e \<Longrightarrow> {s..e} \<subseteq> bytes po \<Longrightarrow>
      derived (granted i) (po # rest) (res_locks (?add xs s e m'))" for xs s e m'
    using assms(1,3) orig by (intro derived_add_lock) (auto simp: mine_def wf_lock_orig)
  obtain rv1 r1 m1 where 1: "?add rest (po_start po) (pi_start i - 1) m = (rv1, r1, m1)"
    by (metis prod_cases3)
  obtain rv2 r2 m2 where 2: "?add r1 (pi_end i + 1) (po_end po) m1 = (rv2, r2, m2)"
    by (metis prod_cases3)
  have "derived (granted i) (po # rest) rest" using assms(2) by (auto intro: derived_refl)
  from one [OF this mid(1) sub(1), of m] have d1: "derived (granted i) (po # rest) r1"
    by (simp add: 1)
  from one [OF this mid(2) sub(2), of m1] have d2: "derived (granted i) (po # rest) r2"
    by (simp add: 2)
  show ?thesis
    using d1 d2 assms granted_convert [OF assms(3)] by (simp add: lock_case2_def 1 2)
qed

lemma shrink_range_derived:
  assumes "wf_lock po" "wf_info i" "bytes po \<inter> pi_bytes i \<noteq> {}"
    and "overlap_type (pi_start i) (pi_end i) (po_start po) (po_end po) \<in> {1, 4}"
  shows "derived G (po # rest) [snd (shrink_range po (pi_start i) (pi_end i))]"
proof -
  obtain po' where "shrink_range po (pi_start i) (pi_end i) = (0, po')" "wf_lock po'"
    "bytes po' = bytes po - pi_bytes i" "who po' = who po" "po_ex po' = po_ex po"
    using shrink_range_ok [OF assms] .
  then show ?thesis by auto
qed

lemma lock_case4_shrink:
  assumes "overlap_type (pi_start i) (pi_end i) (po_start po) (po_end po) = 4"
  shows "snd (shrink_range po (pi_start i) (pi_end i)) =
           (if po_start po < pi_start i then po\<lparr>po_end := pi_start i - 1\<rparr>
            else po\<lparr>po_start := pi_end i + 1\<rparr>)"
  using assms [unfolded overlap_type_4] by (auto simp: shrink_range_def shrink_range2_def)

lemma lock_internal_derived:
  assumes "wf_info i" "wf_locks L"
  shows "derived (granted i) L (res_locks (lock_internal i m L))"
  using assms(2)
proof (induction L)
  case Nil
  show ?case
    using \<open>wf_info i\<close> unfolding lock_internal.simps
    by (intro derived_add_lock)
       (auto simp: wf_info_def wf_lock_def granted_def bytes_def pi_bytes_def)
next
  case (Cons po rest)
  let ?ty = "overlap_type (pi_start i) (pi_end i) (po_start po) (po_end po)"
  from Cons.prems have wf: "wf_lock po" "wf_locks rest" by simp_all
  have IH: "derived (granted i) (po # rest) (res_locks (lock_internal i m rest))"
    by (rule derived_mono [OF Cons.IH [OF wf(2)]]) auto
  have keep: "derived (granted i) (po # rest) (po # rest)" using Cons.prems by (rule derived_refl) simp
  show ?case
  proof (cases "mine i po \<and> ranges_overlap (po_start po) (po_end po) (pi_start i) (pi_end i)")
    case False
    with IH wf show ?thesis by auto
  next
    case True
    then have meet: "bytes po \<inter> pi_bytes i \<noteq> {}"
      using overlap_pi_bytes [OF wf(1) \<open>wf_info i\<close>] by simp
    consider "?ty = 0" | "?ty = 1" | "?ty = 2" | "?ty = 3" | "?ty = 4"
      using overlap_type_total [of "pi_start i" "pi_end i" "po_start po" "po_end po"] by auto
    then show ?thesis
    proof cases
      case 1
      then have "po\<lparr>po_ex := uint (pi_ex i)\<rparr> = convert_lock po i"
        by (simp add: overlap_type_0 convert_lock_def)
      then show ?thesis
        using 1 True keep granted_convert [of i po] \<open>wf_info i\<close> by auto
    next
      case 2 with True keep wf meet \<open>wf_info i\<close> lock_case1_derived [of po rest i m] show ?thesis by simp
    next
      case 3 with True keep wf \<open>wf_info i\<close> lock_case2_derived [of po rest i m] show ?thesis by simp
    next
      case 4 with True IH show ?thesis by simp
    next
      case 5
      then have "derived (granted i) (po # rest) [snd (shrink_range po (pi_start i) (pi_end i))]"
        using shrink_range_derived [OF wf(1) \<open>wf_info i\<close> meet] by simp
      with 5 True IH show ?thesis by (auto simp: lock_case4_shrink)
    qed
  qed
qed

lemma unlock_internal_derived:
  assumes "wf_info i" "wf_locks L"
  shows "derived (\<lambda>_. False) L (res_locks (unlock_internal i rv m L))"
  using assms(2)
proof (induction L arbitrary: rv)
  case (Cons po rest)
  let ?ty = "overlap_type (pi_start i) (pi_end i) (po_start po) (po_end po)"
  from Cons.prems have wf: "wf_lock po" "wf_locks rest" by simp_all
  have IH: "derived (\<lambda>_. False) (po # rest) (res_locks (unlock_internal i rv m rest))" for rv
    by (rule derived_mono [OF Cons.IH [OF wf(2)]]) auto
  have keep: "derived (\<lambda>_. False) (po # rest) rest" using wf(2) by (rule derived_refl) auto
  show ?case
  proof (cases "mine i po \<and> ranges_overlap (po_start po) (po_end po) (pi_start i) (pi_end i)")
    case False
    with IH wf show ?thesis by auto
  next
    case True
    then have meet: "bytes po \<inter> pi_bytes i \<noteq> {}"
      using overlap_pi_bytes [OF wf(1) \<open>wf_info i\<close>] by simp
    have cut: "?ty \<in> {1, 4} \<Longrightarrow>
        derived (\<lambda>_. False) (po # rest) [snd (shrink_range po (pi_start i) (pi_end i))]"
      by (rule shrink_range_derived [OF wf(1) \<open>wf_info i\<close> meet])
    consider "?ty = 0" | "?ty = 1" | "?ty = 2" | "?ty = 3" | "?ty = 4"
      using overlap_type_total [of "pi_start i" "pi_end i" "po_start po" "po_end po"] by auto
    then show ?thesis
    proof cases
      case 1 with True keep show ?thesis by simp
    next
      case 2 with True keep cut show ?thesis by (simp add: split_beta)
    next
      case 3
      note mid = middle_cut [OF 3 wf(1) \<open>wf_info i\<close>]
      have "derived (\<lambda>_. False) (po # rest)
          (res_locks (add_lock rest (pi_nodeid i) (pi_owner i) (pi_pid i) (po_ex po)
             (pi_end i + 1) (po_end po) m))"
        by (rule derived_add_lock [OF keep]) (use True wf mid in \<open>auto simp: mine_def wf_lock_orig\<close>)
      moreover have "derived (\<lambda>_. False) (po # rest) [po\<lparr>po_end := pi_start i - 1\<rparr>]"
        using wf(1) mid by (auto simp: wf_lock_def bytes_def)
      ultimately show ?thesis using 3 True by (simp add: split_beta)
    next
      case 4 with True IH show ?thesis by simp
    next
      case 5 with True IH cut show ?thesis by (simp add: split_beta)
    qed
  qed
qed simp

section \<open>The conflict test\<close>

definition blocks :: "dlm_plock_info \<Rightarrow> posix_lock \<Rightarrow> bool" where
  "blocks i po \<longleftrightarrow> who po \<noteq> pi_who i \<and>
     ranges_overlap (po_start po) (po_end po) (pi_start i) (pi_end i) \<and> (pi_ex i \<noteq> 0 \<or> po_ex po \<noteq> 0)"

lemma is_conflict_iff: "fst (is_conflict L i get) \<longleftrightarrow> (\<exists>po \<in> set L. blocks i po)"
  by (induction L) (auto simp: blocks_def)

lemma is_conflict_info: "snd (is_conflict L i False) = i"
  by (induction L) auto

lemma is_conflict_get:
  "fst (is_conflict L i True) \<Longrightarrow> \<exists>po \<in> set L. blocks i po \<and>
     snd (is_conflict L i True) = i\<lparr>pi_ex := word_of_int (po_ex po), pi_pid := po_pid po,
       pi_start := po_start po, pi_end := po_end po\<rparr>"
  by (induction L) (auto simp: blocks_def)

lemma is_conflict_spec:
  assumes "wf_locks L" "own_disjoint L" "wf_info i"
  shows "fst (is_conflict L i get) \<longleftrightarrow> spec_conflict (held L) i"
proof -
  have "blocks i po \<longleftrightarrow> who po \<noteq> pi_who i \<and> bytes po \<inter> pi_bytes i \<noteq> {} \<and> (pi_ex i \<noteq> 0 \<or> po_ex po \<noteq> 0)"
    if "po \<in> set L" for po
    unfolding blocks_def using overlap_pi_bytes [OF wf_locksD [OF assms(1) that] assms(3)] by simp
  then have "(\<exists>po \<in> set L. blocks i po) \<longleftrightarrow> (\<exists>po \<in> set L. who po \<noteq> pi_who i \<and>
      bytes po \<inter> pi_bytes i \<noteq> {} \<and> (pi_ex i \<noteq> 0 \<or> po_ex po \<noteq> 0))" by blast
  also have "\<dots> \<longleftrightarrow> spec_conflict (held L) i"
    unfolding spec_conflict_def held_Some_iff [OF assms(1,2)] holds_def by blast
  finally show ?thesis by (simp add: is_conflict_iff)
qed

lemma locks_safe_bytes:
  assumes "wf_locks L"
  shows "locks_safe L \<longleftrightarrow> (\<forall>p \<in> set L. \<forall>q \<in> set L. who p \<noteq> who q \<longrightarrow> bytes p \<inter> bytes q \<noteq> {} \<longrightarrow>
           po_ex p = 0 \<and> po_ex q = 0)"
  unfolding locks_safe_def using overlap_bytes wf_locksD [OF assms] by (intro ball_cong refl) metis

lemma derived_wf: "derived G L L' \<Longrightarrow> wf_locks L'"
  by (simp add: derived_def wf_locks_def list_all_iff)

lemma derived_safe:
  assumes "derived (granted i) L L'" "wf_locks L" "locks_safe L" "wf_info i"
    and free: "\<not> fst (is_conflict L i get)"
  shows "locks_safe L'"
proof -
  have old: "po_ex p = 0 \<and> po_ex q = 0"
    if "p \<in> set L" "q \<in> set L" "who p \<noteq> who q" "bytes p \<inter> bytes q \<noteq> {}" for p q
    using assms(2,3) that unfolding locks_safe_bytes [OF assms(2)] by blast
  have new: "pi_ex i = 0 \<and> po_ex p = 0"
    if "p \<in> set L" "who p \<noteq> pi_who i" "bytes p \<inter> pi_bytes i \<noteq> {}" for p
    using free that overlap_pi_bytes [OF wf_locksD [OF assms(2) that(1)] assms(4)]
    unfolding is_conflict_iff blocks_def by auto
  show ?thesis
    unfolding locks_safe_bytes [OF derived_wf [OF assms(1)]]
  proof (intro ballI impI)
    fix p q assume pq: "p \<in> set L'" "q \<in> set L'" "who p \<noteq> who q" "bytes p \<inter> bytes q \<noteq> {}"
    have "granted i x \<or> (\<exists>y \<in> set L. who x = who y \<and> po_ex x = po_ex y \<and> bytes x \<subseteq> bytes y)"
      if "x \<in> set L'" for x using assms(1) that unfolding derived_def by blast
    note src = this [OF pq(1)] this [OF pq(2)]
    have meet: "bytes p \<subseteq> A \<Longrightarrow> bytes q \<subseteq> B \<Longrightarrow> A \<inter> B \<noteq> {}" for A B using pq(4) by blast
    from src show "po_ex p = 0 \<and> po_ex q = 0"
    proof (elim disjE bexE conjE)
      assume "granted i p" "granted i q"
      with pq(3) show ?thesis by (simp add: granted_def)
    next
      fix y assume y: "granted i p" "y \<in> set L" "who q = who y" "po_ex q = po_ex y" "bytes q \<subseteq> bytes y"
      with meet [of "pi_bytes i" "bytes y"] pq(3) have "pi_ex i = 0 \<and> po_ex y = 0"
        by (intro new) (auto simp: granted_def Int_commute)
      with y show ?thesis by (simp add: granted_def)
    next
      fix y assume y: "granted i q" "y \<in> set L" "who p = who y" "po_ex p = po_ex y" "bytes p \<subseteq> bytes y"
      with meet [of "bytes y" "pi_bytes i"] pq(3) have "pi_ex i = 0 \<and> po_ex y = 0"
        by (intro new) (auto simp: granted_def)
      with y show ?thesis by (simp add: granted_def)
    next
      fix y z assume "y \<in> set L" "who p = who y" "po_ex p = po_ex y" "bytes p \<subseteq> bytes y"
        "z \<in> set L" "who q = who z" "po_ex q = po_ex z" "bytes q \<subseteq> bytes z"
      with old [of y z] meet [of "bytes y" "bytes z"] pq(3) show ?thesis by simp
    qed
  qed
qed

lemma derived_safe_shrink:
  assumes "derived (\<lambda>_. False) L L'" "wf_locks L" "locks_safe L"
  shows "locks_safe L'"
  unfolding locks_safe_bytes [OF derived_wf [OF assms(1)]]
proof (intro ballI impI)
  fix p q assume pq: "p \<in> set L'" "q \<in> set L'" "who p \<noteq> who q" "bytes p \<inter> bytes q \<noteq> {}"
  obtain y z where "y \<in> set L" "who p = who y" "po_ex p = po_ex y" "bytes p \<subseteq> bytes y"
    "z \<in> set L" "who q = who z" "po_ex q = po_ex z" "bytes q \<subseteq> bytes z"
    using assms(1) pq(1,2) unfolding derived_def by metis
  moreover from this pq(4) have "bytes y \<inter> bytes z \<noteq> {}" by blast
  ultimately show "po_ex p = 0 \<and> po_ex q = 0"
    using assms(3) pq(3) unfolding locks_safe_bytes [OF assms(2)] by metis
qed

section \<open>The contract of the lock list\<close>

text \<open>
  What the rest of the daemon relies on, as an interface: a lock store with a range insertion, a
  range removal and a conflict test, over any representation with an abstraction to the lock map.
\<close>

locale lock_store =
  fixes lock_op :: "dlm_plock_info \<Rightarrow> 's \<Rightarrow> int \<times> 's"
    and unlock_op :: "dlm_plock_info \<Rightarrow> 's \<Rightarrow> int \<times> 's"
    and conflict :: "dlm_plock_info \<Rightarrow> 's \<Rightarrow> bool"
    and absmap :: "'s \<Rightarrow> lock_map"
    and inv :: "'s \<Rightarrow> bool"
  assumes lock_abs: "inv s \<Longrightarrow> wf_info i \<Longrightarrow> \<not> conflict i s \<Longrightarrow>
      fst (lock_op i s) = 0 \<and> inv (snd (lock_op i s)) \<and>
      absmap (snd (lock_op i s)) = spec_lock (absmap s) i"
    and unlock_abs: "inv s \<Longrightarrow> wf_info i \<Longrightarrow>
      fst (unlock_op i s) = 0 \<and> inv (snd (unlock_op i s)) \<and>
      absmap (snd (unlock_op i s)) = spec_unlock (absmap s) i"
    and conflict_abs: "inv s \<Longrightarrow> wf_info i \<Longrightarrow> conflict i s = spec_conflict (absmap s) i"
begin

text \<open>An unlock undoes a lock on bytes the owner did not hold before.\<close>

lemma unlock_lock:
  assumes "inv s" "wf_info i" "\<not> conflict i s" "\<forall>b \<in> pi_bytes i. absmap s (pi_who i) b = None"
  shows "absmap (snd (unlock_op i (snd (lock_op i s)))) = absmap s"
proof -
  have "absmap (snd (unlock_op i (snd (lock_op i s)))) = spec_unlock (spec_lock (absmap s) i) i"
    using assms lock_abs unlock_abs by metis
  also have "\<dots> = absmap s"
    using assms(4) by (auto simp: spec_unlock_def spec_lock_def fun_eq_iff)
  finally show ?thesis .
qed

text \<open>An owner's own locks never stand in its way.\<close>

lemma relock_granted:
  assumes "inv s" "wf_info i" "\<not> conflict i s"
  shows "\<not> conflict i (snd (lock_op i s))"
  using assms conflict_abs lock_abs by (auto simp: spec_conflict_def spec_lock_def)

text \<open>Releasing a range never creates a conflict.\<close>

lemma unlock_no_new_conflict:
  assumes "inv s" "wf_info i" "wf_info j" "\<not> conflict j s"
  shows "\<not> conflict j (snd (unlock_op i s))"
  using assms conflict_abs unlock_abs
  by (auto simp: spec_conflict_def spec_unlock_def split: if_splits)

end

lemma update_post_held:
  assumes "update_post Q i L res" "wf_locks L" "own_disjoint L"
  shows "held (res_locks res) h b = Some ex \<longleftrightarrow>
           (if h = pi_who i \<and> b \<in> pi_bytes i then Q ex else held L h b = Some ex)"
  using assms by (cases res) (simp add: update_post_def held_Some_iff del: split_paired_All)

lemma lock_internal_abs:
  assumes "locks_inv L" "wf_info i" "mem_ok m" "\<not> fst (is_conflict L i False)"
  shows "fst (lock_internal i m L) = 0" "locks_inv (res_locks (lock_internal i m L))"
    "held (res_locks (lock_internal i m L)) = spec_lock (held L) i"
    "mem_ok (snd (snd (lock_internal i m L)))"
proof -
  have L: "wf_locks L" "own_disjoint L" "locks_safe L" using assms(1) by (simp_all add: locks_inv_def)
  note post = lock_internal_post [OF assms(2,3) L(1,2)]
  from post show "fst (lock_internal i m L) = 0" "mem_ok (snd (snd (lock_internal i m L)))"
    by (simp_all add: update_post_def split_beta)
  have "locks_safe (res_locks (lock_internal i m L))"
    using lock_internal_derived [OF assms(2) L(1)] L(1,3) assms(2,4) by (rule derived_safe)
  with post show "locks_inv (res_locks (lock_internal i m L))"
    by (simp add: update_post_def split_beta locks_inv_def)
  show "held (res_locks (lock_internal i m L)) = spec_lock (held L) i"
  proof (intro ext)
    fix h b
    show "held (res_locks (lock_internal i m L)) h b = spec_lock (held L) i h b"
      by (rule option_eqI) (auto simp: update_post_held [OF post L(1,2)] spec_lock_def)
  qed
qed

lemma unlock_internal_abs:
  assumes "locks_inv L" "wf_info i" "mem_ok m"
  shows "fst (unlock_internal i 0 m L) = 0" "locks_inv (res_locks (unlock_internal i 0 m L))"
    "held (res_locks (unlock_internal i 0 m L)) = spec_unlock (held L) i"
    "mem_ok (snd (snd (unlock_internal i 0 m L)))"
proof -
  have L: "wf_locks L" "own_disjoint L" "locks_safe L" using assms(1) by (simp_all add: locks_inv_def)
  note post = unlock_internal_post [OF assms(2,3) L(1,2)]
  from post show "fst (unlock_internal i 0 m L) = 0" "mem_ok (snd (snd (unlock_internal i 0 m L)))"
    by (simp_all add: update_post_def split_beta)
  have "locks_safe (res_locks (unlock_internal i 0 m L))"
    using unlock_internal_derived [OF assms(2) L(1)] L(1,3) by (rule derived_safe_shrink)
  with post show "locks_inv (res_locks (unlock_internal i 0 m L))"
    by (simp add: update_post_def split_beta locks_inv_def)
  show "held (res_locks (unlock_internal i 0 m L)) = spec_unlock (held L) i"
  proof (intro ext)
    fix h b
    show "held (res_locks (unlock_internal i 0 m L)) h b = spec_unlock (held L) i h b"
      by (rule option_eqI) (auto simp: update_post_held [OF post L(1,2)] spec_unlock_def)
  qed
qed

interpretation plk: lock_store
  "\<lambda>i L. (fst (lock_internal i [] L), res_locks (lock_internal i [] L))"
  "\<lambda>i L. (fst (unlock_internal i 0 [] L), res_locks (unlock_internal i 0 [] L))"
  "\<lambda>i L. fst (is_conflict L i False)" held locks_inv
proof (unfold_locales, goal_cases)
  case (1 L i) then show ?case using lock_internal_abs [of L i "[]"] by simp
next
  case (2 L i) then show ?case using unlock_internal_abs [of L i "[]"] by simp
next
  case (3 L i) then show ?case by (simp add: is_conflict_spec locks_inv_def)
qed

end
