(* ===== verification/Plock_State.thy ===== *)
theory Plock_State imports Plock_Refine begin

text \<open>
  The state of the POSIX lock daemon and the operations on one resource
  (\<^verbatim>\<open>group/dlm_controld/plock.c\<close>): resources with their lock, waiter and pending lists, the plock
  part of a lockspace, the effects a handler has on the outside (results written to the kernel
  device, messages sent to the group), and lock, unlock and get with the waiter queue.
\<close>

section \<open>Data\<close>

record timeval =
  tv_sec :: int
  tv_usec :: int

record lock_waiter =
  w_flags :: u32
  w_info :: dlm_plock_info

definition R_GOT_UNOWN :: u32 where "R_GOT_UNOWN = 0x00000001"
definition R_SEND_UNOWN :: u32 where "R_SEND_UNOWN = 0x00000002"
definition R_SEND_OWN :: u32 where "R_SEND_OWN = 0x00000004"
definition R_PURGE_UNOWN :: u32 where "R_PURGE_UNOWN = 0x00000008"
definition R_SEND_DROP :: u32 where "R_SEND_DROP = 0x00000010"
definition P_SYNCING :: u32 where "P_SYNCING = 0x00000001"

text \<open>\<open>r_owner\<close> is a C int: 0 for unowned, -1 for unknown, else a node id.\<close>

record resource =
  r_number :: u64
  r_owner :: u32
  r_flags :: u32
  r_last_access :: timeval
  r_locks :: "posix_lock list"
  r_waiters :: "lock_waiter list"
  r_pending :: "lock_waiter list"

datatype msg_type =
    DLM_MSG_PROTOCOL | DLM_MSG_START | DLM_MSG_PLOCK | DLM_MSG_PLOCK_OWN | DLM_MSG_PLOCK_DROP
  | DLM_MSG_PLOCK_SYNC_LOCK | DLM_MSG_PLOCK_SYNC_WAITER | DLM_MSG_PLOCKS_STORED
  | DLM_MSG_DEADLK_CYCLE_START | DLM_MSG_DEADLK_CYCLE_END | DLM_MSG_DEADLK_CHECKPOINT_READY
  | DLM_MSG_DEADLK_CANCEL_LOCK

text \<open>
  A plock message: the header fields the handlers read (in host order, as \<^verbatim>\<open>dlm_header_in\<close> leaves
  them) and the request behind it, in wire order.
\<close>

record plock_msg =
  hd_type :: msg_type
  hd_nodeid :: u32
  hd_info :: dlm_plock_info

record save_msg =
  sm_nodeid :: u32
  sm_type :: msg_type
  sm_buf :: plock_msg

text \<open>The plock fields of \<^verbatim>\<open>struct lockspace\<close>.\<close>

record plock_ls =
  ls_name :: string
  ls_global_id :: u32
  ls_save_plocks :: bool
  ls_disable_plock :: bool
  ls_associated_mg_id :: u32
  ls_saved_messages :: "save_msg list"
  ls_plock_resources :: "resource list"
  ls_last_checkpoint_time :: int
  ls_last_plock_time :: int
  ls_drop_resources_last :: timeval
  ls_checkpoint_r_num_first :: u64
  ls_checkpoint_r_num_last :: u64
  ls_checkpoint_r_count :: u32
  ls_checkpoint_p_count :: u32
  ls_plock_ckpt_handle :: u64

text \<open>Configuration and identity of the daemon; fixed while a handler runs.\<close>

record plock_cfg =
  our_nodeid :: u32
  big_endian :: bool
  cfgd_enable_plock :: bool
  cfgd_plock_ownership :: bool
  cfgd_plock_rate_limit :: u32
  cfgd_drop_resources_time :: u64
  cfgd_drop_resources_count :: int
  cfgd_drop_resources_age :: u64
  need_fsid_translation :: bool

text \<open>
  The world around a handler: allocation outcomes, the clock, the results written to the plock
  device and the messages handed to the group, both in order, and the file-level counters.
\<close>

record plock_io =
  io_mem :: mem
  io_now :: timeval
  io_written :: "dlm_plock_info list"
  io_sent :: "plock_msg list"
  io_read_count :: u32
  io_recv_count :: u32
  io_rate_delays :: u32
  io_read_time :: timeval
  io_recv_time :: timeval
  io_rate_last :: timeval
  io_poll_drop :: bool
  io_poll_ignore :: bool

definition got_unown :: "resource \<Rightarrow> bool" where
  "got_unown r = (r_flags r AND R_GOT_UNOWN \<noteq> 0)"

section \<open>Byte order of requests\<close>

definition info_bswap_out :: "bool \<Rightarrow> dlm_plock_info \<Rightarrow> dlm_plock_info" where
  "info_bswap_out be i = i\<lparr>
     pi_version0 := cpu_to_le32 be (pi_version0 i),
     pi_version1 := cpu_to_le32 be (pi_version1 i),
     pi_version2 := cpu_to_le32 be (pi_version2 i),
     pi_pid := cpu_to_le32 be (pi_pid i),
     pi_nodeid := cpu_to_le32 be (pi_nodeid i),
     pi_rv := cpu_to_le32 be (pi_rv i),
     pi_fsid := cpu_to_le32 be (pi_fsid i),
     pi_number := cpu_to_le64 be (pi_number i),
     pi_start := cpu_to_le64 be (pi_start i),
     pi_end := cpu_to_le64 be (pi_end i),
     pi_owner := cpu_to_le64 be (pi_owner i)\<rparr>"

definition info_bswap_in :: "bool \<Rightarrow> dlm_plock_info \<Rightarrow> dlm_plock_info" where
  "info_bswap_in be i = i\<lparr>
     pi_version0 := le32_to_cpu be (pi_version0 i),
     pi_version1 := le32_to_cpu be (pi_version1 i),
     pi_version2 := le32_to_cpu be (pi_version2 i),
     pi_pid := le32_to_cpu be (pi_pid i),
     pi_nodeid := le32_to_cpu be (pi_nodeid i),
     pi_rv := le32_to_cpu be (pi_rv i),
     pi_fsid := le32_to_cpu be (pi_fsid i),
     pi_number := le64_to_cpu be (pi_number i),
     pi_start := le64_to_cpu be (pi_start i),
     pi_end := le64_to_cpu be (pi_end i),
     pi_owner := le64_to_cpu be (pi_owner i)\<rparr>"

lemma info_bswap_roundtrip [simp]: "info_bswap_in be (info_bswap_out be i) = i"
  by (simp add: info_bswap_in_def info_bswap_out_def)

section \<open>Finding and releasing resources\<close>

text \<open>
  A \<^verbatim>\<open>struct resource *\<close> always comes from a search by number or from walking the list, so following
  it is a first-match access by number.
\<close>

definition search_resource :: "plock_ls \<Rightarrow> u64 \<Rightarrow> resource option" where
  "search_resource ls number = find (\<lambda>r. r_number r = number) (ls_plock_resources ls)"

definition store_resource :: "plock_ls \<Rightarrow> resource \<Rightarrow> plock_ls" where
  "store_resource ls r = ls\<lparr>ls_plock_resources :=
     update_first (\<lambda>x. r_number x = r_number r) (\<lambda>_. r) (ls_plock_resources ls)\<rparr>"

definition remove_resource :: "plock_ls \<Rightarrow> resource \<Rightarrow> plock_ls" where
  "remove_resource ls r = ls\<lparr>ls_plock_resources :=
     delete_first (\<lambda>x. r_number x = r_number r) (ls_plock_resources ls)\<rparr>"

definition new_resource :: "plock_cfg \<Rightarrow> u64 \<Rightarrow> timeval \<Rightarrow> resource" where
  "new_resource c number now =
     \<lparr>r_number = number, r_owner = (if cfgd_plock_ownership c then -1 else 0), r_flags = 0,
      r_last_access = now, r_locks = [], r_waiters = [], r_pending = []\<rparr>"

definition find_resource ::
  "plock_cfg \<Rightarrow> plock_ls \<Rightarrow> u64 \<Rightarrow> bool \<Rightarrow> plock_io \<Rightarrow> int \<times> resource option \<times> plock_ls \<times> plock_io"
where
  "find_resource c ls number create io =
     (case search_resource ls number of
        Some r \<Rightarrow>
          (let r' = r\<lparr>r_last_access := io_now io\<rparr> in (0, Some r', store_resource ls r', io))
      | None \<Rightarrow>
          if \<not> create then (- ENOENT, None, ls, io)
          else (let (ok, m) = malloc (io_mem io); io' = io\<lparr>io_mem := m\<rparr> in
                if \<not> ok then (- ENOMEM, None, ls, io')
                else (let r = new_resource c number (io_now io) in
                      (0, Some r,
                       ls\<lparr>ls_plock_resources := ls_plock_resources ls @ [r]\<rparr>, io'))))"

text \<open>\<^verbatim>\<open>put_resource\<close> on a resource whose current contents are \<open>r\<close>.\<close>

definition put_resource :: "plock_cfg \<Rightarrow> plock_ls \<Rightarrow> resource \<Rightarrow> plock_ls" where
  "put_resource c ls r =
     (if cfgd_plock_ownership c then ls
      else if r_locks r = [] \<and> r_waiters r = [] then remove_resource ls r
      else ls)"

section \<open>Lock, unlock, get\<close>

definition add_waiter :: "resource \<Rightarrow> dlm_plock_info \<Rightarrow> mem \<Rightarrow> int \<times> resource \<times> mem" where
  "add_waiter r i m =
     (let (ok, m') = malloc m in
      if \<not> ok then (- ENOMEM, r, m')
      else (0, r\<lparr>r_waiters := r_waiters r @ [\<lparr>w_flags = junk m, w_info = i\<rparr>]\<rparr>, m'))"

definition write_result :: "plock_cfg \<Rightarrow> plock_ls \<Rightarrow> dlm_plock_info \<Rightarrow> int \<Rightarrow> plock_io \<Rightarrow> plock_io" where
  "write_result c ls i rv io =
     (let i1 = (if need_fsid_translation c then i\<lparr>pi_fsid := ls_associated_mg_id ls\<rparr> else i);
          i2 = i1\<lparr>pi_rv := word_of_int rv\<rparr>
      in io\<lparr>io_written := io_written io @ [i2]\<rparr>)"

text \<open>
  \<^verbatim>\<open>do_waiters\<close> walks the waiters once; the first list argument of the loop are the waiters that
  stayed so far.
\<close>

definition lock_resource :: "resource \<Rightarrow> dlm_plock_info \<Rightarrow> mem \<Rightarrow> int \<times> resource \<times> mem" where
  "lock_resource r i m =
     (case lock_internal i m (r_locks r) of (rv, locks, m') \<Rightarrow> (rv, r\<lparr>r_locks := locks\<rparr>, m'))"

definition unlock_resource :: "resource \<Rightarrow> dlm_plock_info \<Rightarrow> mem \<Rightarrow> int \<times> resource \<times> mem" where
  "unlock_resource r i m =
     (case unlock_internal i 0 m (r_locks r) of (rv, locks, m') \<Rightarrow> (rv, r\<lparr>r_locks := locks\<rparr>, m'))"

fun do_waiters_loop ::
  "plock_cfg \<Rightarrow> plock_ls \<Rightarrow> resource \<Rightarrow> lock_waiter list \<Rightarrow> lock_waiter list \<Rightarrow> plock_io \<Rightarrow>
     resource \<times> plock_io"
where
  "do_waiters_loop c ls r kept [] io = (r\<lparr>r_waiters := kept\<rparr>, io)"
| "do_waiters_loop c ls r kept (w # ws) io =
     (if fst (is_conflict (r_locks r) (w_info w) False)
      then do_waiters_loop c ls r (kept @ [w]) ws io
      else
        (case lock_resource r (w_info w) (io_mem io) of (rv, r', m) \<Rightarrow>
           let io1 = io\<lparr>io_mem := m\<rparr>;
               io2 = (if pi_nodeid (w_info w) = our_nodeid c
                      then write_result c ls (w_info w) rv io1 else io1)
           in do_waiters_loop c ls r' kept ws io2))"

definition do_waiters :: "plock_cfg \<Rightarrow> plock_ls \<Rightarrow> resource \<Rightarrow> plock_io \<Rightarrow> resource \<times> plock_io" where
  "do_waiters c ls r io = do_waiters_loop c ls r [] (r_waiters r) io"

text \<open>The first half of \<^verbatim>\<open>do_lock\<close>, up to the label \<^verbatim>\<open>out\<close>.\<close>

definition lock_or_wait :: "resource \<Rightarrow> dlm_plock_info \<Rightarrow> mem \<Rightarrow> int \<times> resource \<times> mem" where
  "lock_or_wait r i m =
     (if fst (is_conflict (r_locks r) i False) then
        (if pi_wait i = 0 then (- EAGAIN, r, m)
         else (case add_waiter r i m of (rv, r', m') \<Rightarrow>
                 if rv \<noteq> 0 then (rv, r', m') else (- EINPROGRESS, r', m')))
      else lock_resource r i m)"

definition do_lock ::
  "plock_cfg \<Rightarrow> plock_ls \<Rightarrow> dlm_plock_info \<Rightarrow> resource \<Rightarrow> plock_io \<Rightarrow> plock_ls \<times> plock_io"
where
  "do_lock c ls i r io =
     (let (rv, r1, m) = lock_or_wait r i (io_mem io);
          io1 = io\<lparr>io_mem := m\<rparr>;
          io2 = (if pi_nodeid i = our_nodeid c \<and> rv \<noteq> - EINPROGRESS
                 then write_result c ls i rv io1 else io1);
          (r2, io3) = do_waiters c ls r1 io2
      in (put_resource c (store_resource ls r2) r2, io3))"

definition do_unlock ::
  "plock_cfg \<Rightarrow> plock_ls \<Rightarrow> dlm_plock_info \<Rightarrow> resource \<Rightarrow> plock_io \<Rightarrow> plock_ls \<times> plock_io"
where
  "do_unlock c ls i r io =
     (let (rv, r1, m) = unlock_resource r i (io_mem io);
          io1 = io\<lparr>io_mem := m\<rparr>;
          io2 = (if pi_nodeid i = our_nodeid c then write_result c ls i rv io1 else io1);
          (r2, io3) = do_waiters c ls r1 io2
      in (put_resource c (store_resource ls r2) r2, io3))"

definition do_get ::
  "plock_cfg \<Rightarrow> plock_ls \<Rightarrow> dlm_plock_info \<Rightarrow> resource \<Rightarrow> plock_io \<Rightarrow> plock_ls \<times> plock_io"
where
  "do_get c ls i r io =
     (case is_conflict (r_locks r) i True of (cf, i') \<Rightarrow>
        (put_resource c ls r, write_result c ls i' (if cf then 1 else 0) io))"

text \<open>The function the source calls \<^verbatim>\<open>__receive_plock\<close>.\<close>

definition receive_plock_op ::
  "plock_cfg \<Rightarrow> plock_ls \<Rightarrow> dlm_plock_info \<Rightarrow> u32 \<Rightarrow> resource \<Rightarrow> plock_io \<Rightarrow> plock_ls \<times> plock_io"
where
  "receive_plock_op c ls i from r io =
     (let touched = ls\<lparr>ls_last_plock_time := tv_sec (io_now io)\<rparr> in
      case pi_optype i of
        DLM_PLOCK_OP_LOCK \<Rightarrow> do_lock c touched i r io
      | DLM_PLOCK_OP_UNLOCK \<Rightarrow> do_unlock c touched i r io
      | DLM_PLOCK_OP_GET \<Rightarrow> do_get c ls i r io
      | OP_other _ \<Rightarrow>
          (ls, if from = our_nodeid c then write_result c ls i (- EINVAL) io else io))"

end
