(* ===== verification/Plock_Ops.thy ===== *)
theory Plock_Ops imports Plock_State "HOL-Library.Sublist" begin

text \<open>
  Correctness of lock, unlock, get and the waiter queue on one resource and on the resource list of
  a lockspace: the invariants they keep with and without memory, what happens to each waiter, and
  when the queue is drained as far as possible.
\<close>

section \<open>Invariants\<close>

text \<open>
  \<open>res_safe\<close> survives allocation failures; \<open>res_inv\<close> adds that each owner's ranges are disjoint.
\<close>

definition wf_waiters :: "lock_waiter list \<Rightarrow> bool" where
  "wf_waiters ws \<longleftrightarrow> list_all (wf_info \<circ> w_info) ws"

definition res_safe :: "resource \<Rightarrow> bool" where
  "res_safe r \<longleftrightarrow> wf_locks (r_locks r) \<and> locks_safe (r_locks r) \<and>
     wf_waiters (r_waiters r) \<and> wf_waiters (r_pending r)"

definition res_inv :: "resource \<Rightarrow> bool" where
  "res_inv r \<longleftrightarrow> res_safe r \<and> own_disjoint (r_locks r)"

definition ls_all :: "(resource \<Rightarrow> bool) \<Rightarrow> plock_ls \<Rightarrow> bool" where
  "ls_all I ls \<longleftrightarrow> list_all I (ls_plock_resources ls)"

lemma wf_waiters_simps [simp]:
  "wf_waiters []" "wf_waiters (w # ws) \<longleftrightarrow> wf_info (w_info w) \<and> wf_waiters ws"
  "wf_waiters (vs @ ws) \<longleftrightarrow> wf_waiters vs \<and> wf_waiters ws"
  by (auto simp: wf_waiters_def)

lemma wf_waitersD: "wf_waiters ws \<Longrightarrow> w \<in> set ws \<Longrightarrow> wf_info (w_info w)"
  by (auto simp: wf_waiters_def list_all_iff)

lemma wf_waiters_mono: "wf_waiters ws \<Longrightarrow> set vs \<subseteq> set ws \<Longrightarrow> wf_waiters vs"
  by (auto simp: wf_waiters_def list_all_iff)

lemma res_inv_locks: "res_inv r \<Longrightarrow> locks_inv (r_locks r)"
  by (simp add: res_inv_def res_safe_def locks_inv_def)

lemma res_inv_safe: "res_inv r \<Longrightarrow> res_safe r"
  by (simp add: res_inv_def)

text \<open>The flag word of a lock, which only the sync protocol uses, does not matter to any of this.\<close>

definition unflag :: "posix_lock \<Rightarrow> posix_lock" where
  "unflag po = po\<lparr>po_flags := 0\<rparr>"

lemma unflag_simps [simp]:
  "po_start (unflag po) = po_start po" "po_end (unflag po) = po_end po" "po_ex (unflag po) = po_ex po"
  "po_nodeid (unflag po) = po_nodeid po" "po_owner (unflag po) = po_owner po"
  "po_pid (unflag po) = po_pid po"
  by (simp_all add: unflag_def)

lemma wf_locks_unflag: "wf_locks (map unflag L) = wf_locks L"
  by (simp add: wf_locks_def list_all_iff wf_lock_def)

lemma locks_safe_unflag: "locks_safe (map unflag L) = locks_safe L"
  by (simp add: locks_safe_def)

lemma own_disjoint_unflag: "own_disjoint (map unflag L) = own_disjoint L"
  by (simp add: own_disjoint_def sorted_wrt_map)

section \<open>One resource\<close>

lemma lock_resource_frame [frame_simps]:
  assumes "lock_resource r i m = (rv, r', m')"
  shows "r_number r' = r_number r" "r_owner r' = r_owner r" "r_flags r' = r_flags r"
    "r_waiters r' = r_waiters r" "r_pending r' = r_pending r" "r_last_access r' = r_last_access r"
  using assms by (auto simp: lock_resource_def split: prod.splits)

lemma unlock_resource_frame [frame_simps]:
  assumes "unlock_resource r i m = (rv, r', m')"
  shows "r_number r' = r_number r" "r_owner r' = r_owner r" "r_flags r' = r_flags r"
    "r_waiters r' = r_waiters r" "r_pending r' = r_pending r" "r_last_access r' = r_last_access r"
  using assms by (auto simp: unlock_resource_def split: prod.splits)

lemma lock_resource_safe:
  assumes "lock_resource r i m = (rv, r', m')" "res_safe r" "wf_info i"
    and "\<not> fst (is_conflict (r_locks r) i False)"
  shows "res_safe r'"
proof -
  have d: "derived (granted i) (r_locks r) (r_locks r')"
    using lock_internal_derived [of i "r_locks r" m] assms
    by (auto simp: lock_resource_def res_safe_def split: prod.splits)
  then have "locks_safe (r_locks r')" "wf_locks (r_locks r')"
    using assms derived_safe derived_wf unfolding res_safe_def by blast+
  with assms(2) show ?thesis
    by (simp add: res_safe_def lock_resource_frame [OF assms(1)])
qed

lemma lock_resource_inv:
  assumes "lock_resource r i m = (rv, r', m')" "res_inv r" "wf_info i" "mem_ok m"
    and "\<not> fst (is_conflict (r_locks r) i False)"
  shows "res_inv r'" "rv = 0" "mem_ok m'" "held (r_locks r') = spec_lock (held (r_locks r)) i"
proof -
  note abs = lock_internal_abs [OF res_inv_locks [OF assms(2)] assms(3,4,5)]
  have r': "r_locks r' = res_locks (lock_internal i m (r_locks r))"
    "rv = fst (lock_internal i m (r_locks r))" "m' = snd (snd (lock_internal i m (r_locks r)))"
    using assms(1) by (auto simp: lock_resource_def split: prod.splits)
  show "res_inv r'"
    using abs(2) assms(2)
    by (simp add: r'(1) res_inv_def res_safe_def locks_inv_def lock_resource_frame [OF assms(1)])
  show "rv = 0" "mem_ok m'" "held (r_locks r') = spec_lock (held (r_locks r)) i"
    using abs by (simp_all add: r')
qed

lemma unlock_resource_safe:
  assumes "unlock_resource r i m = (rv, r', m')" "res_safe r" "wf_info i"
  shows "res_safe r'"
proof -
  have d: "derived (\<lambda>_. False) (r_locks r) (r_locks r')"
    using unlock_internal_derived [of i "r_locks r" 0 m] assms
    by (auto simp: unlock_resource_def res_safe_def split: prod.splits)
  then have "locks_safe (r_locks r')" "wf_locks (r_locks r')"
    using assms derived_safe_shrink derived_wf unfolding res_safe_def by blast+
  with assms(2) show ?thesis
    by (simp add: res_safe_def unlock_resource_frame [OF assms(1)])
qed

lemma unlock_resource_inv:
  assumes "unlock_resource r i m = (rv, r', m')" "res_inv r" "wf_info i" "mem_ok m"
  shows "res_inv r'" "rv = 0" "mem_ok m'" "held (r_locks r') = spec_unlock (held (r_locks r)) i"
proof -
  note abs = unlock_internal_abs [OF res_inv_locks [OF assms(2)] assms(3,4)]
  have r': "r_locks r' = res_locks (unlock_internal i 0 m (r_locks r))"
    "rv = fst (unlock_internal i 0 m (r_locks r))" "m' = snd (snd (unlock_internal i 0 m (r_locks r)))"
    using assms(1) by (auto simp: unlock_resource_def split: prod.splits)
  show "res_inv r'"
    using abs(2) assms(2)
    by (simp add: r'(1) res_inv_def res_safe_def locks_inv_def unlock_resource_frame [OF assms(1)])
  show "rv = 0" "mem_ok m'" "held (r_locks r') = spec_unlock (held (r_locks r)) i"
    using abs by (simp_all add: r')
qed

lemma write_result_frame [frame_simps, simp]:
  "io_mem (write_result c ls i rv io) = io_mem io" "io_now (write_result c ls i rv io) = io_now io"
  "io_sent (write_result c ls i rv io) = io_sent io"
  by (simp_all add: write_result_def Let_def)

lemma do_waiters_loop_grant:
  assumes "\<not> fst (is_conflict (r_locks r) (w_info w) False)"
    and "lock_resource r (w_info w) (io_mem io) = (rv, r1, m)"
  obtains io2 where
    "do_waiters_loop c ls r kept (w # ws) io = do_waiters_loop c ls r1 kept ws io2"
    "io_mem io2 = m" "io_now io2 = io_now io" "io_sent io2 = io_sent io"
  using assms that by (auto simp: Let_def)

section \<open>Invariants of a resource, as an interface\<close>

text \<open>
  Two invariants run through every handler: \<open>res_safe\<close>, whatever the allocator does, and \<open>res_inv\<close>
  while allocations succeed. What the handlers need of either is this contract; the handlers'
  preservation lemmas are proved once, below and in the theories that add handlers.
\<close>

locale resource_invariant =
  fixes I :: "resource \<Rightarrow> bool" and M :: "mem \<Rightarrow> bool"
  assumes fresh: "I (new_resource c number now)"
    and lock_keeps: "I r \<Longrightarrow> M m \<Longrightarrow> wf_info i \<Longrightarrow> \<not> fst (is_conflict (r_locks r) i False) \<Longrightarrow>
      I (fst (snd (lock_resource r i m))) \<and> M (snd (snd (lock_resource r i m)))"
    and unlock_keeps: "I r \<Longrightarrow> M m \<Longrightarrow> wf_info i \<Longrightarrow>
      I (fst (snd (unlock_resource r i m))) \<and> M (snd (snd (unlock_resource r i m)))"
    and malloc_keeps: "M m \<Longrightarrow> M (snd (malloc m))"
    and waiters_wf: "I r \<Longrightarrow> wf_waiters (r_waiters r)"
    and pending_wf: "I r \<Longrightarrow> wf_waiters (r_pending r)"
    and set_waiters: "I r \<Longrightarrow> wf_waiters ws \<Longrightarrow> I (r\<lparr>r_waiters := ws\<rparr>)"
    and set_pending: "I r \<Longrightarrow> wf_waiters ws \<Longrightarrow> I (r\<lparr>r_pending := ws\<rparr>)"
    and set_owner: "I r \<Longrightarrow> I (r\<lparr>r_owner := ow\<rparr>)"
    and set_flags: "I r \<Longrightarrow> I (r\<lparr>r_flags := fl\<rparr>)"
    and set_access: "I r \<Longrightarrow> I (r\<lparr>r_last_access := t\<rparr>)"
    and filter_locks: "I r \<Longrightarrow> I (r\<lparr>r_locks := filter P (r_locks r)\<rparr>)"
    and relabel: "I r \<Longrightarrow> map unflag L = map unflag (r_locks r) \<Longrightarrow> I (r\<lparr>r_locks := L\<rparr>)"
begin

lemma do_waiters_loop_keeps:
  assumes "do_waiters_loop c ls r kept ws io = (r', io')" "I r" "M (io_mem io)"
    and "wf_waiters ws" "wf_waiters kept"
  shows "I r' \<and> M (io_mem io')"
  using assms
proof (induction ws arbitrary: r kept io)
  case Nil
  then show ?case using set_waiters by auto
next
  case (Cons w ws)
  show ?case
  proof (cases "fst (is_conflict (r_locks r) (w_info w) False)")
    case True
    with Cons show ?thesis by auto
  next
    case False
    obtain rv r1 m where lock: "lock_resource r (w_info w) (io_mem io) = (rv, r1, m)"
      by (metis prod_cases3)
    obtain io2 where step: "do_waiters_loop c ls r kept (w # ws) io = do_waiters_loop c ls r1 kept ws io2"
      "io_mem io2 = m" using do_waiters_loop_grant [OF False lock] .
    have "I r1" "M m" using lock_keeps [OF Cons.prems(2,3) _ False] Cons.prems(4) lock by auto
    with Cons.IH [of r1 kept io2] Cons.prems step show ?thesis by simp
  qed
qed

lemma do_waiters_keeps:
  assumes "do_waiters c ls r io = (r', io')" "I r" "M (io_mem io)"
  shows "I r' \<and> M (io_mem io')"
  using assms waiters_wf unfolding do_waiters_def by (intro do_waiters_loop_keeps) auto

lemma store_keeps: "ls_all I ls \<Longrightarrow> I r \<Longrightarrow> ls_all I (store_resource ls r)"
  unfolding ls_all_def store_resource_def list_all_iff using set_update_first by fastforce

lemma remove_keeps: "ls_all I ls \<Longrightarrow> ls_all I (remove_resource ls r)"
  unfolding ls_all_def remove_resource_def list_all_iff using set_delete_first by fastforce

lemma put_keeps: "ls_all I ls \<Longrightarrow> ls_all I (put_resource c ls r)"
  by (simp add: put_resource_def remove_keeps)

lemma search_keeps: "search_resource ls number = Some r \<Longrightarrow> ls_all I ls \<Longrightarrow> I r"
  by (auto simp: search_resource_def ls_all_def list_all_iff find_Some_iff)

lemma find_resource_keeps:
  assumes "find_resource c ls number create io = (rv, ro, ls', io')" "ls_all I ls" "M (io_mem io)"
  shows "ls_all I ls' \<and> M (io_mem io') \<and> (\<forall>r. ro = Some r \<longrightarrow> I r)"
proof (cases "search_resource ls number")
  case None
  with assms fresh malloc_keeps show ?thesis
    by (auto simp: find_resource_def Let_def split_beta ls_all_def split: if_splits)
next
  case (Some r)
  with assms(2) have "I (r\<lparr>r_last_access := io_now io\<rparr>)" by (simp add: search_keeps set_access)
  with Some assms store_keeps show ?thesis by (auto simp: find_resource_def Let_def)
qed

lemma add_waiter_keeps:
  assumes "I r" "M m" "wf_info i" "add_waiter r i m = (rv, r', m')"
  shows "I r' \<and> M m'"
  using assms waiters_wf set_waiters malloc_keeps
  by (auto simp: add_waiter_def split_beta split: if_splits)

lemma lock_or_wait_keeps:
  assumes "I r" "M m" "wf_info i" "lock_or_wait r i m = (rv, r', m')"
  shows "I r' \<and> M m'"
proof (cases "fst (is_conflict (r_locks r) i False)")
  case True
  obtain rv1 r1 m1 where aw: "add_waiter r i m = (rv1, r1, m1)" by (metis prod_cases3)
  with add_waiter_keeps [OF assms(1-3)] True assms show ?thesis
    by (auto simp: lock_or_wait_def split: if_splits)
next
  case False
  with lock_keeps [OF assms(1-3)] assms(4) show ?thesis by (simp add: lock_or_wait_def)
qed

lemma do_lock_keeps:
  assumes "ls_all I ls" "I r" "M (io_mem io)" "wf_info i" "do_lock c ls i r io = (ls', io')"
  shows "ls_all I ls' \<and> M (io_mem io')"
proof -
  obtain rv r1 m where 1: "lock_or_wait r i (io_mem io) = (rv, r1, m)" by (metis prod_cases3)
  with lock_or_wait_keeps [OF assms(2-4)] have r1: "I r1" "M m" by auto
  define io2 where "io2 = (if pi_nodeid i = our_nodeid c \<and> rv \<noteq> - EINPROGRESS
                 then write_result c ls i rv (io\<lparr>io_mem := m\<rparr>) else io\<lparr>io_mem := m\<rparr>)"
  obtain r2 io3 where 2: "do_waiters c ls r1 io2 = (r2, io3)" by fastforce
  have "I r2 \<and> M (io_mem io3)" using do_waiters_keeps [OF 2 r1(1)] r1(2) by (simp add: io2_def)
  moreover have "ls' = put_resource c (store_resource ls r2) r2" "io' = io3"
    using assms(5) by (simp_all add: do_lock_def 1 Let_def 2 flip: io2_def)
  ultimately show ?thesis using assms(1) put_keeps store_keeps by simp
qed

lemma do_unlock_keeps:
  assumes "ls_all I ls" "I r" "M (io_mem io)" "wf_info i" "do_unlock c ls i r io = (ls', io')"
  shows "ls_all I ls' \<and> M (io_mem io')"
proof -
  obtain rv r1 m where 1: "unlock_resource r i (io_mem io) = (rv, r1, m)" by (metis prod_cases3)
  then have r1: "I r1" "M m" using unlock_keeps [OF assms(2-4)] by auto
  define io2 where "io2 = (if pi_nodeid i = our_nodeid c
                 then write_result c ls i rv (io\<lparr>io_mem := m\<rparr>) else io\<lparr>io_mem := m\<rparr>)"
  obtain r2 io3 where 2: "do_waiters c ls r1 io2 = (r2, io3)" by fastforce
  have "I r2 \<and> M (io_mem io3)" using do_waiters_keeps [OF 2 r1(1)] r1(2) by (simp add: io2_def)
  moreover have "ls' = put_resource c (store_resource ls r2) r2" "io' = io3"
    using assms(5) by (simp_all add: do_unlock_def 1 Let_def 2 flip: io2_def)
  ultimately show ?thesis using assms(1) put_keeps store_keeps by simp
qed

lemma ls_all_touch [simp]: "ls_all I (ls\<lparr>ls_last_plock_time := t\<rparr>) \<longleftrightarrow> ls_all I ls"
  by (simp add: ls_all_def)

lemma receive_plock_op_keeps:
  assumes "ls_all I ls" "I r" "M (io_mem io)" "wf_info i"
    and "receive_plock_op c ls i from r io = (ls', io')"
  shows "ls_all I ls' \<and> M (io_mem io')"
proof (cases "pi_optype i")
  case DLM_PLOCK_OP_LOCK
  with assms show ?thesis
    by (intro do_lock_keeps [OF _ assms(2-4)]) (simp_all add: receive_plock_op_def Let_def)
next
  case DLM_PLOCK_OP_UNLOCK
  with assms show ?thesis
    by (intro do_unlock_keeps [OF _ assms(2-4)]) (simp_all add: receive_plock_op_def Let_def)
next
  case DLM_PLOCK_OP_GET
  with assms put_keeps show ?thesis by (auto simp: receive_plock_op_def do_get_def split_beta)
next
  case (OP_other b)
  with assms show ?thesis by (auto simp: receive_plock_op_def)
qed

end

lemma derived_filter: "wf_locks L \<Longrightarrow> derived G L (filter P L)"
  by (rule derived_refl) (auto simp: wf_locks_def list_all_iff)

lemma own_disjoint_filter: "own_disjoint L \<Longrightarrow> own_disjoint (filter P L)"
  by (simp add: own_disjoint_def sorted_wrt_filter)

lemma locks_nil [simp]: "locks_safe []" "own_disjoint []"
  by (simp_all add: locks_safe_def)

lemma res_relabel:
  assumes "map unflag L = map unflag (r_locks r)"
  shows "res_safe (r\<lparr>r_locks := L\<rparr>) = res_safe r" "res_inv (r\<lparr>r_locks := L\<rparr>) = res_inv r"
  using wf_locks_unflag [of L] wf_locks_unflag [of "r_locks r"]
    locks_safe_unflag [of L] locks_safe_unflag [of "r_locks r"]
    own_disjoint_unflag [of L] own_disjoint_unflag [of "r_locks r"] assms
  by (auto simp: res_safe_def res_inv_def)

interpretation rsafe: resource_invariant res_safe "\<lambda>_. True"
proof (unfold_locales, goal_cases)
  case (2 r m i) then show ?case by (metis lock_resource_safe prod.collapse)
next
  case (3 r m i) then show ?case by (metis unlock_resource_safe prod.collapse)
next
  case (12 r P) then show ?case
    using derived_safe_shrink [OF derived_filter] derived_wf [OF derived_filter]
    by (auto simp: res_safe_def)
next
  case 13 then show ?case by (simp add: res_relabel)
qed (auto simp: res_safe_def new_resource_def)

interpretation rinv: resource_invariant res_inv mem_ok
proof (unfold_locales, goal_cases)
  case (2 r m i) then show ?case by (metis lock_resource_inv(1,3) prod.collapse)
next
  case (3 r m i) then show ?case by (metis unlock_resource_inv(1,3) prod.collapse)
next
  case (12 r P) then show ?case
    using rsafe.filter_locks by (simp add: res_inv_def own_disjoint_filter)
next
  case 13 then show ?case by (simp add: res_relabel)
qed (auto simp: res_safe_def res_inv_def new_resource_def)

lemma do_waiters_loop_frame:
  assumes "do_waiters_loop c ls r kept ws io = (r', io')"
  shows "r_number r' = r_number r \<and> r_owner r' = r_owner r \<and> r_flags r' = r_flags r \<and>
         r_pending r' = r_pending r \<and> io_now io' = io_now io \<and> io_sent io' = io_sent io"
  using assms
proof (induction ws arbitrary: r kept io)
  case (Cons w ws)
  obtain rv r1 m where lock: "lock_resource r (w_info w) (io_mem io) = (rv, r1, m)"
    by (metis prod_cases3)
  show ?case
  proof (cases "fst (is_conflict (r_locks r) (w_info w) False)")
    case True
    with Cons show ?thesis by simp
  next
    case False
    show ?thesis
      by (rule do_waiters_loop_grant [OF False lock, of c ls kept ws])
         (use Cons lock_resource_frame [OF lock] in simp)
  qed
qed auto

section \<open>The waiter queue\<close>

text \<open>No waiter is invented and the order of those that stay is kept.\<close>

lemma do_waiters_loop_subseq:
  assumes "do_waiters_loop c ls r kept ws io = (r', io')"
  shows "\<exists>zs. r_waiters r' = kept @ zs \<and> subseq zs ws"
  using assms
proof (induction ws arbitrary: r kept io)
  case (Cons w ws)
  show ?case
  proof (cases "fst (is_conflict (r_locks r) (w_info w) False)")
    case True
    with Cons.prems have "do_waiters_loop c ls r (kept @ [w]) ws io = (r', io')" by simp
    from Cons.IH [OF this] obtain zs where "r_waiters r' = (kept @ [w]) @ zs" "subseq zs ws" by blast
    then show ?thesis by (intro exI [of _ "w # zs"]) auto
  next
    case False
    obtain rv r1 m where lock: "lock_resource r (w_info w) (io_mem io) = (rv, r1, m)"
      by (metis prod_cases3)
    obtain io2 where "do_waiters_loop c ls r kept (w # ws) io = do_waiters_loop c ls r1 kept ws io2"
      using do_waiters_loop_grant [OF False lock] .
    with Cons.IH [of r1 kept io2] Cons.prems obtain zs where "r_waiters r' = kept @ zs" "subseq zs ws"
      by auto
    then show ?thesis by (intro exI [of _ zs]) auto
  qed
qed auto

text \<open>
  A grant that does not weaken what its owner already holds (\<open>monotone_req\<close>) keeps every blocked
  request blocked.
\<close>

definition monotone_req :: "lock_map \<Rightarrow> dlm_plock_info \<Rightarrow> bool" where
  "monotone_req A i \<longleftrightarrow> pi_ex i \<noteq> 0 \<or> (\<forall>b \<in> pi_bytes i. A (pi_who i) b \<noteq> Some 1)"

lemma spec_lock_keeps_conflict:
  assumes "spec_conflict A j" "monotone_req A i" "\<And>h b. A h b \<in> {None, Some 0, Some 1}" "pi_ex i \<in> {0, 1}"
  shows "spec_conflict (spec_lock A i) j"
proof -
  from assms(1) obtain h b ex where h: "h \<noteq> pi_who j" "b \<in> pi_bytes j" "A h b = Some ex"
    "pi_ex j \<noteq> 0 \<or> ex \<noteq> 0" unfolding spec_conflict_def by blast
  show ?thesis
  proof (cases "h = pi_who i \<and> b \<in> pi_bytes i")
    case True
    then have "spec_lock A i h b = Some (uint (pi_ex i))" by (simp add: spec_lock_def)
    moreover have "pi_ex j \<noteq> 0 \<or> uint (pi_ex i) \<noteq> 0"
      using assms(2) assms(3) [of h b] h True by (auto simp: monotone_req_def)
    ultimately show ?thesis using h unfolding spec_conflict_def by blast
  next
    case False
    then have "spec_lock A i h b = A h b" by (auto simp: spec_lock_def)
    with h show ?thesis unfolding spec_conflict_def by metis
  qed
qed

lemma monotone_req_other_grant:
  assumes "monotone_req A j" "pi_who i \<noteq> pi_who j"
  shows "monotone_req (spec_lock A i) j"
  using assms by (auto simp: monotone_req_def spec_lock_def)

lemma held_modes:
  assumes "locks_inv L"
  shows "held L h b \<in> {None, Some 0, Some 1}"
proof (cases "held L h b")
  case (Some ex)
  then have "holds L h b ex" using assms by (simp add: locks_inv_def held_Some_iff)
  then show ?thesis
    using Some assms by (auto simp: holds_def locks_inv_def wf_lock_def dest: wf_locksD)
qed simp

lemma conflict_held:
  assumes "locks_inv L" "wf_info i"
  shows "fst (is_conflict L i g) \<longleftrightarrow> spec_conflict (held L) i"
  using assms by (simp add: is_conflict_spec locks_inv_def)

lemma do_waiters_loop_drained:
  assumes "do_waiters_loop c ls r kept ws io = (r', io')" "res_inv r" "mem_ok (io_mem io)"
    and "wf_waiters ws"
    and "distinct (map (pi_who \<circ> w_info) ws)"
    and "\<forall>w \<in> set ws. monotone_req (held (r_locks r)) (w_info w)"
    and "\<forall>w \<in> set kept. spec_conflict (held (r_locks r)) (w_info w)"
  shows "\<forall>w \<in> set (r_waiters r'). spec_conflict (held (r_locks r')) (w_info w)"
  using assms
proof (induction ws arbitrary: r kept io)
  case Nil
  then show ?case by auto
next
  case (Cons w ws)
  note inv = res_inv_locks [OF Cons.prems(2)]
  have w: "wf_info (w_info w)" using Cons.prems(4) by simp
  show ?case
  proof (cases "fst (is_conflict (r_locks r) (w_info w) False)")
    case True
    then have "spec_conflict (held (r_locks r)) (w_info w)" using conflict_held [OF inv w] by simp
    with True Cons.IH [of r "kept @ [w]" io] Cons.prems show ?thesis by auto
  next
    case False
    obtain rv r1 m where lock: "lock_resource r (w_info w) (io_mem io) = (rv, r1, m)"
      by (metis prod_cases3)
    note g = lock_resource_inv [OF lock Cons.prems(2) w Cons.prems(3) False]
    obtain io2 where step: "do_waiters_loop c ls r kept (w # ws) io = do_waiters_loop c ls r1 kept ws io2"
      "io_mem io2 = m" using do_waiters_loop_grant [OF False lock] .
    have mono: "\<forall>x \<in> set ws. monotone_req (held (r_locks r1)) (w_info x)"
      using Cons.prems(5,6) unfolding g(4) by (auto intro!: monotone_req_other_grant)
    have kept: "\<forall>x \<in> set kept. spec_conflict (held (r_locks r1)) (w_info x)"
    proof
      fix x assume "x \<in> set kept"
      then have "spec_conflict (held (r_locks r)) (w_info x)" using Cons.prems(7) by simp
      then show "spec_conflict (held (r_locks r1)) (w_info x)"
        unfolding g(4) using Cons.prems(6) held_modes [OF inv] w
        by (intro spec_lock_keeps_conflict) (auto simp: wf_info_def)
    qed
    show ?thesis
      by (rule Cons.IH [of r1 kept io2]) (use Cons.prems step g mono kept in auto)
  qed
qed

lemma do_waiters_drained:
  assumes "do_waiters c ls r io = (r', io')" "res_inv r" "mem_ok (io_mem io)"
    and "distinct (map (pi_who \<circ> w_info) (r_waiters r))"
    and "\<forall>w \<in> set (r_waiters r). monotone_req (held (r_locks r)) (w_info w)"
  shows "\<forall>w \<in> set (r_waiters r'). fst (is_conflict (r_locks r') (w_info w) False)"
proof -
  have "\<forall>w \<in> set (r_waiters r'). spec_conflict (held (r_locks r')) (w_info w)"
    using assms by (intro do_waiters_loop_drained [of c ls r "[]" "r_waiters r" io r' io'])
      (auto simp: do_waiters_def res_inv_def res_safe_def)
  moreover have "res_inv r'" using rinv.do_waiters_keeps [OF assms(1-3)] by simp
  then have "locks_inv (r_locks r')" "\<And>w. w \<in> set (r_waiters r') \<Longrightarrow> wf_info (w_info w)"
    using res_inv_locks rinv.waiters_wf wf_waitersD by blast+
  ultimately show ?thesis by (simp add: conflict_held)
qed

end
