(* ===== verification/Plock_Proto.thy ===== *)
theory Plock_Proto imports Plock_Ops begin

text \<open>
  The message layer of \<^verbatim>\<open>group/dlm_controld/plock.c\<close>: sending and receiving replicated lock
  operations, the ownership protocol (own, sync and drop messages), saving messages while plock
  state is being transferred, reading requests from the kernel, dropping idle resources and purging
  a failed node. Every handler maps the lockspace and the world to their new values.
\<close>

section \<open>Time\<close>

definition timersub :: "timeval \<Rightarrow> timeval \<Rightarrow> timeval" where
  "timersub a b =
     (let s = tv_sec a - tv_sec b; u = tv_usec a - tv_usec b in
      if u < 0 then \<lparr>tv_sec = s - 1, tv_usec = u + 1000000\<rparr> else \<lparr>tv_sec = s, tv_usec = u\<rparr>)"

text \<open>The sum is converted to unsigned long.\<close>

definition time_diff_ms :: "timeval \<Rightarrow> timeval \<Rightarrow> u64" where
  "time_diff_ms begn fin =
     (let result = timersub fin begn in
      word_of_int (tv_sec result * 1000 + tv_usec result div 1000))"

section \<open>Sending\<close>

definition zero_info :: dlm_plock_info where
  "zero_info = \<lparr>pi_version0 = 0, pi_version1 = 0, pi_version2 = 0, pi_optype = OP_other 0, pi_ex = 0,
     pi_wait = 0, pi_pid = 0, pi_nodeid = 0, pi_rv = 0, pi_fsid = 0, pi_number = 0, pi_start = 0,
     pi_end = 0, pi_owner = 0\<rparr>"

definition send_struct_info ::
  "plock_cfg \<Rightarrow> dlm_plock_info \<Rightarrow> msg_type \<Rightarrow> plock_io \<Rightarrow> int \<times> plock_io" where
  "send_struct_info c i ty io =
     (let (ok, m) = malloc (io_mem io); io1 = io\<lparr>io_mem := m\<rparr> in
      if \<not> ok then (- ENOMEM, io1)
      else (0, io1\<lparr>io_sent := io_sent io1 @ [\<lparr>hd_type = ty, hd_nodeid = our_nodeid c,
                     hd_info = info_bswap_out (big_endian c) i\<rparr>]\<rparr>))"

definition send_plock :: "plock_cfg \<Rightarrow> dlm_plock_info \<Rightarrow> plock_io \<Rightarrow> plock_io" where
  "send_plock c i io = snd (send_struct_info c i DLM_MSG_PLOCK io)"

definition send_own :: "plock_cfg \<Rightarrow> resource \<Rightarrow> u32 \<Rightarrow> plock_io \<Rightarrow> resource \<times> plock_io" where
  "send_own c r owner io =
     (if r_pending r \<noteq> [] then (r, io)
      else
        (let r' = r\<lparr>r_flags := r_flags r OR (if owner = 0 then R_SEND_UNOWN else R_SEND_OWN)\<rparr>;
             info = zero_info\<lparr>pi_number := r_number r, pi_nodeid := owner\<rparr>
         in (r', snd (send_struct_info c info DLM_MSG_PLOCK_OWN io))))"

text \<open>The two loops of \<^verbatim>\<open>send_syncs\<close>; an error leaves the rest of both lists alone.\<close>

definition sync_info :: "u64 \<Rightarrow> posix_lock \<Rightarrow> dlm_plock_info" where
  "sync_info number po = zero_info\<lparr>pi_number := number, pi_start := po_start po, pi_end := po_end po,
     pi_nodeid := po_nodeid po, pi_owner := po_owner po, pi_pid := po_pid po,
     pi_ex := word_of_int (po_ex po)\<rparr>"

fun sync_locks :: "plock_cfg \<Rightarrow> u64 \<Rightarrow> posix_lock list \<Rightarrow> plock_io \<Rightarrow> int \<times> posix_lock list \<times> plock_io" where
  "sync_locks c number [] io = (0, [], io)"
| "sync_locks c number (po # rest) io =
     (case send_struct_info c (sync_info number po) DLM_MSG_PLOCK_SYNC_LOCK io of (rv, io1) \<Rightarrow>
        if rv \<noteq> 0 then (rv, po # rest, io1)
        else (case sync_locks c number rest io1 of (rv', rest', io2) \<Rightarrow>
                (rv', po\<lparr>po_flags := po_flags po OR P_SYNCING\<rparr> # rest', io2)))"

fun sync_waiters :: "plock_cfg \<Rightarrow> lock_waiter list \<Rightarrow> plock_io \<Rightarrow> int \<times> lock_waiter list \<times> plock_io" where
  "sync_waiters c [] io = (0, [], io)"
| "sync_waiters c (w # rest) io =
     (case send_struct_info c (w_info w) DLM_MSG_PLOCK_SYNC_WAITER io of (rv, io1) \<Rightarrow>
        if rv \<noteq> 0 then (rv, w # rest, io1)
        else (case sync_waiters c rest io1 of (rv', rest', io2) \<Rightarrow>
                (rv', w\<lparr>w_flags := w_flags w OR P_SYNCING\<rparr> # rest', io2)))"

definition send_syncs :: "plock_cfg \<Rightarrow> resource \<Rightarrow> plock_io \<Rightarrow> resource \<times> plock_io" where
  "send_syncs c r io =
     (case sync_locks c (r_number r) (r_locks r) io of (rv, locks, io1) \<Rightarrow>
        let r1 = r\<lparr>r_locks := locks\<rparr> in
        if rv \<noteq> 0 then (r1, io1)
        else (case sync_waiters c (r_waiters r1) io1 of (_, ws, io2) \<Rightarrow> (r1\<lparr>r_waiters := ws\<rparr>, io2)))"

definition send_drop :: "plock_cfg \<Rightarrow> resource \<Rightarrow> plock_io \<Rightarrow> resource \<times> plock_io" where
  "send_drop c r io =
     (r\<lparr>r_flags := r_flags r OR R_SEND_DROP\<rparr>,
      snd (send_struct_info c (zero_info\<lparr>pi_number := r_number r\<rparr>) DLM_MSG_PLOCK_DROP io))"

section \<open>Pending operations\<close>

definition save_pending_plock :: "resource \<Rightarrow> dlm_plock_info \<Rightarrow> plock_io \<Rightarrow> resource \<times> plock_io" where
  "save_pending_plock r i io =
     (let m = io_mem io; (ok, m') = malloc m; io1 = io\<lparr>io_mem := m'\<rparr> in
      if \<not> ok then (r, io1)
      else (r\<lparr>r_pending := r_pending r @ [\<lparr>w_flags = junk m, w_info = i\<rparr>]\<rparr>, io1))"

text \<open>
  The pending operations are applied in order to the resource in the list, each leaving the pending
  list after it has been applied.
\<close>

fun add_pending_plocks ::
  "plock_cfg \<Rightarrow> u64 \<Rightarrow> lock_waiter list \<Rightarrow> plock_ls \<Rightarrow> plock_io \<Rightarrow> plock_ls \<times> plock_io" where
  "add_pending_plocks c number [] ls io = (ls, io)"
| "add_pending_plocks c number (w # ws) ls io =
     (case search_resource ls number of
        None \<Rightarrow> (ls, io)
      | Some r \<Rightarrow>
          (case receive_plock_op c ls (w_info w) (our_nodeid c) r io of (ls1, io1) \<Rightarrow>
             (case search_resource ls1 number of
                None \<Rightarrow> (ls1, io1)
              | Some r1 \<Rightarrow>
                  add_pending_plocks c number ws
                    (store_resource ls1 (r1\<lparr>r_pending := ws\<rparr>)) io1)))"

fun send_pending_loop :: "plock_cfg \<Rightarrow> lock_waiter list \<Rightarrow> plock_io \<Rightarrow> plock_io" where
  "send_pending_loop c [] io = io"
| "send_pending_loop c (w # ws) io = send_pending_loop c ws (send_plock c (w_info w) io)"

definition send_pending_plocks :: "plock_cfg \<Rightarrow> resource \<Rightarrow> plock_io \<Rightarrow> resource \<times> plock_io" where
  "send_pending_plocks c r io = (r\<lparr>r_pending := []\<rparr>, send_pending_loop c (r_pending r) io)"

section \<open>Receiving\<close>

definition save_message ::
  "plock_ls \<Rightarrow> plock_msg \<Rightarrow> u32 \<Rightarrow> msg_type \<Rightarrow> plock_io \<Rightarrow> plock_ls \<times> plock_io" where
  "save_message ls msg from ty io =
     (let (ok, m) = malloc (io_mem io); io1 = io\<lparr>io_mem := m\<rparr> in
      if \<not> ok then (ls, io1)
      else (ls\<lparr>ls_saved_messages :=
                 ls_saved_messages ls @ [\<lparr>sm_nodeid = from, sm_type = ty, sm_buf = msg\<rparr>]\<rparr>, io1))"

definition count_recv :: "plock_io \<Rightarrow> plock_io" where
  "count_recv io =
     (let n = io_recv_count io + 1; io1 = io\<lparr>io_recv_count := n\<rparr> in
      if n mod 1000 = 0 then io1\<lparr>io_recv_time := io_now io\<rparr> else io1)"

text \<open>The function the source calls \<^verbatim>\<open>_receive_plock\<close>.\<close>

definition receive_plock_now ::
  "plock_cfg \<Rightarrow> plock_ls \<Rightarrow> plock_msg \<Rightarrow> plock_io \<Rightarrow> plock_ls \<times> plock_io" where
  "receive_plock_now c ls msg io0 =
     (let from = hd_nodeid msg;
          info = info_bswap_in (big_endian c) (hd_info msg);
          io = count_recv io0
      in
      if pi_optype info = DLM_PLOCK_OP_GET \<and> from \<noteq> our_nodeid c then (ls, io)
      else if from \<noteq> hd_nodeid msg \<or> from \<noteq> pi_nodeid info then (ls, io)
      else
        (case find_resource c ls (pi_number info) (\<not> cfgd_plock_ownership c) io of
           (rv, None, ls1, io1) \<Rightarrow>
             if cfgd_plock_ownership c then
               (if from \<noteq> our_nodeid c then (ls1, io1)
                else
                  (case find_resource c ls1 (pi_number info) True io1 of
                     (rv', None, ls2, io2) \<Rightarrow> (ls2, io2)
                   | (rv', Some r, ls2, io2) \<Rightarrow>
                       (case send_own c r (our_nodeid c) io2 of (r1, io3) \<Rightarrow>
                          (case save_pending_plock r1 info io3 of (r2, io4) \<Rightarrow>
                             (store_resource ls2 r2, io4)))))
             else (ls1, io1)
         | (rv, Some r, ls1, io1) \<Rightarrow>
             if r_owner r = 0 then receive_plock_op c ls1 info from r io1
             else if r_owner r = -1 then
               (if from = our_nodeid c
                then (case save_pending_plock r info io1 of (r1, io2) \<Rightarrow> (store_resource ls1 r1, io2))
                else (ls1, io1))
             else if r_owner r \<noteq> our_nodeid c then
               (if from = our_nodeid c
                then (case save_pending_plock r info io1 of (r1, io2) \<Rightarrow> (store_resource ls1 r1, io2))
                else (ls1, io1))
             else
               (if from = our_nodeid c then receive_plock_op c ls1 info from r io1 else (ls1, io1))))"

definition receive_plock ::
  "plock_cfg \<Rightarrow> plock_ls \<Rightarrow> plock_msg \<Rightarrow> plock_io \<Rightarrow> plock_ls \<times> plock_io" where
  "receive_plock c ls msg io =
     (if ls_save_plocks ls then save_message ls msg (hd_nodeid msg) DLM_MSG_PLOCK io
      else receive_plock_now c ls msg io)"

text \<open>
  \<^verbatim>\<open>_receive_own\<close>, once the resource is found. Branches that only log leave everything as it is.
\<close>

definition own_transition ::
  "plock_cfg \<Rightarrow> plock_ls \<Rightarrow> u32 \<Rightarrow> u32 \<Rightarrow> resource \<Rightarrow> plock_io \<Rightarrow> plock_ls \<times> plock_io" where
  "own_transition c ls from nodeid r io =
     (let us = our_nodeid c in
      if from = us then
        (if nodeid = 0 then
           (if r_owner r = us then (ls, io)
            else if r_owner r = 0
              then (store_resource ls (r\<lparr>r_flags := r_flags r OR R_GOT_UNOWN\<rparr>), io)
            else (ls, io))
         else if nodeid = us then
           (if r_owner r = -1 then
              (let r1 = r\<lparr>r_owner := us\<rparr>
               in add_pending_plocks c (r_number r) (r_pending r) (store_resource ls r1) io)
            else if r_owner r = us then (ls, io)
            else if r_owner r = 0 then
              (case send_pending_plocks c r io of (r1, io1) \<Rightarrow> (store_resource ls r1, io1))
            else (ls, io))
         else (ls, io))
      else
        (if nodeid = 0 then
           (if r_owner r = -1 then (ls, io)
            else if r_owner r = us then (ls, io)
            else if r_owner r = 0 then (ls, io)
            else
              (case send_pending_plocks c
                      (r\<lparr>r_owner := 0, r_flags := r_flags r OR R_GOT_UNOWN\<rparr>) io of
                 (r1, io1) \<Rightarrow> (store_resource ls r1, io1)))
         else if nodeid = from then
           (if r_owner r = -1 then (store_resource ls (r\<lparr>r_owner := from\<rparr>), io)
            else if r_owner r = us then
              (case send_syncs c r io of (r1, io1) \<Rightarrow>
                 (case send_own c r1 0 io1 of (r2, io2) \<Rightarrow>
                    (store_resource ls (r2\<lparr>r_owner := 0\<rparr>), io2)))
            else (ls, io))
         else (ls, io)))"

definition receive_own_now ::
  "plock_cfg \<Rightarrow> plock_ls \<Rightarrow> plock_msg \<Rightarrow> plock_io \<Rightarrow> plock_ls \<times> plock_io" where
  "receive_own_now c ls0 msg io =
     (let ls = ls0\<lparr>ls_last_plock_time := tv_sec (io_now io)\<rparr>;
          info = info_bswap_in (big_endian c) (hd_info msg)
      in case find_resource c ls (pi_number info) True io of
           (rv, None, ls1, io1) \<Rightarrow> (ls1, io1)
         | (rv, Some r, ls1, io1) \<Rightarrow> own_transition c ls1 (hd_nodeid msg) (pi_nodeid info) r io1)"

definition receive_own ::
  "plock_cfg \<Rightarrow> plock_ls \<Rightarrow> plock_msg \<Rightarrow> plock_io \<Rightarrow> plock_ls \<times> plock_io" where
  "receive_own c ls msg io =
     (if ls_save_plocks ls then save_message ls msg (hd_nodeid msg) DLM_MSG_PLOCK_OWN io
      else receive_own_now c ls msg io)"

definition syncing_lock :: "dlm_plock_info \<Rightarrow> posix_lock \<Rightarrow> bool" where
  "syncing_lock i po \<longleftrightarrow> po_flags po AND P_SYNCING \<noteq> 0 \<and> pi_start i = po_start po \<and>
     pi_end i = po_end po \<and> pi_nodeid i = po_nodeid po \<and> pi_owner i = po_owner po \<and>
     pi_pid i = po_pid po \<and> uint (pi_ex i) = po_ex po"

definition syncing_waiter :: "dlm_plock_info \<Rightarrow> lock_waiter \<Rightarrow> bool" where
  "syncing_waiter i w \<longleftrightarrow> w_flags w AND P_SYNCING \<noteq> 0 \<and> pi_start i = pi_start (w_info w) \<and>
     pi_end i = pi_end (w_info w) \<and> pi_nodeid i = pi_nodeid (w_info w) \<and>
     pi_owner i = pi_owner (w_info w) \<and> pi_pid i = pi_pid (w_info w) \<and> pi_ex i = pi_ex (w_info w)"

definition clear_syncing_flag :: "resource \<Rightarrow> dlm_plock_info \<Rightarrow> resource" where
  "clear_syncing_flag r i =
     (if \<exists>po \<in> set (r_locks r). syncing_lock i po then
        r\<lparr>r_locks := update_first (syncing_lock i)
                       (\<lambda>po. po\<lparr>po_flags := po_flags po AND NOT P_SYNCING\<rparr>) (r_locks r)\<rparr>
      else
        r\<lparr>r_waiters := update_first (syncing_waiter i)
                         (\<lambda>w. w\<lparr>w_flags := w_flags w AND NOT P_SYNCING\<rparr>) (r_waiters r)\<rparr>)"

definition receive_sync_now ::
  "plock_cfg \<Rightarrow> plock_ls \<Rightarrow> plock_msg \<Rightarrow> plock_io \<Rightarrow> plock_ls \<times> plock_io" where
  "receive_sync_now c ls0 msg io =
     (let ls = ls0\<lparr>ls_last_plock_time := tv_sec (io_now io)\<rparr>;
          info = info_bswap_in (big_endian c) (hd_info msg)
      in case find_resource c ls (pi_number info) False io of
           (rv, None, ls1, io1) \<Rightarrow> (ls1, io1)
         | (rv, Some r, ls1, io1) \<Rightarrow>
             if hd_nodeid msg = our_nodeid c
             then (store_resource ls1 (clear_syncing_flag r info), io1)
             else if hd_type msg = DLM_MSG_PLOCK_SYNC_LOCK then
               (case add_lock (r_locks r) (pi_nodeid info) (pi_owner info) (pi_pid info)
                       (uint (pi_ex info)) (pi_start info) (pi_end info) (io_mem io1) of
                  (_, locks, m) \<Rightarrow>
                    (store_resource ls1 (r\<lparr>r_locks := locks\<rparr>), io1\<lparr>io_mem := m\<rparr>))
             else if hd_type msg = DLM_MSG_PLOCK_SYNC_WAITER then
               (case add_waiter r info (io_mem io1) of (_, r1, m) \<Rightarrow>
                  (store_resource ls1 r1, io1\<lparr>io_mem := m\<rparr>))
             else (ls1, io1))"

definition receive_sync ::
  "plock_cfg \<Rightarrow> plock_ls \<Rightarrow> plock_msg \<Rightarrow> plock_io \<Rightarrow> plock_ls \<times> plock_io" where
  "receive_sync c ls msg io =
     (if ls_save_plocks ls then save_message ls msg (hd_nodeid msg) (hd_type msg) io
      else receive_sync_now c ls msg io)"

definition receive_drop_now ::
  "plock_cfg \<Rightarrow> plock_ls \<Rightarrow> plock_msg \<Rightarrow> plock_io \<Rightarrow> plock_ls \<times> plock_io" where
  "receive_drop_now c ls0 msg io =
     (let ls = ls0\<lparr>ls_last_plock_time := tv_sec (io_now io)\<rparr>;
          info = info_bswap_in (big_endian c) (hd_info msg)
      in case find_resource c ls (pi_number info) False io of
           (rv, None, ls1, io1) \<Rightarrow> (ls1, io1)
         | (rv, Some r, ls1, io1) \<Rightarrow>
             if r_owner r \<noteq> 0 then (ls1, io1)
             else if r_pending r \<noteq> [] then (ls1, io1)
             else if r_locks r = [] \<and> r_waiters r = [] then (remove_resource ls1 r, io1)
             else (ls1, io1))"

definition receive_drop ::
  "plock_cfg \<Rightarrow> plock_ls \<Rightarrow> plock_msg \<Rightarrow> plock_io \<Rightarrow> plock_ls \<times> plock_io" where
  "receive_drop c ls msg io =
     (if ls_save_plocks ls then save_message ls msg (hd_nodeid msg) DLM_MSG_PLOCK_DROP io
      else receive_drop_now c ls msg io)"

section \<open>Saved messages\<close>

fun process_saved_loop ::
  "plock_cfg \<Rightarrow> save_msg list \<Rightarrow> save_msg list \<Rightarrow> plock_ls \<Rightarrow> plock_io \<Rightarrow> plock_ls \<times> plock_io" where
  "process_saved_loop c kept [] ls io = (ls\<lparr>ls_saved_messages := kept\<rparr>, io)"
| "process_saved_loop c kept (sm # sms) ls io =
     (case sm_type sm of
        DLM_MSG_PLOCK \<Rightarrow>
          (case receive_plock_now c ls (sm_buf sm) io of (ls1, io1) \<Rightarrow>
             process_saved_loop c kept sms ls1 io1)
      | DLM_MSG_PLOCK_OWN \<Rightarrow>
          (case receive_own_now c ls (sm_buf sm) io of (ls1, io1) \<Rightarrow>
             process_saved_loop c kept sms ls1 io1)
      | DLM_MSG_PLOCK_DROP \<Rightarrow>
          (case receive_drop_now c ls (sm_buf sm) io of (ls1, io1) \<Rightarrow>
             process_saved_loop c kept sms ls1 io1)
      | DLM_MSG_PLOCK_SYNC_LOCK \<Rightarrow>
          (case receive_sync_now c ls (sm_buf sm) io of (ls1, io1) \<Rightarrow>
             process_saved_loop c kept sms ls1 io1)
      | DLM_MSG_PLOCK_SYNC_WAITER \<Rightarrow>
          (case receive_sync_now c ls (sm_buf sm) io of (ls1, io1) \<Rightarrow>
             process_saved_loop c kept sms ls1 io1)
      | _ \<Rightarrow> process_saved_loop c (kept @ [sm]) sms ls io)"

definition process_saved_plocks :: "plock_cfg \<Rightarrow> plock_ls \<Rightarrow> plock_io \<Rightarrow> plock_ls \<times> plock_io" where
  "process_saved_plocks c ls io = process_saved_loop c [] (ls_saved_messages ls) ls io"

section \<open>Dropping idle resources\<close>

definition drop_one :: "plock_cfg \<Rightarrow> resource \<Rightarrow> plock_io \<Rightarrow> resource \<times> plock_io" where
  "drop_one c r io =
     (if r_owner r = our_nodeid c then
        (case send_own c r 0 io of (r1, io1) \<Rightarrow> (r1\<lparr>r_owner := 0\<rparr>, io1))
      else if r_owner r = 0 \<and> got_unown r then send_drop c r io
      else (r, io))"

text \<open>The loop runs over the list from its end; its argument is the reversed list.\<close>

fun drop_resources_loop ::
  "plock_cfg \<Rightarrow> int \<Rightarrow> resource list \<Rightarrow> plock_io \<Rightarrow> resource list \<times> plock_io" where
  "drop_resources_loop c count [] io = ([], io)"
| "drop_resources_loop c count (r # rs) io =
     (if count \<ge> cfgd_drop_resources_count c then (r # rs, io)
      else if (r_owner r \<noteq> 0 \<and> r_owner r \<noteq> our_nodeid c) \<or>
              time_diff_ms (r_last_access r) (io_now io) < cfgd_drop_resources_age c \<or>
              \<not> (r_locks r = [] \<and> r_waiters r = [])
        then (case drop_resources_loop c count rs io of (rs', io') \<Rightarrow> (r # rs', io'))
      else
        (case drop_one c r io of (r1, io1) \<Rightarrow>
           (case drop_resources_loop c (count + 1) rs io1 of (rs', io') \<Rightarrow> (r1 # rs', io'))))"

definition drop_resources :: "plock_cfg \<Rightarrow> plock_ls \<Rightarrow> plock_io \<Rightarrow> int \<times> plock_ls \<times> plock_io" where
  "drop_resources c ls io =
     (if \<not> cfgd_plock_ownership c then (0, ls, io)
      else if ls_plock_resources ls = [] then (0, ls, io)
      else if time_diff_ms (ls_drop_resources_last ls) (io_now io) < cfgd_drop_resources_time c
        then (1, ls, io)
      else
        (case drop_resources_loop c 0 (rev (ls_plock_resources ls)) io of (rs, io') \<Rightarrow>
           (1, ls\<lparr>ls_drop_resources_last := io_now io, ls_plock_resources := rev rs\<rparr>, io')))"

fun drop_resources_walk :: "plock_cfg \<Rightarrow> plock_ls list \<Rightarrow> plock_io \<Rightarrow> plock_ls list \<times> plock_io" where
  "drop_resources_walk c [] io = ([], io)"
| "drop_resources_walk c (ls # lss) io =
     (case drop_resources c ls io of (rv, ls', io1) \<Rightarrow>
        let io2 = (if rv \<noteq> 0 then io1\<lparr>io_poll_drop := True\<rparr> else io1) in
        (case drop_resources_walk c lss io2 of (lss', io3) \<Rightarrow> (ls' # lss', io3)))"

definition drop_resources_all :: "plock_cfg \<Rightarrow> plock_ls list \<Rightarrow> plock_io \<Rightarrow> plock_ls list \<times> plock_io" where
  "drop_resources_all c lss io = drop_resources_walk c lss (io\<lparr>io_poll_drop := False\<rparr>)"

section \<open>Requests from the kernel\<close>

text \<open>
  \<open>flow_on\<close> is \<^verbatim>\<open>message_flow_control_on\<close> and \<open>flow_now\<close> its value after asking the group
  communication library for the current state.
\<close>

definition limit_plocks :: "plock_cfg \<Rightarrow> bool \<Rightarrow> bool \<Rightarrow> plock_io \<Rightarrow> int \<times> plock_io" where
  "limit_plocks c flow_on flow_now io =
     (if flow_on \<and> flow_now then (1, io)
      else if cfgd_plock_rate_limit c = 0 \<or> io_read_count io = 0 then (0, io)
      else if io_read_count io mod cfgd_plock_rate_limit c = 0 then
        (if time_diff_ms (io_rate_last io) (io_now io) < 1000
         then (2, io\<lparr>io_rate_delays := io_rate_delays io + 1\<rparr>)
         else (0, io\<lparr>io_rate_last := io_now io, io_read_count := io_read_count io + 1\<rparr>))
      else (0, io))"

definition find_ls_id :: "plock_ls list \<Rightarrow> u32 \<Rightarrow> plock_ls option" where
  "find_ls_id lss i = find (\<lambda>ls. ls_global_id ls = i) lss"

text \<open>
  \<open>mountgroup_name\<close> is what \<^verbatim>\<open>get_mountgroup_name\<close> reads from the file system daemon.
\<close>

definition set_associated_id ::
  "(u32 \<Rightarrow> string option) \<Rightarrow> u32 \<Rightarrow> plock_ls list \<Rightarrow> plock_ls list" where
  "set_associated_id mountgroup_name mg_id lss =
     (case mountgroup_name mg_id of
        None \<Rightarrow> lss
      | Some name \<Rightarrow>
          update_first (\<lambda>ls. ls_name ls = name) (\<lambda>ls. ls\<lparr>ls_associated_mg_id := mg_id\<rparr>) lss)"

definition mg_to_ls_id ::
  "(u32 \<Rightarrow> string option) \<Rightarrow> u32 \<Rightarrow> plock_ls list \<Rightarrow> u32 \<times> plock_ls list" where
  "mg_to_ls_id mountgroup_name fsid lss =
     (case find (\<lambda>ls. ls_associated_mg_id ls = fsid) lss of
        Some ls \<Rightarrow> (ls_global_id ls, lss)
      | None \<Rightarrow>
          (let lss' = set_associated_id mountgroup_name fsid lss in
           case find (\<lambda>ls. ls_associated_mg_id ls = fsid) lss' of
             Some ls \<Rightarrow> (ls_global_id ls, lss')
           | None \<Rightarrow> (fsid, lss')))"

definition count_read :: "plock_io \<Rightarrow> plock_io" where
  "count_read io =
     (let n = io_read_count io + 1; io1 = io\<lparr>io_read_count := n\<rparr> in
      if n mod 1000 = 0 then io1\<lparr>io_read_time := io_now io, io_rate_delays := 0\<rparr> else io1)"

definition write_fail :: "dlm_plock_info \<Rightarrow> int \<Rightarrow> plock_io \<Rightarrow> plock_io" where
  "write_fail i rv io = io\<lparr>io_written := io_written io @ [i\<lparr>pi_rv := word_of_int rv\<rparr>]\<rparr>"

text \<open>What \<^verbatim>\<open>process_plocks\<close> does once the lockspace of the request is known and plocks are enabled.\<close>

definition dispatch_plock ::
  "plock_cfg \<Rightarrow> plock_ls \<Rightarrow> dlm_plock_info \<Rightarrow> plock_io \<Rightarrow> plock_ls \<times> plock_io" where
  "dispatch_plock c ls info io =
     (case find_resource c ls (pi_number info) (pi_optype info \<noteq> DLM_PLOCK_OP_UNLOCK) (count_read io) of
        (rv, None, ls1, io1) \<Rightarrow> (ls1, write_fail info rv io1)
      | (rv, Some r, ls1, io1) \<Rightarrow>
          (case (if r_owner r = 0 then (ls1, send_plock c info io1)
                 else if r_owner r = our_nodeid c
                   then receive_plock_op c ls1 info (our_nodeid c) r io1
                 else
                   (case send_own c r (our_nodeid c) io1 of (r1, io2) \<Rightarrow>
                      (case save_pending_plock r1 info io2 of (r2, io3) \<Rightarrow>
                         (store_resource ls1 r2, io3)))) of
             (ls2, io4) \<Rightarrow>
               (ls2, if cfgd_plock_ownership c \<and> ls_plock_resources ls2 \<noteq> []
                     then io4\<lparr>io_poll_drop := True\<rparr> else io4)))"

text \<open>
  \<open>None\<close> stands for the undefined behaviour of following a null pointer: the log statement for an
  unknown lockspace reads \<^verbatim>\<open>ls->name\<close> with \<^verbatim>\<open>ls\<close> null. \<open>inp\<close> is what the read of the device
  returned, if it did not fail.
\<close>

definition process_plocks ::
  "plock_cfg \<Rightarrow> (u32 \<Rightarrow> string option) \<Rightarrow> bool \<Rightarrow> bool \<Rightarrow> dlm_plock_info option \<Rightarrow>
     plock_ls list \<Rightarrow> plock_io \<Rightarrow> (plock_ls list \<times> plock_io) option" where
  "process_plocks c mountgroup_name flow_on flow_now inp lss io =
     (case limit_plocks c flow_on flow_now io of (lim, io1) \<Rightarrow>
        if lim \<noteq> 0 then Some (lss, io1\<lparr>io_poll_ignore := True\<rparr>)
        else
          (case inp of
             None \<Rightarrow> Some (lss, io1)
           | Some i0 \<Rightarrow>
               (let info = i0\<lparr>pi_nodeid := our_nodeid c\<rparr> in
                if \<not> cfgd_enable_plock c then Some (lss, write_fail info (- ENOSYS) io1)
                else
                  (let (fsid, lss1) = (if need_fsid_translation c
                                       then mg_to_ls_id mountgroup_name (pi_fsid info) lss
                                       else (pi_fsid info, lss));
                       info1 = info\<lparr>pi_fsid := fsid\<rparr>
                   in case find_ls_id lss1 fsid of
                        None \<Rightarrow> None
                      | Some ls \<Rightarrow>
                          if ls_disable_plock ls then Some (lss1, write_fail info1 (- ENOSYS) io1)
                          else
                            (case dispatch_plock c ls info1 io1 of (ls', io2) \<Rightarrow>
                               Some (update_first (\<lambda>x. ls_global_id x = fsid) (\<lambda>_. ls') lss1, io2))))))"

section \<open>Purging a node\<close>

definition purge_filter :: "u32 \<Rightarrow> bool \<Rightarrow> resource \<Rightarrow> resource" where
  "purge_filter nodeid unmount r =
     (let r1 = r\<lparr>r_locks := filter (\<lambda>po. \<not> (po_nodeid po = nodeid \<or> unmount)) (r_locks r)\<rparr>
      in r1\<lparr>r_waiters := filter (\<lambda>w. \<not> (pi_nodeid (w_info w) = nodeid \<or> unmount)) (r_waiters r1)\<rparr>)"

definition purge_resource ::
  "plock_cfg \<Rightarrow> plock_ls \<Rightarrow> u32 \<Rightarrow> bool \<Rightarrow> resource \<Rightarrow> plock_io \<Rightarrow> resource \<times> plock_io" where
  "purge_resource c ls nodeid unmount r io =
     (let r2 = purge_filter nodeid unmount r;
          (r3, io1) = (if r_owner r2 = nodeid
                       then send_pending_plocks c
                              (r2\<lparr>r_owner := 0, r_flags := r_flags r2 OR R_GOT_UNOWN OR R_PURGE_UNOWN\<rparr>) io
                       else (r2, io))
      in if r_waiters r3 \<noteq> [] then do_waiters c ls r3 io1 else (r3, io1))"

definition purge_count :: "u32 \<Rightarrow> bool \<Rightarrow> resource \<Rightarrow> nat" where
  "purge_count nodeid unmount r =
     length (filter (\<lambda>po. po_nodeid po = nodeid \<or> unmount) (r_locks r)) +
     length (filter (\<lambda>w. pi_nodeid (w_info w) = nodeid \<or> unmount) (r_waiters r))"

fun purge_loop ::
  "plock_cfg \<Rightarrow> plock_ls \<Rightarrow> u32 \<Rightarrow> bool \<Rightarrow> resource list \<Rightarrow> plock_io \<Rightarrow> resource list \<times> nat \<times> plock_io"
where
  "purge_loop c ls nodeid unmount [] io = ([], 0, io)"
| "purge_loop c ls nodeid unmount (r # rs) io =
     (case purge_resource c ls nodeid unmount r io of (r', io1) \<Rightarrow>
        (case purge_loop c ls nodeid unmount rs io1 of (rs', n, io2) \<Rightarrow>
           (if \<not> cfgd_plock_ownership c \<and> r_locks r' = [] \<and> r_waiters r' = [] then rs' else r' # rs',
            purge_count nodeid unmount r + n, io2)))"

definition purge_plocks :: "plock_cfg \<Rightarrow> plock_ls \<Rightarrow> u32 \<Rightarrow> bool \<Rightarrow> plock_io \<Rightarrow> plock_ls \<times> plock_io" where
  "purge_plocks c ls nodeid unmount io =
     (if \<not> cfgd_enable_plock c \<or> ls_disable_plock ls then (ls, io)
      else
        (case purge_loop c ls nodeid unmount (ls_plock_resources ls) io of (rs, purged, io1) \<Rightarrow>
           (let ls1 = ls\<lparr>ls_plock_resources := rs\<rparr> in
            (if purged \<noteq> 0 then ls1\<lparr>ls_last_plock_time := tv_sec (io_now io)\<rparr> else ls1, io1))))"

end
