(* ===== verification/Plock_Proto_Inv.thy ===== *)
theory Plock_Proto_Inv imports Plock_Proto begin

text \<open>
  The resource contract carried through the message layer: every handler of replicated operations,
  of the ownership protocol, of requests from the kernel and of node failures keeps a resource
  invariant, once for both interpretations of the contract.
\<close>

definition wf_msg :: "plock_cfg \<Rightarrow> plock_msg \<Rightarrow> bool" where
  "wf_msg c msg \<longleftrightarrow> wf_info (info_bswap_in (big_endian c) (hd_info msg))"

lemma wf_info_simps [simp]:
  "wf_info (i\<lparr>pi_nodeid := n\<rparr>) = wf_info i" "wf_info (i\<lparr>pi_fsid := f\<rparr>) = wf_info i"
  "wf_info (i\<lparr>pi_rv := v\<rparr>) = wf_info i"
  by (simp_all add: wf_info_def)

lemma unflag_set_flags [simp]: "unflag (po\<lparr>po_flags := f\<rparr>) = unflag po"
  by (simp add: unflag_def)

lemma sync_locks_unflag:
  "sync_locks c number L io = (rv, L', io') \<Longrightarrow> map unflag L' = map unflag L"
  by (induction L arbitrary: rv L' io io') (auto split: prod.splits if_splits)

lemma sync_waiters_info:
  "sync_waiters c ws io = (rv, ws', io') \<Longrightarrow> map w_info ws' = map w_info ws"
  by (induction ws arbitrary: rv ws' io io') (auto split: prod.splits if_splits)

lemma wf_waiters_info: "map w_info ws' = map w_info ws \<Longrightarrow> wf_waiters ws' = wf_waiters ws"
proof -
  assume "map w_info ws' = map w_info ws"
  then have "list_all wf_info (map w_info ws') = list_all wf_info (map w_info ws)" by simp
  then show ?thesis by (simp add: wf_waiters_def list.pred_map)
qed

context resource_invariant
begin

lemma send_struct_info_keeps:
  "send_struct_info c i ty io = (rv, io') \<Longrightarrow> M (io_mem io) \<Longrightarrow> M (io_mem io')"
  using malloc_keeps by (auto simp: send_struct_info_def split_beta Let_def split: if_splits)

lemma send_struct_info_keeps_snd:
  "M (io_mem io) \<Longrightarrow> M (io_mem (snd (send_struct_info c i ty io)))"
  by (rule send_struct_info_keeps [OF prod.collapse [symmetric]])

lemma send_plock_keeps: "M (io_mem io) \<Longrightarrow> M (io_mem (send_plock c i io))"
  by (simp add: send_plock_def send_struct_info_keeps_snd)

lemma send_pending_loop_keeps: "M (io_mem io) \<Longrightarrow> M (io_mem (send_pending_loop c ws io))"
  by (induction ws arbitrary: io) (simp_all add: send_plock_keeps)

lemma send_own_keeps:
  "send_own c r ow io = (r', io') \<Longrightarrow> I r \<Longrightarrow> M (io_mem io) \<Longrightarrow> I r' \<and> M (io_mem io')"
  using set_flags send_struct_info_keeps_snd
  by (auto simp: send_own_def Let_def split_beta split: if_splits)

lemma send_drop_keeps:
  "send_drop c r io = (r', io') \<Longrightarrow> I r \<Longrightarrow> M (io_mem io) \<Longrightarrow> I r' \<and> M (io_mem io')"
  using set_flags send_struct_info_keeps_snd by (auto simp: send_drop_def split_beta)

lemma sync_locks_keeps:
  "sync_locks c number L io = (rv, L', io') \<Longrightarrow> M (io_mem io) \<Longrightarrow> M (io_mem io')"
  by (induction L arbitrary: rv L' io io')
     (auto split: prod.splits if_splits dest!: send_struct_info_keeps)

lemma sync_waiters_keeps:
  "sync_waiters c ws io = (rv, ws', io') \<Longrightarrow> M (io_mem io) \<Longrightarrow> M (io_mem io')"
  by (induction ws arbitrary: rv ws' io io')
     (auto split: prod.splits if_splits dest!: send_struct_info_keeps)

lemma send_syncs_keeps:
  assumes "send_syncs c r io = (r', io')" "I r" "M (io_mem io)"
  shows "I r' \<and> M (io_mem io')"
proof -
  obtain rv L io1 where 1: "sync_locks c (r_number r) (r_locks r) io = (rv, L, io1)"
    by (metis prod_cases3)
  obtain rv' ws io2 where 2: "sync_waiters c (r_waiters r) io1 = (rv', ws, io2)"
    by (metis prod_cases3)
  have r1: "I (r\<lparr>r_locks := L\<rparr>)" using relabel [OF assms(2)] sync_locks_unflag [OF 1] by simp
  have m1: "M (io_mem io1)" using sync_locks_keeps [OF 1 assms(3)] .
  have "wf_waiters ws"
    using wf_waiters_info [OF sync_waiters_info [OF 2]] waiters_wf [OF assms(2)] by simp
  then have "I (r\<lparr>r_locks := L, r_waiters := ws\<rparr>)" using set_waiters [OF r1] by simp
  moreover have "M (io_mem io2)" using sync_waiters_keeps [OF 2 m1] .
  ultimately show ?thesis
    using assms(1) r1 m1 by (auto simp: send_syncs_def 1 2 Let_def split: if_splits)
qed

lemma save_pending_keeps:
  "save_pending_plock r i io = (r', io') \<Longrightarrow> I r \<Longrightarrow> wf_info i \<Longrightarrow> M (io_mem io) \<Longrightarrow>
     I r' \<and> M (io_mem io')"
  using set_pending pending_wf malloc_keeps
  by (auto simp: save_pending_plock_def Let_def split_beta split: if_splits)

lemma send_pending_plocks_keeps:
  "send_pending_plocks c r io = (r', io') \<Longrightarrow> I r \<Longrightarrow> M (io_mem io) \<Longrightarrow> I r' \<and> M (io_mem io')"
  using set_pending [of r "[]"] send_pending_loop_keeps by (auto simp: send_pending_plocks_def)

lemma add_pending_plocks_keeps:
  assumes "add_pending_plocks c number ws ls io = (ls', io')" "ls_all I ls" "wf_waiters ws"
    and "M (io_mem io)"
  shows "ls_all I ls' \<and> M (io_mem io')"
  using assms
proof (induction ws arbitrary: ls io)
  case (Cons w ws)
  show ?case
  proof (cases "search_resource ls number")
    case (Some r)
    obtain ls1 io1 where op: "receive_plock_op c ls (w_info w) (our_nodeid c) r io = (ls1, io1)"
      by fastforce
    have 1: "ls_all I ls1 \<and> M (io_mem io1)"
      using receive_plock_op_keeps [OF Cons.prems(2) search_keeps [OF Some Cons.prems(2)] Cons.prems(4) _ op]
        Cons.prems(3) by simp
    show ?thesis
    proof (cases "search_resource ls1 number")
      case (Some r1)
      then have "I (r1\<lparr>r_pending := ws\<rparr>)" using 1 Cons.prems(3) search_keeps set_pending by simp
      with Cons.IH [of "store_resource ls1 (r1\<lparr>r_pending := ws\<rparr>)" io1] Cons.prems 1 show ?thesis
        by (simp add: \<open>search_resource ls number = Some r\<close> op Some store_keeps)
    qed (use Cons.prems 1 op Some in simp)
  qed (use Cons.prems in simp)
qed simp

lemma save_message_keeps:
  "save_message ls msg from ty io = (ls', io') \<Longrightarrow> ls_all I ls \<Longrightarrow> M (io_mem io) \<Longrightarrow>
     ls_all I ls' \<and> M (io_mem io')"
  using malloc_keeps by (auto simp: save_message_def ls_all_def split_beta Let_def split: if_splits)

lemma find_resource_keepsE:
  assumes "ls_all I ls" "M (io_mem io)"
  obtains (missing) rv ls1 io1 where "find_resource c ls number create io = (rv, None, ls1, io1)"
      "ls_all I ls1" "M (io_mem io1)"
    | (found) rv r ls1 io1 where "find_resource c ls number create io = (rv, Some r, ls1, io1)"
      "ls_all I ls1" "M (io_mem io1)" "I r"
proof -
  obtain rv ro ls1 io1 where f: "find_resource c ls number create io = (rv, ro, ls1, io1)"
    by (metis prod_cases4)
  from find_resource_keeps [OF this assms] show ?thesis
    using that f by (cases ro) auto
qed

lemma count_recv_mem [simp]: "io_mem (count_recv io) = io_mem io"
  by (simp add: count_recv_def Let_def)

lemma save_pending_store_keeps:
  assumes "save_pending_plock r i io = (r', io')" "I r" "wf_info i" "M (io_mem io)" "ls_all I ls"
  shows "ls_all I (store_resource ls r') \<and> M (io_mem io')"
  using save_pending_keeps [OF assms(1-4)] store_keeps [OF assms(5)] by simp

lemma own_and_save_keeps:
  assumes "send_own c r ow io = (r1, io1)" "save_pending_plock r1 i io1 = (r2, io2)"
    and "I r" "wf_info i" "M (io_mem io)" "ls_all I ls"
  shows "ls_all I (store_resource ls r2) \<and> M (io_mem io2)"
  using send_own_keeps [OF assms(1,3,5)] save_pending_store_keeps [OF assms(2) _ assms(4) _ assms(6)]
  by simp

lemma receive_plock_now_keeps:
  assumes "receive_plock_now c ls msg io = (ls', io')" "ls_all I ls" "M (io_mem io)" "wf_msg c msg"
  shows "ls_all I ls' \<and> M (io_mem io')"
proof -
  define info where "info = info_bswap_in (big_endian c) (hd_info msg)"
  have wf: "wf_info info" using assms(4) by (simp add: wf_msg_def info_def)
  have M: "M (io_mem (count_recv io))" using assms(3) by simp
  note run = assms(1) [unfolded receive_plock_now_def Let_def, folded info_def]
  from assms(2) M show ?thesis
  proof (cases rule: find_resource_keepsE [of ls "count_recv io" c "pi_number info" "\<not> cfgd_plock_ownership c"])
    case (missing rv ls1 io1)
    from missing(2,3) show ?thesis
    proof (cases rule: find_resource_keepsE [of ls1 io1 c "pi_number info" True])
      case (missing rv' ls2 io2)
      then show ?thesis
        using run \<open>find_resource c ls _ _ _ = _\<close> \<open>ls_all I ls1\<close> \<open>M (io_mem io1)\<close> assms(2) M
        by (auto split: if_splits)
    next
      case (found rv' r ls2 io2)
      obtain r1 io3 where o: "send_own c r (our_nodeid c) io2 = (r1, io3)" by fastforce
      obtain r2 io4 where p: "save_pending_plock r1 info io3 = (r2, io4)" by fastforce
      from own_and_save_keeps [OF o p found(4) wf found(3,2)] show ?thesis
        using run missing assms(2) M found(1) o p by (auto split: if_splits)
    qed
  next
    case (found rv r ls1 io1)
    obtain r1 io2 where p: "save_pending_plock r info io1 = (r1, io2)" by fastforce
    obtain ls2 io3 where op: "receive_plock_op c ls1 info (hd_nodeid msg) r io1 = (ls2, io3)"
      by fastforce
    from save_pending_store_keeps [OF p found(4) wf found(3,2)]
      receive_plock_op_keeps [OF found(2,4,3) wf op] show ?thesis
      using run found assms(2) M p op by (auto split: if_splits)
  qed
qed

lemma receive_plock_keeps:
  assumes "receive_plock c ls msg io = (ls', io')" "ls_all I ls" "M (io_mem io)" "wf_msg c msg"
  shows "ls_all I ls' \<and> M (io_mem io')"
  using assms receive_plock_now_keeps save_message_keeps
  by (auto simp: receive_plock_def split: if_splits)

lemma own_transition_keeps:
  assumes "own_transition c ls from nodeid r io = (ls', io')" "ls_all I ls" "I r" "M (io_mem io)"
  shows "ls_all I ls' \<and> M (io_mem io')"
proof -
  obtain r1 io1 where p: "send_pending_plocks c r io = (r1, io1)" by fastforce
  obtain r2 io2 where q: "send_pending_plocks c
      (r\<lparr>r_owner := 0, r_flags := r_flags r OR R_GOT_UNOWN\<rparr>) io = (r2, io2)" by fastforce
  obtain r3 io3 where s: "send_syncs c r io = (r3, io3)" by fastforce
  obtain r4 io4 where o: "send_own c r3 0 io3 = (r4, io4)" by fastforce
  obtain ls5 io5 where a: "add_pending_plocks c (r_number r) (r_pending r)
      (store_resource ls (r\<lparr>r_owner := our_nodeid c\<rparr>)) io = (ls5, io5)" by fastforce
  have k: "I (r\<lparr>r_flags := f\<rparr>)" "I (r\<lparr>r_owner := w\<rparr>)" "I (r\<lparr>r_owner := w, r_flags := f\<rparr>)" for f w
    using assms(3) set_flags set_owner by auto
  have 1: "I r1" "M (io_mem io1)" using send_pending_plocks_keeps [OF p assms(3,4)] by auto
  have 2: "I r2" "M (io_mem io2)" using send_pending_plocks_keeps [OF q k(3) assms(4)] by auto
  have 3: "I r3" "M (io_mem io3)" using send_syncs_keeps [OF s assms(3,4)] by auto
  have 4: "I (r4\<lparr>r_owner := 0\<rparr>)" "M (io_mem io4)" using send_own_keeps [OF o 3] set_owner by auto
  have 5: "ls_all I ls5 \<and> M (io_mem io5)"
    using add_pending_plocks_keeps [OF a store_keeps [OF assms(2) k(2)] pending_wf [OF assms(3)] assms(4)] .
  show ?thesis
    using assms(1,2,4) 1 2 4 5 k
    by (auto simp: own_transition_def Let_def p q s o a store_keeps split: if_splits)
qed

lemma receive_own_now_keeps:
  assumes "receive_own_now c ls msg io = (ls', io')" "ls_all I ls" "M (io_mem io)"
  shows "ls_all I ls' \<and> M (io_mem io')"
proof -
  have t: "ls_all I (ls\<lparr>ls_last_plock_time := tv_sec (io_now io)\<rparr>)" using assms(2) by simp
  show ?thesis
    by (rule find_resource_keepsE [OF t assms(3), of c
            "pi_number (info_bswap_in (big_endian c) (hd_info msg))" True])
       (use assms(1) own_transition_keeps in \<open>auto simp: receive_own_now_def Let_def\<close>)
qed

lemma receive_drop_now_keeps:
  assumes "receive_drop_now c ls msg io = (ls', io')" "ls_all I ls" "M (io_mem io)"
  shows "ls_all I ls' \<and> M (io_mem io')"
proof -
  have t: "ls_all I (ls\<lparr>ls_last_plock_time := tv_sec (io_now io)\<rparr>)" using assms(2) by simp
  show ?thesis
    by (rule find_resource_keepsE [OF t assms(3), of c
            "pi_number (info_bswap_in (big_endian c) (hd_info msg))" False])
       (use assms(1) remove_keeps in \<open>auto simp: receive_drop_now_def Let_def split: if_splits\<close>)
qed

lemma drop_one_keeps:
  assumes "drop_one c r io = (r', io')" "I r" "M (io_mem io)"
  shows "I r' \<and> M (io_mem io')"
proof -
  obtain r1 io1 where o: "send_own c r 0 io = (r1, io1)" by fastforce
  from send_own_keeps [OF o assms(2,3)] show ?thesis
    using assms set_owner send_drop_keeps by (auto simp: drop_one_def o split: if_splits)
qed

lemma drop_resources_loop_keeps:
  assumes "drop_resources_loop c count rs io = (rs', io')" "list_all I rs" "M (io_mem io)"
  shows "list_all I rs' \<and> M (io_mem io')"
  using assms
proof (induction rs arbitrary: count io rs' io')
  case (Cons r rs)
  obtain r1 io1 where d: "drop_one c r io = (r1, io1)" by fastforce
  obtain xs io2 where a: "drop_resources_loop c count rs io = (xs, io2)" by fastforce
  obtain ys io3 where b: "drop_resources_loop c (count + 1) rs io1 = (ys, io3)" by fastforce
  have "I r1 \<and> M (io_mem io1)" using drop_one_keeps [OF d] Cons.prems by simp
  with Cons.IH [OF a] Cons.IH [OF b] Cons.prems show ?case
    by (auto simp: d a b split: if_splits)
qed simp

lemma drop_resources_keeps:
  assumes "drop_resources c ls io = (rv, ls', io')" "ls_all I ls" "M (io_mem io)"
  shows "ls_all I ls' \<and> M (io_mem io')"
proof -
  obtain rs io1 where l: "drop_resources_loop c 0 (rev (ls_plock_resources ls)) io = (rs, io1)"
    by fastforce
  from drop_resources_loop_keeps [OF l] assms show ?thesis
    by (auto simp: drop_resources_def l ls_all_def split: if_splits)
qed

lemma count_read_mem [simp]: "io_mem (count_read io) = io_mem io"
  by (simp add: count_read_def Let_def)

lemma write_fail_mem [simp]: "io_mem (write_fail i rv io) = io_mem io"
  by (simp add: write_fail_def)

lemma dispatch_plock_keeps:
  assumes "dispatch_plock c ls info io = (ls', io')" "ls_all I ls" "M (io_mem io)" "wf_info info"
  shows "ls_all I ls' \<and> M (io_mem io')"
proof -
  have M: "M (io_mem (count_read io))" using assms(3) by simp
  from assms(2) M show ?thesis
  proof (cases rule: find_resource_keepsE [of ls "count_read io" c "pi_number info"
        "pi_optype info \<noteq> DLM_PLOCK_OP_UNLOCK"])
    case missing
    then show ?thesis using assms(1) by (auto simp: dispatch_plock_def)
  next
    case (found rv r ls1 io1)
    obtain r1 io2 where o: "send_own c r (our_nodeid c) io1 = (r1, io2)" by fastforce
    obtain r2 io3 where p: "save_pending_plock r1 info io2 = (r2, io3)" by fastforce
    obtain ls2 io4 where op: "receive_plock_op c ls1 info (our_nodeid c) r io1 = (ls2, io4)"
      by fastforce
    from own_and_save_keeps [OF o p found(4) assms(4) found(3,2)]
      receive_plock_op_keeps [OF found(2,4,3) assms(4) op] show ?thesis
      using assms(1) found by (auto simp: dispatch_plock_def o p op send_plock_keeps split: if_splits)
  qed
qed

lemma limit_plocks_mem: "limit_plocks c f g io = (rv, io') \<Longrightarrow> io_mem io' = io_mem io"
  by (auto simp: limit_plocks_def split: if_splits)

lemma update_lockspaces_keeps:
  "list_all (ls_all I) lss \<Longrightarrow> (\<And>ls. ls_all I ls \<Longrightarrow> ls_all I (f ls)) \<Longrightarrow>
     list_all (ls_all I) (update_first P f lss)"
  by (induction lss) auto

lemma mg_to_ls_id_keeps:
  "mg_to_ls_id g fsid lss = (i, lss') \<Longrightarrow> list_all (ls_all I) lss \<Longrightarrow> list_all (ls_all I) lss'"
  by (auto simp: mg_to_ls_id_def Let_def set_associated_id_def split: option.splits
      intro!: update_lockspaces_keeps simp: ls_all_def)

lemma process_plocks_keeps:
  assumes "process_plocks c g flow_on flow_now (Some i) lss io = Some (lss', io')"
    and "list_all (ls_all I) lss" "M (io_mem io)" "wf_info i"
  shows "list_all (ls_all I) lss' \<and> M (io_mem io')"
proof -
  obtain lim io1 where lim: "limit_plocks c flow_on flow_now io = (lim, io1)" by fastforce
  have m1: "M (io_mem io1)" using limit_plocks_mem [OF lim] assms(3) by simp
  define info where "info = i\<lparr>pi_nodeid := our_nodeid c\<rparr>"
  have wf: "wf_info (info\<lparr>pi_fsid := f\<rparr>)" for f using assms(4) by (simp add: info_def)
  obtain fsid lss1 where tr: "(if need_fsid_translation c then mg_to_ls_id g (pi_fsid info) lss
      else (pi_fsid info, lss)) = (fsid, lss1)" by fastforce
  have l1: "list_all (ls_all I) lss1"
    using tr assms(2) mg_to_ls_id_keeps by (auto split: if_splits)
  note run = assms(1) [unfolded process_plocks_def lim Let_def, simplified, folded info_def]
  show ?thesis
  proof (cases "lim \<noteq> 0 \<or> \<not> cfgd_enable_plock c")
    case True
    then show ?thesis using run assms(2) m1 by (auto split: if_splits)
  next
    case False
    with run have run1: "(case find_ls_id lss1 fsid of None \<Rightarrow> None
      | Some ls \<Rightarrow> if ls_disable_plock ls
          then Some (lss1, write_fail (info\<lparr>pi_fsid := fsid\<rparr>) (- ENOSYS) io1)
          else case dispatch_plock c ls (info\<lparr>pi_fsid := fsid\<rparr>) io1 of (ls', io2) \<Rightarrow>
            Some (update_first (\<lambda>x. ls_global_id x = fsid) (\<lambda>_. ls') lss1, io2)) = Some (lss', io')"
      unfolding info_def by (simp add: tr [unfolded info_def])
    then obtain ls where ls: "find_ls_id lss1 fsid = Some ls" by (auto split: option.splits)
    then have "ls_all I ls" using l1 by (auto simp: find_ls_id_def list_all_iff find_Some_iff)
    obtain ls2 io2 where d: "dispatch_plock c ls (info\<lparr>pi_fsid := fsid\<rparr>) io1 = (ls2, io2)" by fastforce
    from dispatch_plock_keeps [OF d \<open>ls_all I ls\<close> m1 wf] show ?thesis
      using run1 l1 m1 by (auto simp: ls d split: if_splits intro!: update_lockspaces_keeps)
  qed
qed

lemma purge_filter_keeps: "I r \<Longrightarrow> I (purge_filter nodeid unmount r)"
  using set_waiters [OF filter_locks] wf_waiters_mono [OF waiters_wf, of r "filter Q (r_waiters r)" for Q]
  by (auto simp: purge_filter_def Let_def)

lemma purge_resource_keeps:
  assumes "purge_resource c ls nodeid unmount r io = (r', io')" "I r" "M (io_mem io)"
  shows "I r' \<and> M (io_mem io')"
proof -
  define r2 where "r2 = purge_filter nodeid unmount r"
  have r2: "I r2" unfolding r2_def by (rule purge_filter_keeps [OF assms(2)])
  then have r3: "I (r2\<lparr>r_owner := 0, r_flags := f\<rparr>)" for f using set_owner set_flags by blast
  obtain r4 io1 where p: "(if r_owner r2 = nodeid
      then send_pending_plocks c
             (r2\<lparr>r_owner := 0, r_flags := r_flags r2 OR R_GOT_UNOWN OR R_PURGE_UNOWN\<rparr>) io
      else (r2, io)) = (r4, io1)" by fastforce
  have "I r4 \<and> M (io_mem io1)"
    using p r2 r3 assms(3) send_pending_plocks_keeps by (auto split: if_splits)
  moreover have "(if r_waiters r4 \<noteq> [] then do_waiters c ls r4 io1 else (r4, io1)) = (r', io')"
    using assms(1) by (simp only: purge_resource_def Let_def r2_def [symmetric] p prod.case)
  ultimately show ?thesis using do_waiters_keeps by (auto split: if_splits)
qed

lemma purge_loop_keeps:
  assumes "purge_loop c ls nodeid unmount rs io = (rs', n, io')" "list_all I rs" "M (io_mem io)"
  shows "list_all I rs' \<and> M (io_mem io')"
  using assms
proof (induction rs arbitrary: io rs' n io')
  case (Cons r rs)
  obtain r1 io1 where p: "purge_resource c ls nodeid unmount r io = (r1, io1)" by fastforce
  obtain xs k io2 where q: "purge_loop c ls nodeid unmount rs io1 = (xs, k, io2)"
    by (metis prod_cases3)
  have "I r1 \<and> M (io_mem io1)" using purge_resource_keeps [OF p] Cons.prems by simp
  with Cons.IH [OF q] Cons.prems show ?case by (auto simp: p q split: if_splits)
qed simp

lemma purge_plocks_keeps:
  assumes "purge_plocks c ls nodeid unmount io = (ls', io')" "ls_all I ls" "M (io_mem io)"
  shows "ls_all I ls' \<and> M (io_mem io')"
proof -
  obtain rs n io1 where l: "purge_loop c ls nodeid unmount (ls_plock_resources ls) io = (rs, n, io1)"
    by (metis prod_cases3)
  from purge_loop_keeps [OF l] assms show ?thesis
    by (auto simp: purge_plocks_def l ls_all_def Let_def split: if_splits)
qed

end

end
