(* ===== verification/Plock_Replica.thy ===== *)
theory Plock_Replica imports Plock_Proto_Inv begin

text \<open>
  State-machine replication. Without the ownership feature every node applies the same totally
  ordered operations to its own copy of the plock state. The replicated machine \<open>view_op\<close>,
  \<open>view_purge\<close> below mentions no node, clock, allocator or kernel device; the daemon's handlers are
  shown to implement it, so that nodes that have seen the same events hold the same locks and
  the same queues.
\<close>

section \<open>The replicated machine\<close>

text \<open>
  What of a request matters once it is queued; the other fields are only echoed to the kernel of the
  node that asked.
\<close>

definition req_core :: "dlm_plock_info \<Rightarrow> dlm_plock_info" where
  "req_core i = zero_info\<lparr>pi_start := pi_start i, pi_end := pi_end i, pi_owner := pi_owner i,
     pi_pid := pi_pid i, pi_nodeid := pi_nodeid i, pi_ex := pi_ex i\<rparr>"

type_synonym rstate = "posix_lock list \<times> dlm_plock_info list"

definition view_lock :: "dlm_plock_info \<Rightarrow> posix_lock list \<Rightarrow> posix_lock list" where
  "view_lock i L = map unflag (res_locks (lock_internal i [] L))"

definition view_unlock :: "dlm_plock_info \<Rightarrow> posix_lock list \<Rightarrow> posix_lock list" where
  "view_unlock i L = map unflag (res_locks (unlock_internal i 0 [] L))"

fun view_waiters :: "posix_lock list \<Rightarrow> dlm_plock_info list \<Rightarrow> dlm_plock_info list \<Rightarrow> rstate" where
  "view_waiters L kept [] = (L, kept)"
| "view_waiters L kept (i # is) =
     (if fst (is_conflict L i False) then view_waiters L (kept @ [i]) is
      else view_waiters (view_lock i L) kept is)"

definition view_op :: "rstate \<Rightarrow> dlm_plock_info \<Rightarrow> rstate" where
  "view_op V i =
     (case V of (L, ws) \<Rightarrow>
        (case pi_optype i of
           DLM_PLOCK_OP_LOCK \<Rightarrow>
             if fst (is_conflict L (req_core i) False)
             then view_waiters L [] (if pi_wait i = 0 then ws else ws @ [req_core i])
             else view_waiters (view_lock (req_core i) L) [] ws
         | DLM_PLOCK_OP_UNLOCK \<Rightarrow> view_waiters (view_unlock (req_core i) L) [] ws
         | _ \<Rightarrow> V))"

definition view_purge :: "u32 \<Rightarrow> bool \<Rightarrow> rstate \<Rightarrow> rstate" where
  "view_purge nodeid unmount V =
     (case V of (L, ws) \<Rightarrow>
        view_waiters (filter (\<lambda>po. \<not> (po_nodeid po = nodeid \<or> unmount)) L) []
          (filter (\<lambda>i. \<not> (pi_nodeid i = nodeid \<or> unmount)) ws))"

text \<open>A resource without locks and waiters counts the same as no resource.\<close>

definition rview :: "resource \<Rightarrow> rstate" where
  "rview r = (map unflag (r_locks r), map (req_core \<circ> w_info) (r_waiters r))"

definition lsview :: "plock_ls \<Rightarrow> u64 \<Rightarrow> rstate" where
  "lsview ls number = (case search_resource ls number of None \<Rightarrow> ([], []) | Some r \<Rightarrow> rview r)"

section \<open>Lock list operations and the view\<close>

lemma req_core_simps [simp]:
  "pi_start (req_core i) = pi_start i" "pi_end (req_core i) = pi_end i"
  "pi_owner (req_core i) = pi_owner i" "pi_pid (req_core i) = pi_pid i"
  "pi_nodeid (req_core i) = pi_nodeid i" "pi_ex (req_core i) = pi_ex i"
  "req_core (req_core i) = req_core i"
  by (simp_all add: req_core_def)

lemma is_conflict_view:
  "fst (is_conflict (map unflag L) (req_core i) g) = fst (is_conflict L i g')"
  by (auto simp: is_conflict_iff blocks_def)

definition view3 :: "int \<times> posix_lock list \<times> mem \<Rightarrow> int \<times> posix_lock list \<times> bool" where
  "view3 res = (case res of (rv, L, m) \<Rightarrow> (rv, map unflag L, mem_ok m))"

lemma view3_simp [simp]: "view3 (rv, L, m) = (rv, map unflag L, mem_ok m)"
  by (simp add: view3_def)

lemma view3_prepend [simp]:
  "view3 (prepend po res) = (case view3 res of (rv, L, ok) \<Rightarrow> (rv, unflag po # L, ok))"
  by (cases res) (simp add: prepend_def)

lemma unflag_idem [simp]: "unflag (unflag po) = unflag po"
  by (simp add: unflag_def)

lemma unflag_updates [simp]:
  "unflag (po\<lparr>po_ex := e\<rparr>) = (unflag po)\<lparr>po_ex := e\<rparr>"
  "unflag (po\<lparr>po_start := s\<rparr>) = (unflag po)\<lparr>po_start := s\<rparr>"
  "unflag (po\<lparr>po_end := f\<rparr>) = (unflag po)\<lparr>po_end := f\<rparr>"
  by (simp_all add: unflag_def)

lemma unflag_convert [simp]: "unflag (convert_lock po i) = convert_lock (unflag po) i"
  by (simp add: unflag_def convert_lock_def)

lemma convert_lock_core [simp]: "convert_lock po (req_core i) = convert_lock po i"
  by (simp add: convert_lock_def)

lemma not_ex_core [simp]: "not_ex (req_core i) = not_ex i"
  by (simp add: not_ex_def)

lemma mine_view [simp]: "mine (req_core i) (unflag po) = mine i po"
  by (simp add: mine_def)

text \<open>While no allocation fails, the result does not depend on the allocator or on flag words.\<close>

lemma add_lock_view:
  assumes "mem_ok m"
  shows "\<exists>m'. mem_ok m' \<and> add_lock L n w p e s f m = (0, L @ [\<lparr>po_pid = p, po_owner = w,
           po_start = s, po_end = f, po_ex = e, po_nodeid = n, po_flags = 0\<rparr>], m')"
  using assms by (auto simp: add_lock_def split_beta)

lemma unflag_new [simp]:
  "unflag \<lparr>po_pid = p, po_owner = w, po_start = s, po_end = f, po_ex = e, po_nodeid = n, po_flags = g\<rparr>
     = \<lparr>po_pid = p, po_owner = w, po_start = s, po_end = f, po_ex = e, po_nodeid = n, po_flags = 0\<rparr>"
  by (simp add: unflag_def)

lemma view3_add_lock:
  "mem_ok m \<Longrightarrow> view3 (add_lock L n w p e s f m) = view3 (add_lock (map unflag L) n w p e s f [])"
  by (auto simp: add_lock_def split_beta)

lemma view3_case1:
  "mem_ok m \<Longrightarrow> view3 (lock_case1 po L i m) = view3 (lock_case1 (unflag po) (map unflag L) (req_core i) [])"
  by (auto simp: lock_case1_def add_lock_def split_beta)

lemma view3_case2:
  "mem_ok m \<Longrightarrow> view3 (lock_case2 po L i m) = view3 (lock_case2 (unflag po) (map unflag L) (req_core i) [])"
  by (auto simp: lock_case2_def add_lock_def split_beta ENOMEM_def)

lemma view3_lock:
  "mem_ok m \<Longrightarrow> view3 (lock_internal i m L) = view3 (lock_internal (req_core i) [] (map unflag L))"
proof (induction L arbitrary: m)
  case Nil
  then show ?case using view3_add_lock [OF Nil, of "[]"] by simp
next
  case (Cons po L)
  note c = view3_case1 [OF Cons.prems, of po L i] view3_case2 [OF Cons.prems, of po L i]
    Cons.IH [OF Cons.prems]
  show ?case using Cons.prems by (simp add: Let_def c)
qed

lemma view3_unlock:
  "mem_ok m \<Longrightarrow>
     view3 (unlock_internal i rv m L) = view3 (unlock_internal (req_core i) rv [] (map unflag L))"
proof (induction L arbitrary: m rv)
  case (Cons po L)
  obtain rv' s e where s: "shrink_range2 (po_start po) (po_end po) (pi_start i) (pi_end i) = (rv', s, e)"
    by (metis prod_cases3)
  show ?case
    using Cons
    by (simp add: Let_def shrink_range_def s) (auto simp: add_lock_def split_beta)
qed simp

lemma prepend_mem [simp]: "snd (snd (prepend po res)) = snd (snd res)"
  by (cases res) (simp add: prepend_def)

lemma add_lock_mem: "mem_ok m \<Longrightarrow> mem_ok (snd (snd (add_lock L n w p e s f m)))"
  by (simp add: add_lock_def split_beta)

lemma lock_internal_mem: "mem_ok m \<Longrightarrow> mem_ok (snd (snd (lock_internal i m L)))"
  by (induction L arbitrary: m)
     (simp_all add: Let_def add_lock_mem lock_case1_def lock_case2_def split_beta)

lemma unlock_internal_mem: "mem_ok m \<Longrightarrow> mem_ok (snd (snd (unlock_internal i rv m L)))"
  by (induction L arbitrary: m rv) (simp_all add: Let_def add_lock_mem split_beta)

section \<open>One resource\<close>

abbreviation w_core :: "lock_waiter \<Rightarrow> dlm_plock_info" where
  "w_core w \<equiv> req_core (w_info w)"

lemma rview_simps [simp]:
  "rview (r\<lparr>r_last_access := t\<rparr>) = rview r" "rview (r\<lparr>r_owner := ow\<rparr>) = rview r"
  "rview (r\<lparr>r_flags := f\<rparr>) = rview r" "rview (r\<lparr>r_pending := ws\<rparr>) = rview r"
  "rview (new_resource c number t) = ([], [])"
  by (simp_all add: rview_def new_resource_def)

lemma lock_resource_view:
  assumes "mem_ok m" "lock_resource r i m = (rv, r', m')"
  shows "map unflag (r_locks r') = view_lock (req_core i) (map unflag (r_locks r)) \<and> mem_ok m'"
proof -
  obtain rv1 L m1 where l: "lock_internal i m (r_locks r) = (rv1, L, m1)" by (metis prod_cases3)
  obtain rv2 L2 m2 where k: "lock_internal (req_core i) [] (map unflag (r_locks r)) = (rv2, L2, m2)"
    by (metis prod_cases3)
  have "mem_ok m2"
    using lock_internal_mem [of "[]"] k by (metis mem_ok_Nil snd_conv)
  with view3_lock [OF assms(1), of i "r_locks r"] show ?thesis
    using assms(2) by (auto simp: l k lock_resource_def view_lock_def)
qed

lemma unlock_resource_view:
  assumes "mem_ok m" "unlock_resource r i m = (rv, r', m')"
  shows "map unflag (r_locks r') = view_unlock (req_core i) (map unflag (r_locks r)) \<and> mem_ok m'"
proof -
  obtain rv1 L m1 where l: "unlock_internal i 0 m (r_locks r) = (rv1, L, m1)" by (metis prod_cases3)
  obtain rv2 L2 m2 where k: "unlock_internal (req_core i) 0 [] (map unflag (r_locks r)) = (rv2, L2, m2)"
    by (metis prod_cases3)
  have "mem_ok m2"
    using unlock_internal_mem [of "[]"] k by (metis mem_ok_Nil snd_conv)
  with view3_unlock [OF assms(1), of i 0 "r_locks r"] show ?thesis
    using assms(2) by (auto simp: l k unlock_resource_def view_unlock_def)
qed

lemma do_waiters_loop_view:
  assumes "do_waiters_loop c ls r kept ws io = (r', io')" "mem_ok (io_mem io)"
  shows "rview r' = view_waiters (map unflag (r_locks r)) (map w_core kept) (map w_core ws) \<and>
         mem_ok (io_mem io')"
  using assms
proof (induction ws arbitrary: r kept io)
  case Nil
  then show ?case by (auto simp: rview_def)
next
  case (Cons w ws)
  note cf = is_conflict_view [of "r_locks r" "w_info w" False False]
  show ?case
  proof (cases "fst (is_conflict (r_locks r) (w_info w) False)")
    case True
    with Cons.IH [of r "kept @ [w]" io] Cons.prems cf show ?thesis by simp
  next
    case False
    obtain rv r1 m where lock: "lock_resource r (w_info w) (io_mem io) = (rv, r1, m)"
      by (metis prod_cases3)
    obtain io2 where step: "do_waiters_loop c ls r kept (w # ws) io = do_waiters_loop c ls r1 kept ws io2"
      "io_mem io2 = m" using do_waiters_loop_grant [OF False lock] .
    with lock_resource_view [OF Cons.prems(2) lock] Cons.IH [of r1 kept io2] Cons.prems False cf
    show ?thesis by simp
  qed
qed

lemma do_waiters_view:
  assumes "do_waiters c ls r io = (r', io')" "mem_ok (io_mem io)"
  shows "rview r' = view_waiters (fst (rview r)) [] (snd (rview r)) \<and> mem_ok (io_mem io')"
  using do_waiters_loop_view [OF assms [unfolded do_waiters_def]] by (simp add: rview_def comp_def)

lemma do_waiters_number: "do_waiters c ls r io = (r', io') \<Longrightarrow> r_number r' = r_number r"
  using do_waiters_loop_frame unfolding do_waiters_def by blast

lemma do_waiters_owner: "do_waiters c ls r io = (r', io') \<Longrightarrow> r_owner r' = r_owner r"
  using do_waiters_loop_frame unfolding do_waiters_def by blast

section \<open>The resource list\<close>

definition ls_repl :: "plock_ls \<Rightarrow> bool" where
  "ls_repl ls \<longleftrightarrow> distinct (map r_number (ls_plock_resources ls)) \<and>
     list_all (\<lambda>r. r_owner r = 0) (ls_plock_resources ls)"

lemma search_number: "search_resource ls n = Some r \<Longrightarrow> r_number r = n"
  by (auto simp: search_resource_def find_Some_iff)

lemma search_store:
  "search_resource ls (r_number r) \<noteq> None \<Longrightarrow>
     search_resource (store_resource ls r) n = (if n = r_number r then Some r else search_resource ls n)"
  by (auto simp: search_resource_def store_resource_def find_update_first find_update_first_other)

lemma find_delete_first:
  "distinct (map f xs) \<Longrightarrow>
     find (\<lambda>x. f x = n) (delete_first (\<lambda>x. f x = k) xs) = (if n = k then None else find (\<lambda>x. f x = n) xs)"
  by (induction xs) (auto simp: find_None_iff image_iff)

lemma search_remove:
  "distinct (map r_number (ls_plock_resources ls)) \<Longrightarrow>
     search_resource (remove_resource ls r) n = (if n = r_number r then None else search_resource ls n)"
  by (simp add: search_resource_def remove_resource_def find_delete_first)

lemma ls_repl_touch [simp]: "ls_repl (ls\<lparr>ls_last_plock_time := t\<rparr>) = ls_repl ls"
  by (simp add: ls_repl_def)

lemma search_touch [simp]: "search_resource (ls\<lparr>ls_last_plock_time := t\<rparr>) n = search_resource ls n"
  by (simp add: search_resource_def)

lemma lsview_touch [simp]: "lsview (ls\<lparr>ls_last_plock_time := t\<rparr>) = lsview ls"
  by (simp add: lsview_def fun_eq_iff)

lemma ls_repl_store: "ls_repl ls \<Longrightarrow> r_owner r = 0 \<Longrightarrow> ls_repl (store_resource ls r)"
  using set_update_first [of "\<lambda>x. r_number x = r_number r" "\<lambda>_. r" "ls_plock_resources ls"]
  by (auto simp: ls_repl_def store_resource_def map_update_first list_all_iff)

lemma distinct_delete_first: "distinct (map f xs) \<Longrightarrow> distinct (map f (delete_first P xs))"
  using set_delete_first by (induction xs) fastforce+

lemma ls_repl_put: "ls_repl ls \<Longrightarrow> ls_repl (put_resource c ls r)"
  using set_delete_first
  by (fastforce simp: put_resource_def ls_repl_def remove_resource_def list_all_iff distinct_delete_first)

text \<open>Writing a resource back and releasing it updates the view at its number.\<close>

lemma lsview_store_put:
  assumes "ls_repl ls" "search_resource ls (r_number r) \<noteq> None" "r_owner r = 0"
  shows "lsview (put_resource c (store_resource ls r) r) = (lsview ls)(r_number r := rview r)"
proof
  fix n
  have d: "distinct (map r_number (ls_plock_resources (store_resource ls r)))"
    using ls_repl_store [OF assms(1,3)] by (simp add: ls_repl_def)
  show "lsview (put_resource c (store_resource ls r) r) n = ((lsview ls)(r_number r := rview r)) n"
    by (auto simp: put_resource_def lsview_def search_remove [OF d] search_store [OF assms(2)] rview_def)
qed

lemma lsview_put:
  assumes "ls_repl ls" "search_resource ls (r_number r) = Some r"
  shows "lsview (put_resource c ls r) = lsview ls"
  using assms by (auto simp: put_resource_def lsview_def search_remove ls_repl_def rview_def fun_eq_iff)

section \<open>Handlers\<close>

lemma lock_or_wait_frame:
  assumes "lock_or_wait r i m = (rv, r', m')"
  shows "r_number r' = r_number r \<and> r_owner r' = r_owner r"
  using assms lock_resource_frame
  by (auto simp: lock_or_wait_def add_waiter_def split_beta split: if_splits prod.splits)

lemma lock_or_wait_view:
  assumes "lock_or_wait r i m = (rv, r', m')" "mem_ok m"
  shows "mem_ok m' \<and> rview r' =
    (if fst (is_conflict (fst (rview r)) (req_core i) False)
     then (fst (rview r), if pi_wait i = 0 then snd (rview r) else snd (rview r) @ [req_core i])
     else (view_lock (req_core i) (fst (rview r)), snd (rview r)))"
proof (cases "fst (is_conflict (r_locks r) i False)")
  case True
  then show ?thesis
    using assms by (auto simp: lock_or_wait_def add_waiter_def split_beta rview_def is_conflict_view [where g' = False]
        split: if_splits)
next
  case False
  then have "lock_resource r i m = (rv, r', m')" using assms(1) by (simp add: lock_or_wait_def)
  with lock_resource_view [OF assms(2) this] lock_resource_frame [OF this] False show ?thesis
    by (simp add: rview_def is_conflict_view [where g' = False])
qed

text \<open>The end of lock and unlock: the queue is run, the resource written back and released.\<close>

lemma settle_view:
  assumes "do_waiters c ls r io = (r', io')" "mem_ok (io_mem io)" "ls_repl ls"
    and "search_resource ls (r_number r) \<noteq> None" "r_owner r = 0"
  shows "ls_repl (put_resource c (store_resource ls r') r') \<and> mem_ok (io_mem io') \<and>
         lsview (put_resource c (store_resource ls r') r') =
           (lsview ls)(r_number r := view_waiters (fst (rview r)) [] (snd (rview r)))"
proof -
  have f: "r_number r' = r_number r" "r_owner r' = 0"
    using do_waiters_number [OF assms(1)] do_waiters_owner [OF assms(1)] assms(5) by simp_all
  then have "search_resource ls (r_number r') \<noteq> None" using assms(4) by simp
  from lsview_store_put [OF assms(3) this f(2), of c] do_waiters_view [OF assms(1,2)] show ?thesis
    using f ls_repl_put ls_repl_store [OF assms(3) f(2)] by simp
qed

lemma ls_repl_owner: "ls_repl ls \<Longrightarrow> search_resource ls n = Some r \<Longrightarrow> r_owner r = 0"
  by (auto simp: ls_repl_def search_resource_def find_Some_iff list_all_iff)

lemma receive_plock_op_view:
  assumes "receive_plock_op c ls i from r io = (ls', io')" "ls_repl ls" "mem_ok (io_mem io)"
    and r: "search_resource ls (r_number r) = Some r"
  shows "ls_repl ls' \<and> mem_ok (io_mem io') \<and>
         lsview ls' = (lsview ls)(r_number r := view_op (rview r) i)"
proof (cases "pi_optype i")
  case DLM_PLOCK_OP_LOCK
  define t where "t = ls\<lparr>ls_last_plock_time := tv_sec (io_now io)\<rparr>"
  obtain rv r1 m where 1: "lock_or_wait r i (io_mem io) = (rv, r1, m)" by (metis prod_cases3)
  define io2 where "io2 = (if pi_nodeid i = our_nodeid c \<and> rv \<noteq> - EINPROGRESS
                 then write_result c t i rv (io\<lparr>io_mem := m\<rparr>) else io\<lparr>io_mem := m\<rparr>)"
  obtain r2 io3 where 2: "do_waiters c t r1 io2 = (r2, io3)" by fastforce
  note v1 = lock_or_wait_view [OF 1 assms(3)]
  have m2: "mem_ok (io_mem io2)" using v1 by (simp add: io2_def)
  have t: "ls_repl t" "search_resource t (r_number r1) \<noteq> None" "r_owner r1 = 0"
    using assms(2) r lock_or_wait_frame [OF 1] ls_repl_owner by (simp_all add: t_def)
  from settle_view [OF 2 m2 t] show ?thesis
    using v1 assms(1) DLM_PLOCK_OP_LOCK lock_or_wait_frame [OF 1]
    by (simp add: receive_plock_op_def do_lock_def 1 Let_def flip: io2_def t_def)
       (auto simp: view_op_def split_beta t_def 2 [unfolded t_def])
next
  case DLM_PLOCK_OP_UNLOCK
  define t where "t = ls\<lparr>ls_last_plock_time := tv_sec (io_now io)\<rparr>"
  obtain rv r1 m where 1: "unlock_resource r i (io_mem io) = (rv, r1, m)" by (metis prod_cases3)
  define io2 where "io2 = (if pi_nodeid i = our_nodeid c
                 then write_result c t i rv (io\<lparr>io_mem := m\<rparr>) else io\<lparr>io_mem := m\<rparr>)"
  obtain r2 io3 where 2: "do_waiters c t r1 io2 = (r2, io3)" by fastforce
  note v1 = unlock_resource_view [OF assms(3) 1] and f1 = unlock_resource_frame [OF 1]
  have m2: "mem_ok (io_mem io2)" using v1 by (simp add: io2_def)
  have t: "ls_repl t" "search_resource t (r_number r1) \<noteq> None" "r_owner r1 = 0"
    using assms(2) r f1 ls_repl_owner by (simp_all add: t_def)
  from settle_view [OF 2 m2 t] show ?thesis
    using v1 assms(1) DLM_PLOCK_OP_UNLOCK f1
    by (simp add: receive_plock_op_def do_unlock_def 1 Let_def flip: io2_def t_def)
       (auto simp: view_op_def split_beta t_def 2 [unfolded t_def] rview_def)
next
  case DLM_PLOCK_OP_GET
  with assms lsview_put [OF assms(2) r, of c] ls_repl_put [OF assms(2)] show ?thesis
    by (auto simp: receive_plock_op_def do_get_def split_beta view_op_def lsview_def fun_eq_iff)
next
  case (OP_other b)
  with assms show ?thesis by (auto simp: receive_plock_op_def view_op_def lsview_def fun_eq_iff split_beta)
qed

text \<open>Finding or creating a resource does not change the view.\<close>

lemma find_resource_view:
  assumes "find_resource c ls n create io = (rv, ro, ls', io')"
    and "\<not> cfgd_plock_ownership c" "ls_repl ls" "mem_ok (io_mem io)"
  shows "ls_repl ls' \<and> mem_ok (io_mem io') \<and> lsview ls' = lsview ls \<and>
         (create \<longrightarrow> ro \<noteq> None) \<and>
         (\<forall>r. ro = Some r \<longrightarrow> r_number r = n \<and> search_resource ls' n = Some r \<and> rview r = lsview ls n)"
proof (cases "search_resource ls n")
  case None
  define r where "r = new_resource c n (io_now io)"
  have r: "r_number r = n" "r_owner r = 0" "rview r = ([], [])"
    using assms(2) by (simp_all add: r_def new_resource_def rview_def)
  have "n \<notin> r_number ` set (ls_plock_resources ls)"
    using None by (auto simp: search_resource_def find_None_iff)
  moreover have "find (\<lambda>x. r_number x = k) (ls_plock_resources ls @ [r]) =
      (if k = n then Some r else find (\<lambda>x. r_number x = k) (ls_plock_resources ls))" for k
    using None r by (auto simp: search_resource_def find_append split: option.splits)
  ultimately show ?thesis
    using assms None r
    by (auto simp: find_resource_def split_beta Let_def ls_repl_def lsview_def search_resource_def fun_eq_iff
        simp flip: r_def split: if_splits)
next
  case (Some r)
  define r' where "r' = r\<lparr>r_last_access := io_now io\<rparr>"
  have r: "r_number r' = n" "r_owner r' = 0" "rview r' = rview r"
    using Some search_number ls_repl_owner [OF assms(3)] by (auto simp: r'_def)
  have st: "search_resource (store_resource ls r') k = (if k = n then Some r' else search_resource ls k)" for k
    using search_store [of ls r' k] Some r by simp
  from assms(1) Some have "ro = Some r'" "ls' = store_resource ls r'" "io' = io"
    by (auto simp: find_resource_def Let_def r'_def)
  with r st Some ls_repl_store [OF assms(3) r(2)] assms(4) show ?thesis
    by (auto simp: lsview_def fun_eq_iff)
qed

definition view_deliver :: "(u64 \<Rightarrow> rstate) \<Rightarrow> u32 \<Rightarrow> dlm_plock_info \<Rightarrow> u64 \<Rightarrow> rstate" where
  "view_deliver V from i =
     (if from = pi_nodeid i then V(pi_number i := view_op (V (pi_number i)) i) else V)"

lemma view_op_GET: "pi_optype i = DLM_PLOCK_OP_GET \<Longrightarrow> view_op V i = V"
  by (simp add: view_op_def split_beta)

lemma receive_plock_now_view:
  assumes "receive_plock_now c ls msg io = (ls', io')"
    and "\<not> cfgd_plock_ownership c" "ls_repl ls" "mem_ok (io_mem io)"
  shows "ls_repl ls' \<and> mem_ok (io_mem io') \<and>
         lsview ls' = view_deliver (lsview ls) (hd_nodeid msg) (info_bswap_in (big_endian c) (hd_info msg))"
proof -
  define i where "i = info_bswap_in (big_endian c) (hd_info msg)"
  have m: "mem_ok (io_mem (count_recv io))" using assms(4) by (simp add: count_recv_def Let_def)
  obtain rv ro ls1 io1 where f: "find_resource c ls (pi_number i) True (count_recv io) = (rv, ro, ls1, io1)"
    by (metis prod_cases4)
  note v1 = find_resource_view [OF f assms(2,3) m]
  then obtain r where ro: "ro = Some r" by auto
  have r: "search_resource ls1 (r_number r) = Some r" "r_number r = pi_number i"
    "rview r = lsview ls (pi_number i)" "r_owner r = 0"
    using v1 ro ls_repl_owner by auto
  obtain ls2 io2 where op: "receive_plock_op c ls1 i (pi_nodeid i) r io1 = (ls2, io2)" by fastforce
  note v2 = receive_plock_op_view [OF op _ _ r(1)]
  note run = assms(1) [unfolded receive_plock_now_def Let_def, folded i_def]
  show ?thesis
  proof (cases "(pi_optype i = DLM_PLOCK_OP_GET \<and> hd_nodeid msg \<noteq> our_nodeid c) \<or> hd_nodeid msg \<noteq> pi_nodeid i")
    case True
    then show ?thesis
      using run assms(3) m by (auto simp: view_deliver_def view_op_GET simp flip: i_def split: if_splits)
  next
    case False
    then show ?thesis
      using run v1 v2 r assms(2) by (auto simp: f ro op view_deliver_def simp flip: i_def)
  qed
qed

text \<open>A request read from the kernel is only sent to the group; the view stays.\<close>

lemma send_struct_info_mem: "mem_ok (io_mem io) \<Longrightarrow> mem_ok (io_mem (snd (send_struct_info c i ty io)))"
  by (simp add: send_struct_info_def split_beta Let_def)

lemma dispatch_plock_view:
  assumes "dispatch_plock c ls i io = (ls', io')"
    and "\<not> cfgd_plock_ownership c" "ls_repl ls" "mem_ok (io_mem io)"
  shows "ls_repl ls' \<and> mem_ok (io_mem io') \<and> lsview ls' = lsview ls"
proof -
  have m: "mem_ok (io_mem (count_read io))" using assms(4) by (simp add: count_read_def Let_def)
  obtain rv ro ls1 io1 where f:
    "find_resource c ls (pi_number i) (pi_optype i \<noteq> DLM_PLOCK_OP_UNLOCK) (count_read io) = (rv, ro, ls1, io1)"
    by (metis prod_cases4)
  note v1 = find_resource_view [OF f assms(2,3) m]
  show ?thesis
    using assms(1,2) v1 ls_repl_owner
    by (cases ro) (auto simp: dispatch_plock_def f write_fail_def send_plock_def send_struct_info_mem)
qed

section \<open>Node failures\<close>

lemma purge_resource_view:
  assumes "purge_resource c ls nodeid unmount r io = (r', io')" "mem_ok (io_mem io)" "r_owner r = 0"
  shows "r_number r' = r_number r \<and> r_owner r' = 0 \<and> mem_ok (io_mem io') \<and>
         rview r' = view_purge nodeid unmount (rview r)"
proof -
  define r2 where "r2 = purge_filter nodeid unmount r"
  have f2: "r_number r2 = r_number r" "r_owner r2 = 0"
    using assms(3) by (simp_all add: r2_def purge_filter_def Let_def)
  have v2: "view_purge nodeid unmount (rview r) = view_waiters (fst (rview r2)) [] (snd (rview r2))"
    by (simp add: view_purge_def r2_def purge_filter_def Let_def rview_def filter_map comp_def)
  obtain r3 io1 where p: "(if r_owner r2 = nodeid
      then send_pending_plocks c
             (r2\<lparr>r_owner := 0, r_flags := r_flags r2 OR R_GOT_UNOWN OR R_PURGE_UNOWN\<rparr>) io
      else (r2, io)) = (r3, io1)" by fastforce
  have r3: "r_number r3 = r_number r" "r_owner r3 = 0" "rview r3 = rview r2" "mem_ok (io_mem io1)"
    using p f2 assms(2) rinv.send_pending_loop_keeps
    by (auto simp: send_pending_plocks_def split: if_splits)
  have run: "(if r_waiters r3 \<noteq> [] then do_waiters c ls r3 io1 else (r3, io1)) = (r', io')"
    using assms(1) by (simp only: purge_resource_def Let_def r2_def [symmetric] p prod.case)
  show ?thesis
  proof (cases "r_waiters r3 = []")
    case True
    then have "snd (rview r3) = []" by (simp add: rview_def)
    then have "view_waiters (fst (rview r3)) [] (snd (rview r3)) = rview r3" by (metis prod.collapse view_waiters.simps(1))
    with True run r3 v2 show ?thesis by simp
  next
    case False
    then have d: "do_waiters c ls r3 io1 = (r', io')" using run by simp
    with do_waiters_view [OF d r3(4)] do_waiters_number [OF d] do_waiters_owner [OF d] r3 v2
    show ?thesis by simp
  qed
qed

definition list_view :: "resource list \<Rightarrow> u64 \<Rightarrow> rstate" where
  "list_view rs n = (case find (\<lambda>r. r_number r = n) rs of None \<Rightarrow> ([], []) | Some r \<Rightarrow> rview r)"

lemma lsview_list: "lsview ls = list_view (ls_plock_resources ls)"
  by (simp add: lsview_def list_view_def search_resource_def fun_eq_iff)

lemma list_view_Nil [simp]: "list_view [] n = ([], [])"
  by (simp add: list_view_def)

lemma list_view_Cons [simp]:
  "list_view (r # rs) n = (if r_number r = n then rview r else list_view rs n)"
  by (simp add: list_view_def)

lemma list_view_notin: "n \<notin> r_number ` set rs \<Longrightarrow> list_view rs n = ([], [])"
  by (induction rs) auto

lemma view_purge_empty [simp]: "view_purge nodeid unmount ([], []) = ([], [])"
  by (simp add: view_purge_def)

lemma purge_loop_view:
  assumes "purge_loop c ls nodeid unmount rs io = (rs', k, io')" "mem_ok (io_mem io)"
    and "distinct (map r_number rs)" "list_all (\<lambda>r. r_owner r = 0) rs"
  shows "mem_ok (io_mem io') \<and> distinct (map r_number rs') \<and> list_all (\<lambda>r. r_owner r = 0) rs' \<and>
         (\<forall>x \<in> set rs'. r_number x \<in> r_number ` set rs) \<and>
         (\<forall>n. list_view rs' n = view_purge nodeid unmount (list_view rs n))"
  using assms
proof (induction rs arbitrary: io rs' k io')
  case (Cons r rs)
  obtain r1 io1 where p: "purge_resource c ls nodeid unmount r io = (r1, io1)" by fastforce
  obtain xs j io2 where q: "purge_loop c ls nodeid unmount rs io1 = (xs, j, io2)" by (metis prod_cases3)
  note v = purge_resource_view [OF p Cons.prems(2)]
  have IH: "mem_ok (io_mem io2) \<and> distinct (map r_number xs) \<and> list_all (\<lambda>r. r_owner r = 0) xs \<and>
         (\<forall>x \<in> set xs. r_number x \<in> r_number ` set rs) \<and>
         (\<forall>n. list_view xs n = view_purge nodeid unmount (list_view rs n))"
    by (rule Cons.IH [OF q]) (use v Cons.prems in auto)
  moreover have "list_view rs (r_number r) = ([], [])"
    by (rule list_view_notin) (use Cons.prems in auto)
  moreover have "rview r1 = ([], [])" if "r_locks r1 = []" "r_waiters r1 = []"
    using that by (simp add: rview_def)
  moreover have "view_purge nodeid unmount (rview r) = rview r1" "r_number r1 = r_number r" "r_owner r1 = 0"
    using v Cons.prems by auto
  ultimately show ?case
    using Cons.prems by (auto simp: p q split: if_splits)
qed auto

lemma purge_plocks_view:
  assumes "purge_plocks c ls nodeid unmount io = (ls', io')" "ls_repl ls" "mem_ok (io_mem io)"
    and "cfgd_enable_plock c" "\<not> ls_disable_plock ls"
  shows "ls_repl ls' \<and> mem_ok (io_mem io') \<and> lsview ls' = view_purge nodeid unmount \<circ> lsview ls"
proof -
  obtain rs k io1 where l: "purge_loop c ls nodeid unmount (ls_plock_resources ls) io = (rs, k, io1)"
    by (metis prod_cases3)
  from purge_loop_view [OF l assms(3)] assms show ?thesis
    by (auto simp: purge_plocks_def l Let_def ls_repl_def lsview_list fun_eq_iff split: if_splits)
qed

section \<open>Runs\<close>

text \<open>
  The events of the process group, delivered in the same order to every member: a plock message,
  with its sender and its request in host order, and the failure of a node. Between them a node
  reads requests of its own kernel. Each step of a node happens in its own world, so the clock,
  the allocator and the file-level counters are arbitrary at every step.
\<close>

datatype group_event = Plock u32 dlm_plock_info | Node_failed u32

datatype node_event = Deliver group_event | Read_plock dlm_plock_info

fun view_event :: "(u64 \<Rightarrow> rstate) \<Rightarrow> group_event \<Rightarrow> u64 \<Rightarrow> rstate" where
  "view_event V (Plock from i) = view_deliver V from i"
| "view_event V (Node_failed n) = view_purge n False \<circ> V"

fun node_step :: "plock_cfg \<Rightarrow> plock_ls \<Rightarrow> node_event \<times> plock_io \<Rightarrow> plock_ls" where
  "node_step c ls (Deliver (Plock from i), io) =
     fst (receive_plock c ls \<lparr>hd_type = DLM_MSG_PLOCK, hd_nodeid = from,
                              hd_info = info_bswap_out (big_endian c) i\<rparr> io)"
| "node_step c ls (Deliver (Node_failed n), io) = fst (purge_plocks c ls n False io)"
| "node_step c ls (Read_plock i, io) = fst (dispatch_plock c ls i io)"

definition node_run :: "plock_cfg \<Rightarrow> plock_ls \<Rightarrow> (node_event \<times> plock_io) list \<Rightarrow> plock_ls" where
  "node_run c ls evs = foldl (node_step c) ls evs"

fun delivered :: "(node_event \<times> plock_io) list \<Rightarrow> group_event list" where
  "delivered [] = []"
| "delivered ((Deliver e, io) # evs) = e # delivered evs"
| "delivered ((Read_plock i, io) # evs) = delivered evs"

definition ls_mode :: "plock_ls \<Rightarrow> bool \<times> bool" where
  "ls_mode ls = (ls_save_plocks ls, ls_disable_plock ls)"

lemma ls_mode_simps [simp]:
  "ls_mode (store_resource ls r) = ls_mode ls" "ls_mode (put_resource c ls r) = ls_mode ls"
  "ls_mode (ls\<lparr>ls_last_plock_time := t\<rparr>) = ls_mode ls"
  "ls_mode (ls\<lparr>ls_plock_resources := rs\<rparr>) = ls_mode ls"
  by (simp_all add: ls_mode_def store_resource_def put_resource_def remove_resource_def)

lemma receive_plock_op_mode: "ls_mode (fst (receive_plock_op c ls i from r io)) = ls_mode ls"
  by (simp add: receive_plock_op_def do_lock_def do_unlock_def do_get_def Let_def split_beta
      split: plock_op.splits)

lemma find_resource_mode: "ls_mode (fst (snd (snd (find_resource c ls n create io)))) = ls_mode ls"
  by (simp add: find_resource_def Let_def split_beta split: option.splits)

lemma receive_plock_now_mode: "ls_mode (fst (receive_plock_now c ls msg io)) = ls_mode ls"
  by (simp add: receive_plock_now_def Let_def split_beta receive_plock_op_mode find_resource_mode
      split: option.splits)

lemma dispatch_plock_mode: "ls_mode (fst (dispatch_plock c ls i io)) = ls_mode ls"
  by (simp add: dispatch_plock_def split_beta receive_plock_op_mode find_resource_mode
      split: option.splits)

lemma purge_plocks_mode: "ls_mode (fst (purge_plocks c ls n u io)) = ls_mode ls"
  by (simp add: purge_plocks_def split_beta Let_def)

text \<open>A node that takes part in replication: no ownership, plocks on and not being transferred.\<close>

definition replicating :: "plock_cfg \<Rightarrow> plock_ls \<Rightarrow> bool" where
  "replicating c ls \<longleftrightarrow> \<not> cfgd_plock_ownership c \<and> cfgd_enable_plock c \<and> ls_mode ls = (False, False) \<and> ls_repl ls"

lemma node_step_view:
  assumes "replicating c ls" "mem_ok (io_mem io)"
  shows "replicating c (node_step c ls (e, io)) \<and>
         lsview (node_step c ls (e, io)) = foldl view_event (lsview ls) (delivered [(e, io)])"
proof (cases "(c, ls, (e, io))" rule: node_step.cases)
  case (1 c' ls' n i io')
  define msg where "msg = \<lparr>hd_type = DLM_MSG_PLOCK, hd_nodeid = n, hd_info = info_bswap_out (big_endian c) i\<rparr>"
  obtain ls1 io1 where n: "receive_plock_now c ls msg io = (ls1, io1)" by fastforce
  have "receive_plock c ls msg io = (ls1, io1)"
    using n assms(1) by (simp add: receive_plock_def replicating_def ls_mode_def)
  with receive_plock_now_view [OF n] receive_plock_now_mode [of c ls msg io] n assms 1 show ?thesis
    by (simp add: replicating_def msg_def)
next
  case (2 c' ls' n io')
  obtain ls1 io1 where p: "purge_plocks c ls n False io = (ls1, io1)" by fastforce
  with purge_plocks_view [OF p] purge_plocks_mode [of c ls n False io] assms 2 show ?thesis
    by (simp add: replicating_def ls_mode_def)
next
  case (3 c' ls' i io')
  obtain ls1 io1 where d: "dispatch_plock c ls i io = (ls1, io1)" by fastforce
  with dispatch_plock_view [OF d] dispatch_plock_mode [of c ls i io] assms 3 show ?thesis
    by (simp add: replicating_def)
qed

lemma delivered_Cons: "delivered (ev # evs) = delivered [ev] @ delivered evs"
  by (cases "[ev]" rule: delivered.cases) auto

lemma node_run_view:
  assumes "replicating c ls" "\<forall>(e, io) \<in> set evs. mem_ok (io_mem io)"
  shows "replicating c (node_run c ls evs) \<and>
         lsview (node_run c ls evs) = foldl view_event (lsview ls) (delivered evs)"
  using assms
proof (induction evs arbitrary: ls)
  case (Cons ev evs)
  obtain e io where ev: "ev = (e, io)" by fastforce
  have "replicating c (node_step c ls (e, io))"
    "lsview (node_step c ls (e, io)) = foldl view_event (lsview ls) (delivered [(e, io)])"
    using node_step_view [OF Cons.prems(1), of io e] Cons.prems(2) ev by auto
  with Cons.IH [of "node_step c ls ev"] Cons.prems(2) show ?case
    by (simp add: node_run_def ev delivered_Cons [of "(e, io)" evs])
qed (simp add: node_run_def)

end
