(* ===== verification/Plock_Reach.thy ===== *)
theory Plock_Reach imports Plock_Replica begin

text \<open>
  The daemon as a transition system on one lockspace: any handler may run next, in any world. The
  invariants of the handlers become invariants of all reachable states. A second accounting
  invariant follows the requests of the local kernel: each is answered exactly once or still queued.
\<close>

section \<open>Reachable states\<close>

text \<open>
  A lock that another node syncs to us must not clash with what we hold of that resource; that is the
  sender's duty in the ownership protocol, and the receiver does not check it.
\<close>

definition sync_ok :: "plock_cfg \<Rightarrow> plock_ls \<Rightarrow> plock_msg \<Rightarrow> bool" where
  "sync_ok c ls msg \<longleftrightarrow>
     (let i = info_bswap_in (big_endian c) (hd_info msg) in
      case search_resource ls (pi_number i) of
        None \<Rightarrow> True
      | Some r \<Rightarrow> hd_nodeid msg = our_nodeid c \<or> hd_type msg \<noteq> DLM_MSG_PLOCK_SYNC_LOCK \<or>
          \<not> fst (is_conflict (r_locks r) i False))"

inductive plock_step :: "plock_cfg \<Rightarrow> plock_ls \<Rightarrow> plock_ls \<Rightarrow> bool" for c where
  step_plock: "wf_msg c msg \<Longrightarrow> receive_plock_now c ls msg io = (ls', io') \<Longrightarrow> plock_step c ls ls'"
| step_own: "receive_own_now c ls msg io = (ls', io') \<Longrightarrow> plock_step c ls ls'"
| step_sync: "wf_msg c msg \<Longrightarrow> sync_ok c ls msg \<Longrightarrow> receive_sync_now c ls msg io = (ls', io') \<Longrightarrow>
    plock_step c ls ls'"
| step_drop: "receive_drop_now c ls msg io = (ls', io') \<Longrightarrow> plock_step c ls ls'"
| step_save: "save_message ls msg n ty io = (ls', io') \<Longrightarrow> plock_step c ls ls'"
| step_kernel: "wf_info i \<Longrightarrow> dispatch_plock c ls i io = (ls', io') \<Longrightarrow> plock_step c ls ls'"
| step_idle: "drop_resources c ls io = (rv, ls', io') \<Longrightarrow> plock_step c ls ls'"
| step_purge: "purge_plocks c ls n unmount io = (ls', io') \<Longrightarrow> plock_step c ls ls'"

lemma clear_syncing_keeps_safe:
  assumes "res_safe r"
  shows "res_safe (clear_syncing_flag r i)"
proof (cases "\<exists>po \<in> set (r_locks r). syncing_lock i po")
  case True
  have "map unflag (update_first (syncing_lock i) (\<lambda>po. po\<lparr>po_flags := po_flags po AND NOT P_SYNCING\<rparr>) (r_locks r))
      = map unflag (r_locks r)" by (rule map_update_first) simp
  from rsafe.relabel [OF assms this] True show ?thesis by (simp add: clear_syncing_flag_def)
next
  case False
  have "map w_info (update_first (syncing_waiter i) (\<lambda>w. w\<lparr>w_flags := w_flags w AND NOT P_SYNCING\<rparr>) (r_waiters r))
      = map w_info (r_waiters r)" by (rule map_update_first) simp
  from rsafe.set_waiters [OF assms iffD2 [OF wf_waiters_info [OF this] rsafe.waiters_wf [OF assms]]] False
  show ?thesis by (simp add: clear_syncing_flag_def)
qed

lemma add_lock_safe:
  assumes "res_safe r" "wf_info i" "\<not> fst (is_conflict (r_locks r) i False)"
    and "add_lock (r_locks r) (pi_nodeid i) (pi_owner i) (pi_pid i) (uint (pi_ex i)) (pi_start i) (pi_end i) m
           = (rv, L, m')"
  shows "res_safe (r\<lparr>r_locks := L\<rparr>)"
proof -
  let ?po = "\<lparr>po_pid = pi_pid i, po_owner = pi_owner i, po_start = pi_start i, po_end = pi_end i,
    po_ex = uint (pi_ex i), po_nodeid = pi_nodeid i, po_flags = 0\<rparr>"
  have "wf_lock ?po" using assms(2) uint_ex_bool [OF assms(2)] by (simp add: wf_lock_def wf_info_def)
  moreover have "granted i ?po" by (simp add: granted_def bytes_def pi_bytes_def)
  moreover have L: "derived (granted i) (r_locks r) (r_locks r)"
    using assms(1) by (intro derived_refl) (simp_all add: res_safe_def)
  ultimately have "derived (granted i) (r_locks r) (fst (snd (add_lock (r_locks r) (pi_nodeid i) (pi_owner i)
      (pi_pid i) (uint (pi_ex i)) (pi_start i) (pi_end i) m)))"
    by (intro derived_add_lock) auto
  with assms have "locks_safe L" "wf_locks L"
    using derived_safe derived_wf unfolding res_safe_def by auto
  with assms(1) show ?thesis by (simp add: res_safe_def)
qed

lemma receive_sync_safe:
  assumes "receive_sync_now c ls msg io = (ls', io')" "ls_all res_safe ls" "wf_msg c msg" "sync_ok c ls msg"
  shows "ls_all res_safe ls'"
proof -
  define i where "i = info_bswap_in (big_endian c) (hd_info msg)"
  define t where "t = ls\<lparr>ls_last_plock_time := tv_sec (io_now io)\<rparr>"
  have wf: "wf_info i" using assms(3) by (simp add: wf_msg_def i_def)
  have t: "ls_all res_safe t" using assms(2) by (simp add: t_def)
  show ?thesis
  proof (cases "search_resource ls (pi_number i)")
    case None
    then show ?thesis
      using assms(1,2) by (auto simp: receive_sync_now_def find_resource_def Let_def t_def simp flip: i_def)
  next
    case (Some r)
    define r' where "r' = r\<lparr>r_last_access := io_now io\<rparr>"
    have r': "res_safe r'" "r_locks r' = r_locks r"
      using rsafe.search_keeps [OF Some assms(2)] rsafe.set_access by (auto simp: r'_def)
    have t': "ls_all res_safe (store_resource t r')" using rsafe.store_keeps [OF t r'(1)] .
    obtain rv L m where a: "add_lock (r_locks r) (pi_nodeid i) (pi_owner i) (pi_pid i)
        (uint (pi_ex i)) (pi_start i) (pi_end i) (io_mem io) = (rv, L, m)" by (metis prod_cases3)
    obtain rv2 r2 m2 where w: "add_waiter r' i (io_mem io) = (rv2, r2, m2)" by (metis prod_cases3)
    have k: "res_safe (clear_syncing_flag r' i)" "res_safe r2"
      using clear_syncing_keeps_safe r' rsafe.add_waiter_keeps [OF r'(1) _ wf w] by auto
    have l: "res_safe (r'\<lparr>r_locks := L\<rparr>)"
      if "hd_nodeid msg \<noteq> our_nodeid c" "hd_type msg = DLM_MSG_PLOCK_SYNC_LOCK"
      using add_lock_safe [OF r'(1) wf, of "io_mem io" rv L m] assms(4) that a r' Some
      by (simp add: sync_ok_def i_def)
    have "find_resource c t (pi_number i) False io = (0, Some r', store_resource t r', io)"
      using Some by (simp add: find_resource_def t_def r'_def Let_def)
    then show ?thesis
      using assms(1) k l t' r' a w
      by (auto simp: receive_sync_now_def Let_def rsafe.store_keeps simp flip: i_def t_def split: if_splits)
  qed
qed

lemma plock_step_safe:
  assumes "plock_step c ls ls'" "ls_all res_safe ls"
  shows "ls_all res_safe ls'"
  using assms
proof (cases rule: plock_step.cases)
  case step_plock then show ?thesis using rsafe.receive_plock_now_keeps [OF _ assms(2)] by simp
next
  case step_own then show ?thesis using rsafe.receive_own_now_keeps [OF _ assms(2)] by simp
next
  case step_sync then show ?thesis using receive_sync_safe [OF _ assms(2)] by simp
next
  case step_drop then show ?thesis using rsafe.receive_drop_now_keeps [OF _ assms(2)] by simp
next
  case step_save then show ?thesis using rsafe.save_message_keeps [OF _ assms(2)] by simp
next
  case step_kernel then show ?thesis using rsafe.dispatch_plock_keeps [OF _ assms(2)] by simp
next
  case step_idle then show ?thesis using rsafe.drop_resources_keeps [OF _ assms(2)] by simp
next
  case step_purge then show ?thesis using rsafe.purge_plocks_keeps [OF _ assms(2)] by simp
qed

lemma reachable_safe:
  assumes "(plock_step c)\<^sup>*\<^sup>* ls ls'" "ls_all res_safe ls"
  shows "ls_all res_safe ls'"
  using assms by (induction rule: rtranclp_induct) (auto intro: plock_step_safe)

section \<open>Every request is answered once\<close>

definition own_waiters :: "plock_cfg \<Rightarrow> lock_waiter list \<Rightarrow> nat" where
  "own_waiters c ws = length (filter (\<lambda>w. pi_nodeid (w_info w) = our_nodeid c) ws)"

text \<open>Requests of this node's kernel that have been answered or are queued.\<close>

definition ls_waiting :: "plock_cfg \<Rightarrow> plock_ls \<Rightarrow> nat" where
  "ls_waiting c ls = sum_list (map (own_waiters c \<circ> r_waiters) (ls_plock_resources ls))"

lemma own_waiters_simps [simp]:
  "own_waiters c [] = 0"
  "own_waiters c (w # ws) = (if pi_nodeid (w_info w) = our_nodeid c then 1 else 0) + own_waiters c ws"
  "own_waiters c (vs @ ws) = own_waiters c vs + own_waiters c ws"
  by (simp_all add: own_waiters_def)

lemma write_result_length [simp]:
  "length (io_written (write_result c ls i rv io)) = length (io_written io) + 1"
  by (simp add: write_result_def Let_def)

lemma do_waiters_loop_account:
  assumes "do_waiters_loop c ls r kept ws io = (r', io')"
  shows "length (io_written io') + own_waiters c (r_waiters r') =
         length (io_written io) + own_waiters c kept + own_waiters c ws"
  using assms
proof (induction ws arbitrary: r kept io)
  case (Cons w ws)
  show ?case
  proof (cases "fst (is_conflict (r_locks r) (w_info w) False)")
    case True
    with Cons.IH [of r "kept @ [w]" io] Cons.prems show ?thesis by simp
  next
    case False
    obtain rv r1 m where lock: "lock_resource r (w_info w) (io_mem io) = (rv, r1, m)"
      by (metis prod_cases3)
    define io2 where "io2 = (if pi_nodeid (w_info w) = our_nodeid c
      then write_result c ls (w_info w) rv (io\<lparr>io_mem := m\<rparr>) else io\<lparr>io_mem := m\<rparr>)"
    have "do_waiters_loop c ls r1 kept ws io2 = (r', io')"
      using Cons.prems False lock by (simp add: io2_def Let_def)
    from Cons.IH [OF this] show ?thesis by (simp add: io2_def)
  qed
qed auto

lemma do_waiters_account:
  "do_waiters c ls r io = (r', io') \<Longrightarrow>
     length (io_written io') + own_waiters c (r_waiters r') =
     length (io_written io) + own_waiters c (r_waiters r)"
  using do_waiters_loop_account [of c ls r "[]" "r_waiters r" io r' io'] by (simp add: do_waiters_def)

lemma add_lock_rv: "fst (add_lock L n w p e s f m) \<in> {0, -1, - ENOMEM}"
  by (simp add: add_lock_def split_beta)

lemma prepend_rv [simp]: "fst (prepend po res) = fst res"
  by (cases res) (simp add: prepend_def)

lemma lock_internal_rv: "fst (lock_internal i m L) \<in> {0, -1, - ENOMEM}"
proof (induction L arbitrary: m)
  case Nil
  then show ?case using add_lock_rv by simp
next
  case (Cons po L)
  have "fst (lock_case1 po L i m) \<in> {0, -1, - ENOMEM}"
    using add_lock_rv by (auto simp: lock_case1_def shrink_range2_def split: if_splits)
  moreover have "fst (lock_case2 po L i m) \<in> {0, -1, - ENOMEM}"
    by (auto simp: lock_case2_def add_lock_def split_beta)
  ultimately show ?case using Cons.IH by (simp add: Let_def)
qed

lemma lock_or_wait_account:
  assumes "lock_or_wait r i m = (rv, r', m')"
  shows "own_waiters c (r_waiters r') + (if pi_nodeid i = our_nodeid c \<and> rv \<noteq> - EINPROGRESS then 1 else 0) =
         own_waiters c (r_waiters r) + (if pi_nodeid i = our_nodeid c then 1 else 0)"
proof (cases "fst (is_conflict (r_locks r) i False)")
  case True
  with assms show ?thesis
    by (auto simp: lock_or_wait_def add_waiter_def split_beta errno_defs split: if_splits)
next
  case False
  then have l: "lock_resource r i m = (rv, r', m')" using assms by (simp add: lock_or_wait_def)
  then have "rv \<noteq> - EINPROGRESS"
    using lock_internal_rv [of i m "r_locks r"] by (auto simp: lock_resource_def errno_defs split: prod.splits)
  with lock_resource_frame(4) [OF l] show ?thesis by simp
qed

lemma sum_update_first:
  "find P xs = Some x \<Longrightarrow>
     sum_list (map f (update_first P (\<lambda>_. y) xs)) + f x = sum_list (map f xs) + (f y :: nat)"
  by (induction xs) (auto split: if_splits)

lemma sum_delete_first:
  "find P xs = Some x \<Longrightarrow> sum_list (map f (delete_first P xs)) + f x = (sum_list (map f xs) :: nat)"
  by (induction xs) (auto split: if_splits)

lemma ls_waiting_store:
  assumes "search_resource ls (r_number r) = Some r"  "r_number r' = r_number r"
  shows "ls_waiting c (put_resource c (store_resource ls r') r') + own_waiters c (r_waiters r) =
         ls_waiting c ls + own_waiters c (r_waiters r')"
proof -
  have st: "ls_waiting c (store_resource ls r') + own_waiters c (r_waiters r) =
      ls_waiting c ls + own_waiters c (r_waiters r')"
    using sum_update_first [of "\<lambda>x. r_number x = r_number r" "ls_plock_resources ls" r "own_waiters c \<circ> r_waiters" r'] assms
    by (simp add: ls_waiting_def store_resource_def search_resource_def)
  have "search_resource (store_resource ls r') (r_number r') = Some r'"
    using search_store [of ls r' "r_number r'"] assms by simp
  then have "ls_waiting c (remove_resource (store_resource ls r') r') + own_waiters c (r_waiters r') =
      ls_waiting c (store_resource ls r')"
    using sum_delete_first [of "\<lambda>x. r_number x = r_number r'" "ls_plock_resources (store_resource ls r')" r'
        "own_waiters c \<circ> r_waiters"]
    by (simp add: ls_waiting_def remove_resource_def search_resource_def)
  with st show ?thesis by (simp add: put_resource_def)
qed

lemma ls_waiting_touch [simp]: "ls_waiting c (ls\<lparr>ls_last_plock_time := t\<rparr>) = ls_waiting c ls"
  by (simp add: ls_waiting_def)

lemma settle_account:
  assumes "do_waiters c ls r1 io = (r2, io')" "search_resource ls (r_number r) = Some r" "r_number r1 = r_number r"
  shows "length (io_written io') + ls_waiting c (put_resource c (store_resource ls r2) r2) + own_waiters c (r_waiters r) =
         length (io_written io) + ls_waiting c ls + own_waiters c (r_waiters r1)"
  using ls_waiting_store [OF assms(2), of r2 c] do_waiters_number [OF assms(1)] do_waiters_account [OF assms(1)] assms(3)
  by simp

lemma receive_plock_op_account:
  assumes "receive_plock_op c ls i from r io = (ls', io')"
    and r: "search_resource ls (r_number r) = Some r"
    and "from = pi_nodeid i" "pi_optype i = DLM_PLOCK_OP_GET \<Longrightarrow> from = our_nodeid c"
  shows "length (io_written io') + ls_waiting c ls' =
         length (io_written io) + ls_waiting c ls + (if from = our_nodeid c then 1 else 0)"
proof (cases "pi_optype i")
  case DLM_PLOCK_OP_LOCK
  define t where "t = ls\<lparr>ls_last_plock_time := tv_sec (io_now io)\<rparr>"
  obtain rv r1 m where 1: "lock_or_wait r i (io_mem io) = (rv, r1, m)" by (metis prod_cases3)
  define io2 where "io2 = (if pi_nodeid i = our_nodeid c \<and> rv \<noteq> - EINPROGRESS
                 then write_result c t i rv (io\<lparr>io_mem := m\<rparr>) else io\<lparr>io_mem := m\<rparr>)"
  obtain r2 io3 where 2: "do_waiters c t r1 io2 = (r2, io3)" by fastforce
  have t: "search_resource t (r_number r) = Some r" "r_number r1 = r_number r"
    using r lock_or_wait_frame [OF 1] by (simp_all add: t_def)
  have res: "ls' = put_resource c (store_resource t r2) r2" "io' = io3"
    using assms(1) DLM_PLOCK_OP_LOCK
    by (simp_all add: receive_plock_op_def do_lock_def 1 Let_def 2 flip: io2_def t_def)
  have "length (io_written io2) = length (io_written io) +
      (if pi_nodeid i = our_nodeid c \<and> rv \<noteq> - EINPROGRESS then 1 else 0)" by (simp add: io2_def)
  with settle_account [OF 2 t] lock_or_wait_account [OF 1, of c] show ?thesis
    using assms(3) by (simp add: res t_def split: if_splits)
next
  case DLM_PLOCK_OP_UNLOCK
  define t where "t = ls\<lparr>ls_last_plock_time := tv_sec (io_now io)\<rparr>"
  obtain rv r1 m where 1: "unlock_resource r i (io_mem io) = (rv, r1, m)" by (metis prod_cases3)
  define io2 where "io2 = (if pi_nodeid i = our_nodeid c
                 then write_result c t i rv (io\<lparr>io_mem := m\<rparr>) else io\<lparr>io_mem := m\<rparr>)"
  obtain r2 io3 where 2: "do_waiters c t r1 io2 = (r2, io3)" by fastforce
  have t: "search_resource t (r_number r) = Some r" "r_number r1 = r_number r"
    using r unlock_resource_frame [OF 1] by (simp_all add: t_def)
  have res: "ls' = put_resource c (store_resource t r2) r2" "io' = io3"
    using assms(1) DLM_PLOCK_OP_UNLOCK
    by (simp_all add: receive_plock_op_def do_unlock_def 1 Let_def 2 flip: io2_def t_def)
  from settle_account [OF 2 t] unlock_resource_frame(4) [OF 1] show ?thesis
    using assms(3) by (simp add: res t_def io2_def split: if_splits)
next
  case DLM_PLOCK_OP_GET
  have "ls_waiting c (put_resource c ls r) = ls_waiting c ls"
    using sum_delete_first [of "\<lambda>x. r_number x = r_number r" "ls_plock_resources ls" r "own_waiters c \<circ> r_waiters"] r
    by (auto simp: put_resource_def ls_waiting_def remove_resource_def search_resource_def)
  with DLM_PLOCK_OP_GET assms show ?thesis
    by (auto simp: receive_plock_op_def do_get_def split_beta)
next
  case (OP_other b)
  with assms show ?thesis by (auto simp: receive_plock_op_def)
qed

lemma find_resource_account:
  assumes "find_resource c ls n create io = (rv, ro, ls', io')"
  shows "ls_waiting c ls' = ls_waiting c ls \<and> io_written io' = io_written io"
proof (cases "search_resource ls n")
  case None
  with assms show ?thesis
    by (auto simp: find_resource_def Let_def split_beta ls_waiting_def new_resource_def split: if_splits)
next
  case (Some r)
  define r' where "r' = r\<lparr>r_last_access := io_now io\<rparr>"
  have "ls_waiting c (store_resource ls r') = ls_waiting c ls"
    using sum_update_first [of "\<lambda>x. r_number x = n" "ls_plock_resources ls" r "own_waiters c \<circ> r_waiters" r']
      Some search_number [OF Some]
    by (simp add: ls_waiting_def store_resource_def search_resource_def r'_def)
  with assms Some show ?thesis by (auto simp: find_resource_def r'_def Let_def)
qed

lemma receive_plock_now_account:
  assumes "receive_plock_now c ls msg io = (ls', io')"
    and "\<not> cfgd_plock_ownership c" "ls_repl ls" "mem_ok (io_mem io)"
  shows "length (io_written io') + ls_waiting c ls' = length (io_written io) + ls_waiting c ls +
    (if hd_nodeid msg = our_nodeid c \<and>
        hd_nodeid msg = pi_nodeid (info_bswap_in (big_endian c) (hd_info msg)) then 1 else 0)"
proof -
  define i where "i = info_bswap_in (big_endian c) (hd_info msg)"
  have m: "mem_ok (io_mem (count_recv io))" "io_written (count_recv io) = io_written io"
    using assms(4) by (simp_all add: count_recv_def Let_def)
  obtain rv ro ls1 io1 where f: "find_resource c ls (pi_number i) True (count_recv io) = (rv, ro, ls1, io1)"
    by (metis prod_cases4)
  note v1 = find_resource_view [OF f assms(2,3) m(1)] and a1 = find_resource_account [OF f]
  then obtain r where ro: "ro = Some r" by auto
  have r: "search_resource ls1 (r_number r) = Some r" "r_owner r = 0"
    using v1 ro ls_repl_owner by auto
  note run = assms(1) [unfolded receive_plock_now_def Let_def, folded i_def]
  show ?thesis
  proof (cases "(pi_optype i = DLM_PLOCK_OP_GET \<and> hd_nodeid msg \<noteq> our_nodeid c) \<or> hd_nodeid msg \<noteq> pi_nodeid i")
    case True
    then show ?thesis using run m by (auto simp flip: i_def split: if_splits)
  next
    case False
    then have "receive_plock_op c ls1 i (hd_nodeid msg) r io1 = (ls', io')"
      using run assms(2) r by (auto simp: f ro split: if_splits)
    from receive_plock_op_account [OF this r(1)] False a1 m show ?thesis
      by (auto simp flip: i_def)
  qed
qed

end
