(* ===== verification/Section_Names.thy ===== *)
theory Section_Names imports Prelude begin

text \<open>
  Names of checkpoint sections, \<^verbatim>\<open>r<number>.<owner>\<close>: printing with \<^verbatim>\<open>snprintf("r%llu.%d")\<close> and
  reading back with \<^verbatim>\<open>sscanf\<close>, both of the C library, as far as \<^verbatim>\<open>plock.c\<close> uses them.
\<close>

section \<open>Printing\<close>

definition digit :: "nat \<Rightarrow> char" where
  "digit d = char_of (48 + d)"

fun print_dec :: "nat \<Rightarrow> string" where
  "print_dec n = (if n < 10 then [digit n] else print_dec (n div 10) @ [digit (n mod 10)])"

declare print_dec.simps [simp del]

definition print_int :: "int \<Rightarrow> string" where
  "print_int i = (if i < 0 then CHR ''-'' # print_dec (nat (- i)) else print_dec (nat i))"

definition section_id :: "u64 \<Rightarrow> u32 \<Rightarrow> string" where
  "section_id number owner = CHR ''r'' # print_dec (unat number) @ CHR ''.'' # print_int (sint owner)"

section \<open>Scanning\<close>

definition char_code :: "char \<Rightarrow> nat" where
  "char_code ch = of_char ch"

definition is_digit :: "char \<Rightarrow> bool" where
  "is_digit ch \<longleftrightarrow> 48 \<le> char_code ch \<and> char_code ch \<le> 57"

definition is_space :: "char \<Rightarrow> bool" where
  "is_space ch \<longleftrightarrow> char_code ch = 32 \<or> (9 \<le> char_code ch \<and> char_code ch \<le> 13)"

definition digits_value :: "string \<Rightarrow> nat" where
  "digits_value ds = foldl (\<lambda>a ch. 10 * a + (char_code ch - 48)) 0 ds"

text \<open>White space, an optional sign and digits; the result is the value and what follows.\<close>

definition scan_number :: "string \<Rightarrow> (int \<times> string) option" where
  "scan_number s0 =
     (let s1 = dropWhile is_space s0;
          neg = (case s1 of [] \<Rightarrow> False | ch # _ \<Rightarrow> ch = CHR ''-'');
          s2 = (case s1 of [] \<Rightarrow> [] | ch # t \<Rightarrow> if ch = CHR ''-'' \<or> ch = CHR ''+'' then t else s1);
          ds = takeWhile is_digit s2
      in if ds = [] then None
         else Some (if neg then - int (digits_value ds) else int (digits_value ds), dropWhile is_digit s2))"

text \<open>\<^verbatim>\<open>%llu\<close> saturates and negates modulo \<open>2 ^ 64\<close>; \<^verbatim>\<open>%d\<close> reads a long and truncates it.\<close>

definition to_ull :: "int \<Rightarrow> u64" where
  "to_ull v = (if \<bar>v\<bar> \<ge> 2 ^ 64 then - 1 else word_of_int v)"

definition to_int :: "int \<Rightarrow> u32" where
  "to_int v = word_of_int (max (- (2 ^ 63)) (min (2 ^ 63 - 1) v))"

text \<open>The number is \<open>None\<close> when nothing was converted, so the C variable is still uninitialised.\<close>

definition sscanf_section :: "string \<Rightarrow> u64 option \<times> u32" where
  "sscanf_section s =
     (case s of
        [] \<Rightarrow> (None, 0)
      | ch # s1 \<Rightarrow>
          if ch \<noteq> CHR ''r'' then (None, 0)
          else
            (case scan_number s1 of
               None \<Rightarrow> (None, 0)
             | Some (num, s2) \<Rightarrow>
                 (Some (to_ull num),
                  case s2 of
                    [] \<Rightarrow> 0
                  | ch2 # s3 \<Rightarrow>
                      if ch2 \<noteq> CHR ''.'' then 0
                      else (case scan_number s3 of None \<Rightarrow> 0 | Some (ow, _) \<Rightarrow> to_int ow))))"

section \<open>Round trip\<close>

lemma char_code_digit [simp]: "d < 10 \<Longrightarrow> char_code (digit d) = 48 + d"
  by (simp add: char_code_def digit_def)

lemma print_dec_digits: "list_all is_digit (print_dec n)"
proof (induction n rule: print_dec.induct)
  case (1 n)
  have d: "is_digit (digit d)" if "d < 10" for d using that by (simp add: is_digit_def)
  show ?case using 1 by (subst print_dec.simps) (simp add: d)
qed

lemma print_dec_nonempty [simp]: "print_dec n \<noteq> []"
  by (subst print_dec.simps) simp

lemma digits_value_snoc [simp]: "digits_value (ds @ [ch]) = 10 * digits_value ds + (char_code ch - 48)"
  by (simp add: digits_value_def)

lemma digits_value_print [simp]: "digits_value (print_dec n) = n"
proof (induction n rule: print_dec.induct)
  case (1 n)
  then show ?case
    by (cases "n < 10") (simp_all add: print_dec.simps [of n] digits_value_def [of "[_]"])
qed

lemma not_digit [simp]:
  "\<not> is_digit (CHR ''.'')" "\<not> is_digit (CHR ''-'')" "\<not> is_digit (CHR ''+'')"
  by (simp_all add: is_digit_def char_code_def)

lemma digit_not_space: "is_digit ch \<Longrightarrow> \<not> is_space ch"
  by (simp add: is_digit_def is_space_def)

lemma print_dec_Cons: obtains ch t where "print_dec n = ch # t" "is_digit ch"
  using print_dec_digits [of n] print_dec_nonempty [of n]
  by (cases "print_dec n") auto

text \<open>A suffix that ends the digits.\<close>

definition ends_number :: "string \<Rightarrow> bool" where
  "ends_number s \<longleftrightarrow> (s = [] \<or> \<not> is_digit (hd s))"

lemma split_digits:
  assumes "list_all is_digit ds" "ends_number s"
  shows "takeWhile is_digit (ds @ s) = ds \<and> dropWhile is_digit (ds @ s) = s"
proof -
  have "takeWhile is_digit s = [] \<and> dropWhile is_digit s = s"
    using assms(2) by (cases s) (auto simp: ends_number_def)
  moreover have "\<forall>ch \<in> set ds. is_digit ch" using assms(1) by (simp add: list_all_iff)
  ultimately show ?thesis by (simp add: takeWhile_append2 dropWhile_append2)
qed

lemma scan_print_dec:
  assumes "ends_number s"
  shows "scan_number (print_dec n @ s) = Some (int n, s)"
proof -
  obtain ch t where p: "print_dec n = ch # t" "is_digit ch" by (rule print_dec_Cons)
  have "ch \<noteq> CHR ''-''" "ch \<noteq> CHR ''+''" using p(2) not_digit by metis+
  with p have 1: "dropWhile is_space (print_dec n @ s) = print_dec n @ s"
    "(case print_dec n @ s of [] \<Rightarrow> False | c # _ \<Rightarrow> c = CHR ''-'') = False"
    "(case print_dec n @ s of [] \<Rightarrow> [] | c # u \<Rightarrow> if c = CHR ''-'' \<or> c = CHR ''+'' then u else print_dec n @ s)
       = print_dec n @ s"
    using digit_not_space by auto
  show ?thesis
    unfolding scan_number_def Let_def 1 by (simp add: split_digits [OF print_dec_digits assms])
qed

lemma scan_print_int:
  assumes "ends_number s"
  shows "scan_number (print_int i @ s) = Some (i, s)"
proof (cases "i < 0")
  case True
  have "\<not> is_space (CHR ''-'')" by (simp add: is_space_def char_code_def)
  with True show ?thesis
    by (simp add: print_int_def scan_number_def Let_def split_digits [OF print_dec_digits assms])
next
  case False
  then show ?thesis using scan_print_dec [OF assms, of "nat i"] by (simp add: print_int_def)
qed

lemma section_id_roundtrip: "sscanf_section (section_id number owner) = (Some number, owner)"
proof -
  have "ends_number (CHR ''.'' # t)" for t by (simp add: ends_number_def)
  then have 1: "scan_number (print_dec (unat number) @ CHR ''.'' # t) = Some (uint number, CHR ''.'' # t)" for t
    using scan_print_dec by simp
  have 2: "scan_number (print_int (sint owner)) = Some (sint owner, [])"
    using scan_print_int [of "[]" "sint owner"] by (simp add: ends_number_def)
  have "uint number < 2 ^ 64" "0 \<le> uint number" using uint_bounded [of number] by simp_all
  then have 3: "to_ull (uint number) = number" by (simp add: to_ull_def)
  have "- (2 ^ 31) \<le> sint owner" "sint owner < 2 ^ 31"
    using sint_ge [of owner] sint_lt [of owner] by simp_all
  then have 4: "to_int (sint owner) = owner" by (simp add: to_int_def min_def max_def)
  show ?thesis by (simp add: sscanf_section_def section_id_def 1 2 3 4)
qed

text \<open>\<^verbatim>\<open>SECTION_NAME_LEN\<close> is enough for every name and its final null byte.\<close>

definition SECTION_NAME_LEN :: nat where "SECTION_NAME_LEN = 34"

lemma length_print_dec: "n < 10 ^ k \<Longrightarrow> 0 < k \<Longrightarrow> length (print_dec n) \<le> k"
proof (induction k arbitrary: n)
  case (Suc k)
  show ?case
  proof (cases "n < 10")
    case False
    then have "0 < k" using Suc.prems by (cases k) auto
    moreover have "n div 10 < 10 ^ k" using Suc.prems(1) by (simp add: less_mult_imp_div_less)
    ultimately show ?thesis using Suc.IH [of "n div 10"] False by (simp add: print_dec.simps [of n])
  qed (simp add: print_dec.simps [of n])
qed simp

lemma section_id_length: "length (section_id number owner) < SECTION_NAME_LEN"
proof -
  have "unat number < 2 ^ LENGTH(64)" by (rule unsigned_less)
  then have "unat number < 10 ^ 20" by simp
  then have 1: "length (print_dec (unat number)) \<le> 20" by (intro length_print_dec) simp_all
  have "- (2 ^ 31) \<le> sint owner" "sint owner < 2 ^ 31"
    using sint_ge [of owner] sint_lt [of owner] by simp_all
  then have "nat (- sint owner) < 10 ^ 10" "nat (sint owner) < 10 ^ 10" by simp_all
  then have "length (print_int (sint owner)) \<le> 11"
    using length_print_dec [of "nat (- sint owner)" 10] length_print_dec [of "nat (sint owner)" 10]
    by (simp add: print_int_def)
  with 1 show ?thesis by (simp add: section_id_def SECTION_NAME_LEN_def)
qed

end
