(* ===== verification/Plock_Ckpt.thy ===== *)
theory Plock_Ckpt imports Plock_Reach Section_Names begin

text \<open>
  Transfer of plock state to a joining node through a checkpoint (\<^verbatim>\<open>plock.c\<close>): packing resources into
  sections, storing, retrieving and unpacking, and the signature that detects a damaged transfer.
  The checkpoint service is not part of the repository; its answers, after the retries, are
  arguments.
\<close>

section \<open>Packing\<close>

record pack_plock =
  pp_start :: u64
  pp_end :: u64
  pp_owner :: u64
  pp_pid :: u32
  pp_nodeid :: u32
  pp_ex :: u8
  pp_waiter :: u8

definition pack_lock :: "bool \<Rightarrow> posix_lock \<Rightarrow> pack_plock" where
  "pack_lock be po = \<lparr>pp_start = cpu_to_le64 be (po_start po), pp_end = cpu_to_le64 be (po_end po),
     pp_owner = cpu_to_le64 be (po_owner po), pp_pid = cpu_to_le32 be (po_pid po),
     pp_nodeid = cpu_to_le32 be (po_nodeid po), pp_ex = word_of_int (po_ex po), pp_waiter = 0\<rparr>"

definition pack_waiter :: "bool \<Rightarrow> dlm_plock_info \<Rightarrow> pack_plock" where
  "pack_waiter be i = \<lparr>pp_start = cpu_to_le64 be (pi_start i), pp_end = cpu_to_le64 be (pi_end i),
     pp_owner = cpu_to_le64 be (pi_owner i), pp_pid = cpu_to_le32 be (pi_pid i),
     pp_nodeid = cpu_to_le32 be (pi_nodeid i), pp_ex = pi_ex i, pp_waiter = 1\<rparr>"

definition PACK_SIZE :: nat where "PACK_SIZE = 40"

definition SECTION_BUF_SIZE :: nat where "SECTION_BUF_SIZE = 1024 * 1024"

text \<open>
  The entries are written one after another into the static \<^verbatim>\<open>section_buf\<close> without a check for its
  end; \<open>None\<close> is the undefined behaviour of writing past it.
\<close>

definition pack_section_buf :: "plock_cfg \<Rightarrow> resource \<Rightarrow> u32 \<Rightarrow> pack_plock list option" where
  "pack_section_buf c r owner =
     (if cfgd_plock_ownership c \<and> owner = our_nodeid c then Some []
      else
        (let pps =
           map (pack_lock (big_endian c)) (filter (\<lambda>po. po_flags po AND P_SYNCING = 0) (r_locks r)) @
           map (pack_waiter (big_endian c) \<circ> w_info) (filter (\<lambda>w. w_flags w AND P_SYNCING = 0) (r_waiters r))
         in if length pps * PACK_SIZE \<le> SECTION_BUF_SIZE then Some pps else None))"

section \<open>Unpacking\<close>

text \<open>
  Only the listed fields of a new block are written. \<open>garbage\<close> gives the other fields of a queued
  request, as a function of the contents the allocator left in the block.
\<close>

fun unpack_loop ::
  "bool \<Rightarrow> (u32 \<Rightarrow> dlm_plock_info) \<Rightarrow> pack_plock list \<Rightarrow> resource \<Rightarrow> mem \<Rightarrow> resource option \<times> mem" where
  "unpack_loop be garbage [] r m = (Some r, m)"
| "unpack_loop be garbage (pp # pps) r m =
     (let (ok, m') = malloc m in
      if \<not> ok then (None, m')
      else if pp_waiter pp = 0 then
        unpack_loop be garbage pps
          (r\<lparr>r_locks := r_locks r @ [\<lparr>po_pid = le32_to_cpu be (pp_pid pp), po_owner = le64_to_cpu be (pp_owner pp),
               po_start = le64_to_cpu be (pp_start pp), po_end = le64_to_cpu be (pp_end pp),
               po_ex = uint (pp_ex pp), po_nodeid = le32_to_cpu be (pp_nodeid pp), po_flags = junk m\<rparr>]\<rparr>) m'
      else
        unpack_loop be garbage pps
          (r\<lparr>r_waiters := r_waiters r @ [\<lparr>w_flags = junk m,
               w_info = (garbage (junk m))\<lparr>pi_start := le64_to_cpu be (pp_start pp),
                 pi_end := le64_to_cpu be (pp_end pp), pi_owner := le64_to_cpu be (pp_owner pp),
                 pi_pid := le32_to_cpu be (pp_pid pp), pi_nodeid := le32_to_cpu be (pp_nodeid pp),
                 pi_ex := pp_ex pp\<rparr>\<rparr>]\<rparr>) m')"

text \<open>
  The result is the return value, the resource number, the lock count, and the new state; \<open>None\<close> if
  the section name does not even contain a number, which leaves \<^verbatim>\<open>num\<close> uninitialised.
\<close>

definition unpack_section_buf ::
  "plock_cfg \<Rightarrow> (u32 \<Rightarrow> dlm_plock_info) \<Rightarrow> plock_ls \<Rightarrow> string \<Rightarrow> pack_plock list \<Rightarrow> plock_io \<Rightarrow>
     (int \<times> u64 \<times> u32 \<times> plock_ls \<times> plock_io) option" where
  "unpack_section_buf c garbage ls numbuf pps io =
     (let (ok, m) = malloc (io_mem io); io1 = io\<lparr>io_mem := m\<rparr> in
      if \<not> ok then Some (- ENOMEM, 0, 0, ls, io1)
      else
        (case sscanf_section numbuf of (num_read, owner) \<Rightarrow>
           if \<not> cfgd_plock_ownership c \<and> owner \<noteq> 0 then Some (-1, 0, 0, ls, io1)
           else if cfgd_plock_ownership c \<and> owner \<noteq> 0 \<and> pps \<noteq> [] then Some (-1, 0, 0, ls, io1)
           else
             (case num_read of
                None \<Rightarrow> None
              | Some num \<Rightarrow>
                  (let r = \<lparr>r_number = num, r_owner = owner,
                            r_flags = (if cfgd_plock_ownership c \<and> owner = 0 then R_GOT_UNOWN else 0),
                            r_last_access = io_now io, r_locks = [], r_waiters = [], r_pending = []\<rparr>
                   in case unpack_loop (big_endian c) garbage pps r m of
                        (None, m') \<Rightarrow> Some (- ENOMEM, num, 0, ls, io1\<lparr>io_mem := m'\<rparr>)
                      | (Some r', m') \<Rightarrow>
                          Some (0, num, of_nat (length pps),
                                ls\<lparr>ls_plock_resources := ls_plock_resources ls @ [r']\<rparr>,
                                io1\<lparr>io_mem := m'\<rparr>)))))"

section \<open>Storing\<close>

text \<open>Which owner a section is written with; \<open>None\<close> skips the resource.\<close>

definition ckpt_owner :: "plock_cfg \<Rightarrow> resource \<Rightarrow> u32 option" where
  "ckpt_owner c r =
     (if \<not> cfgd_plock_ownership c then Some 0
      else if r_owner r = -1 then None
      else if r_owner r = our_nodeid c then Some (our_nodeid c)
      else if r_owner r \<noteq> 0 then Some (r_owner r)
      else if \<not> got_unown r then Some (our_nodeid c)
      else Some 0)"

type_synonym ckpt_section = "string \<times> pack_plock list"

text \<open>
  The section loop: \<open>create\<close> says whether the service accepts a section. The result is \<open>None\<close> for
  undefined behaviour; otherwise whether every section was created, the sections, and the numbers
  of the first and last resource.
\<close>

fun store_loop ::
  "plock_cfg \<Rightarrow> (string \<Rightarrow> bool) \<Rightarrow> resource list \<Rightarrow> u64 \<Rightarrow> u64 \<Rightarrow> (bool \<times> ckpt_section list \<times> u64 \<times> u64) option"
where
  "store_loop c create [] nf nl = Some (True, [], nf, nl)"
| "store_loop c create (r # rs) nf nl =
     (case ckpt_owner c r of
        None \<Rightarrow> store_loop c create rs nf nl
      | Some owner \<Rightarrow>
          (let buf = section_id (r_number r) owner in
           case pack_section_buf c r owner of
             None \<Rightarrow> None
           | Some pps \<Rightarrow>
               (let nf' = (if nf = 0 then r_number r else nf) in
                if \<not> create buf then Some (False, [], nf', r_number r)
                else (case store_loop c create rs nf' (r_number r) of
                        None \<Rightarrow> None
                      | Some (ok, secs, f, l) \<Rightarrow> Some (ok, (buf, pps) # secs, f, l)))))"

definition plock_sig :: "u64 \<Rightarrow> u64 \<Rightarrow> u32 \<Rightarrow> u32" where
  "plock_sig nf nl r_count = ucast (0xFFFFFFFF AND nf) XOR ucast (0xFFFFFFFF AND nl) XOR r_count"

definition ckpt_r_count :: "resource list \<Rightarrow> u32" where
  "ckpt_r_count rs = of_nat (length (filter (\<lambda>r. r_owner r \<noteq> -1) rs))"

definition ckpt_p_count :: "resource list \<Rightarrow> u32" where
  "ckpt_p_count rs =
     of_nat (sum_list (map (\<lambda>r. length (r_locks r) + length (r_waiters r)) (filter (\<lambda>r. r_owner r \<noteq> -1) rs)))"

text \<open>Retries until the service answers; then only the handle is forgotten, whatever the answers.\<close>

definition unlink_checkpoint :: "bool \<Rightarrow> plock_ls \<Rightarrow> int \<times> plock_ls" where
  "unlink_checkpoint unlinked ls = (if unlinked then 0 else -1, ls\<lparr>ls_plock_ckpt_handle := 0\<rparr>)"

definition close_plock_checkpoint :: "plock_ls \<Rightarrow> plock_ls" where
  "close_plock_checkpoint ls =
     (if ls_plock_ckpt_handle ls = 0 then ls else ls\<lparr>ls_plock_ckpt_handle := 0\<rparr>)"

definition store_fail :: "plock_ls \<Rightarrow> u32 \<times> plock_ls" where
  "store_fail ls = (0xF0000000, ls\<lparr>ls_disable_plock := True\<rparr>)"

definition store_out ::
  "plock_ls \<Rightarrow> u64 \<Rightarrow> u64 \<Rightarrow> u32 \<Rightarrow> u32 \<Rightarrow> u32 \<times> plock_ls" where
  "store_out ls nf nl r_count p_count =
     (plock_sig nf nl r_count,
      ls\<lparr>ls_checkpoint_r_num_first := nf, ls_checkpoint_r_num_last := nl,
         ls_checkpoint_r_count := r_count, ls_checkpoint_p_count := p_count\<rparr>)"

text \<open>
  \<open>sig0\<close> is the caller's variable, which stays as it is when plocks are off. \<open>handle\<close> is the answer
  to opening the checkpoint. The third component are the sections written, if any were.
\<close>

definition store_plocks ::
  "plock_cfg \<Rightarrow> bool \<Rightarrow> u64 option \<Rightarrow> (string \<Rightarrow> bool) \<Rightarrow> u32 \<Rightarrow> plock_ls \<Rightarrow> plock_io \<Rightarrow>
     (u32 \<times> plock_ls \<times> ckpt_section list option) option" where
  "store_plocks c unlinked handle create sig0 ls io =
     (if \<not> cfgd_enable_plock c \<or> ls_disable_plock ls then Some (sig0, ls, None)
      else if ls_last_checkpoint_time ls > ls_last_plock_time ls then
        (case store_out ls (ls_checkpoint_r_num_first ls) (ls_checkpoint_r_num_last ls)
                (ls_checkpoint_r_count ls) (ls_checkpoint_p_count ls) of
           (sig, ls') \<Rightarrow> Some (sig, ls', None))
      else
        (let ls1 = snd (unlink_checkpoint unlinked (ls\<lparr>ls_last_checkpoint_time := tv_sec (io_now io)\<rparr>));
             rs = ls_plock_resources ls1
         in case handle of
              None \<Rightarrow> (case store_fail ls1 of (sig, ls') \<Rightarrow> Some (sig, ls', None))
            | Some h \<Rightarrow>
                (let ls2 = ls1\<lparr>ls_plock_ckpt_handle := h\<rparr> in
                 case store_loop c create rs 0 0 of
                   None \<Rightarrow> None
                 | Some (ok, secs, nf, nl) \<Rightarrow>
                     (case (if ok then store_out ls2 nf nl (ckpt_r_count rs) (ckpt_p_count rs)
                            else store_fail ls2) of
                        (sig, ls') \<Rightarrow> Some (sig, ls', Some secs)))))"

section \<open>Retrieving\<close>

text \<open>What iterating over the sections and reading them answers, step by step.\<close>

datatype ckpt_item =
    Section string "pack_plock list" | Section_no_id | Section_bad_len string | Ckpt_next_error | Ckpt_read_error

record retrieve_state =
  rs_ls :: plock_ls
  rs_io :: plock_io
  rs_r_count :: u32
  rs_p_count :: u32
  rs_first :: u64
  rs_last :: u64

fun retrieve_loop ::
  "plock_cfg \<Rightarrow> (u32 \<Rightarrow> dlm_plock_info) \<Rightarrow> ckpt_item list \<Rightarrow> retrieve_state \<Rightarrow> retrieve_state option" where
  "retrieve_loop c garbage [] s = Some s"
| "retrieve_loop c garbage (Section_no_id # items) s = retrieve_loop c garbage items s"
| "retrieve_loop c garbage (Section_bad_len buf # items) s = retrieve_loop c garbage items s"
| "retrieve_loop c garbage (Ckpt_next_error # items) s = Some s"
| "retrieve_loop c garbage (Ckpt_read_error # items) s = Some s"
| "retrieve_loop c garbage (Section buf pps # items) s =
     (case unpack_section_buf c garbage (rs_ls s) buf pps (rs_io s) of
        None \<Rightarrow> None
      | Some (error, r_num, lock_count, ls, io) \<Rightarrow>
          (let s1 = s\<lparr>rs_ls := ls, rs_io := io\<rparr> in
           if error < 0 then retrieve_loop c garbage items s1
           else retrieve_loop c garbage items
                  (s1\<lparr>rs_r_count := rs_r_count s1 + 1, rs_p_count := rs_p_count s1 + lock_count,
                      rs_first := (if rs_first s1 = 0 then r_num else rs_first s1), rs_last := r_num\<rparr>)))"

text \<open>\<open>items\<close> is \<open>None\<close> if the iteration could not be started.\<close>

definition retrieve_plocks ::
  "plock_cfg \<Rightarrow> (u32 \<Rightarrow> dlm_plock_info) \<Rightarrow> bool \<Rightarrow> ckpt_item list option \<Rightarrow> u32 \<Rightarrow> plock_ls \<Rightarrow> plock_io \<Rightarrow>
     (u32 \<times> plock_ls \<times> plock_io) option" where
  "retrieve_plocks c garbage opened items sig0 ls io =
     (if \<not> cfgd_enable_plock c \<or> ls_disable_plock ls then Some (sig0, ls, io)
      else if \<not> opened then Some (sig0, ls, io)
      else
        (case retrieve_loop c garbage (case items of None \<Rightarrow> [] | Some its \<Rightarrow> its)
                \<lparr>rs_ls = ls, rs_io = io, rs_r_count = 0, rs_p_count = 0, rs_first = 0, rs_last = 0\<rparr> of
           None \<Rightarrow> None
         | Some s \<Rightarrow> Some (plock_sig (rs_first s) (rs_last s) (rs_r_count s), rs_ls s, rs_io s)))"

section \<open>Packing and unpacking\<close>

lemma unpack_loop_append:
  "unpack_loop be g (xs @ ys) r m =
     (case unpack_loop be g xs r m of (None, m') \<Rightarrow> (None, m') | (Some r', m') \<Rightarrow> unpack_loop be g ys r' m')"
  by (induction xs arbitrary: r m) (simp_all add: Let_def split_beta)

lemma unpack_locks:
  assumes "mem_ok m" "wf_locks L"
  shows "\<exists>r' m'. unpack_loop be g (map (pack_lock be) L) r m = (Some r', m') \<and> mem_ok m' \<and>
           map unflag (r_locks r') = map unflag (r_locks r @ L) \<and> r_waiters r' = r_waiters r \<and>
           r_number r' = r_number r \<and> r_owner r' = r_owner r"
  using assms
proof (induction L arbitrary: r m)
  case (Cons po L)
  let ?po = "\<lparr>po_pid = po_pid po, po_owner = po_owner po, po_start = po_start po, po_end = po_end po,
    po_ex = po_ex po, po_nodeid = po_nodeid po, po_flags = junk m\<rparr>"
  let ?r = "r\<lparr>r_locks := r_locks r @ [?po]\<rparr>"
  have ex: "uint (word_of_int (po_ex po) :: u8) = po_ex po"
    using Cons.prems(2) by (auto simp: wf_lock_def)
  have "unflag ?po = unflag po" by (simp add: unflag_def)
  moreover obtain r' m' where "unpack_loop be g (map (pack_lock be) L) ?r (snd (malloc m)) = (Some r', m')" "mem_ok m'"
    "map unflag (r_locks r') = map unflag (r_locks ?r @ L)" "r_waiters r' = r_waiters ?r"
    "r_number r' = r_number ?r" "r_owner r' = r_owner ?r"
    using Cons.IH [of "snd (malloc m)" ?r] Cons.prems by auto
  ultimately show ?case
    using Cons.prems(1) by (auto simp: pack_lock_def [of _ po] split_beta ex)
qed simp

lemma unpack_waiters:
  assumes "mem_ok m"
  shows "\<exists>r' m'. unpack_loop be g (map (pack_waiter be) ws) r m = (Some r', m') \<and> mem_ok m' \<and>
           r_locks r' = r_locks r \<and> map w_core (r_waiters r') = map w_core (r_waiters r) @ map req_core ws \<and>
           r_number r' = r_number r \<and> r_owner r' = r_owner r"
  using assms
proof (induction ws arbitrary: r m)
  case (Cons i ws)
  let ?w = "\<lparr>w_flags = junk m, w_info = (g (junk m))\<lparr>pi_start := pi_start i, pi_end := pi_end i,
    pi_owner := pi_owner i, pi_pid := pi_pid i, pi_nodeid := pi_nodeid i, pi_ex := pi_ex i\<rparr>\<rparr>"
  let ?r = "r\<lparr>r_waiters := r_waiters r @ [?w]\<rparr>"
  have "w_core ?w = req_core i" by (simp add: req_core_def)
  moreover obtain r' m' where "unpack_loop be g (map (pack_waiter be) ws) ?r (snd (malloc m)) = (Some r', m')" "mem_ok m'"
    "r_locks r' = r_locks ?r" "map w_core (r_waiters r') = map w_core (r_waiters ?r) @ map req_core ws"
    "r_number r' = r_number ?r" "r_owner r' = r_owner ?r"
    using Cons.IH [of "snd (malloc m)" ?r] Cons.prems by auto
  ultimately show ?case
    using Cons.prems(1) by (auto simp: pack_waiter_def [of _ i] split_beta)
qed simp

text \<open>No lock or waiter is marked as being synced.\<close>

definition not_syncing :: "resource \<Rightarrow> bool" where
  "not_syncing r \<longleftrightarrow> list_all (\<lambda>po. po_flags po AND P_SYNCING = 0) (r_locks r) \<and>
     list_all (\<lambda>w. w_flags w AND P_SYNCING = 0) (r_waiters r)"

lemma pack_section_buf_all:
  assumes "not_syncing r" "pack_section_buf c r owner = Some pps" "\<not> (cfgd_plock_ownership c \<and> owner = our_nodeid c)"
  shows "pps = map (pack_lock (big_endian c)) (r_locks r) @
               map (pack_waiter (big_endian c)) (map w_info (r_waiters r))"
proof -
  have "filter (\<lambda>po. po_flags po AND P_SYNCING = 0) (r_locks r) = r_locks r"
    "filter (\<lambda>w. w_flags w AND P_SYNCING = 0) (r_waiters r) = r_waiters r"
    using assms(1) by (simp_all add: not_syncing_def list_all_iff)
  with assms(2,3) show ?thesis
    by (auto simp: pack_section_buf_def Let_def split: if_splits)
qed

text \<open>A section read back is the resource it was written from.\<close>

lemma unpack_pack:
  assumes "not_syncing r" "wf_locks (r_locks r)" "pack_section_buf c r 0 = Some pps"
    and "\<not> cfgd_plock_ownership c" "\<not> cfgd_plock_ownership c'" "big_endian c' = big_endian c" "mem_ok (io_mem io)"
  shows "\<exists>r' io'. unpack_section_buf c' g ls (section_id (r_number r) 0) pps io =
             Some (0, r_number r, of_nat (length pps), ls\<lparr>ls_plock_resources := ls_plock_resources ls @ [r']\<rparr>, io') \<and>
           mem_ok (io_mem io') \<and> r_number r' = r_number r \<and> r_owner r' = 0 \<and> rview r' = rview r"
proof -
  note pps = pack_section_buf_all [OF assms(1,3)]
  let ?be = "big_endian c"
  let ?r = "\<lparr>r_number = r_number r, r_owner = 0, r_flags = 0, r_last_access = io_now io, r_locks = [],
    r_waiters = [], r_pending = []\<rparr>"
  obtain r1 m1 where 1: "unpack_loop ?be g (map (pack_lock ?be) (r_locks r)) ?r (snd (malloc (io_mem io))) = (Some r1, m1)"
    "mem_ok m1" "map unflag (r_locks r1) = map unflag (r_locks ?r @ r_locks r)" "r_waiters r1 = r_waiters ?r"
    "r_number r1 = r_number ?r" "r_owner r1 = r_owner ?r"
    using unpack_locks [OF malloc_keeps_ok [OF assms(7)] assms(2)] by blast
  obtain r2 m2 where 2: "unpack_loop ?be g (map (pack_waiter ?be) (map w_info (r_waiters r))) r1 m1 = (Some r2, m2)"
    "mem_ok m2" "r_locks r2 = r_locks r1"
    "map w_core (r_waiters r2) = map w_core (r_waiters r1) @ map req_core (map w_info (r_waiters r))"
    "r_number r2 = r_number r1" "r_owner r2 = r_owner r1"
    using unpack_waiters [OF 1(2)] by blast
  have l: "unpack_loop ?be g pps ?r (snd (malloc (io_mem io))) = (Some r2, m2)"
    using pps assms(4) by (simp add: unpack_loop_append 1(1) 2(1) del: map_map)
  have "rview r2 = rview r" using 1 2 by (simp add: rview_def comp_def)
  with l 1 2 show ?thesis
    using assms by (auto simp: unpack_section_buf_def section_id_roundtrip split_beta Let_def)
qed

section \<open>A whole transfer\<close>

definition first_num :: "u64 \<Rightarrow> resource list \<Rightarrow> u64" where
  "first_num n rs = foldl (\<lambda>a r. if a = 0 then r_number r else a) n rs"

definition last_num :: "u64 \<Rightarrow> resource list \<Rightarrow> u64" where
  "last_num n rs = foldl (\<lambda>_ r. r_number r) n rs"

lemma num_simps [simp]:
  "first_num n [] = n" "first_num n (r # rs) = first_num (if n = 0 then r_number r else n) rs"
  "last_num n [] = n" "last_num n (r # rs) = last_num (r_number r) rs"
  by (simp_all add: first_num_def last_num_def)

lemma store_loop_sections:
  assumes "store_loop c (\<lambda>_. True) rs f l = Some (ok, secs, nf, nl)" "\<not> cfgd_plock_ownership c"
  shows "ok \<and> nf = first_num f rs \<and> nl = last_num l rs \<and>
         list_all2 (\<lambda>r sec. fst sec = section_id (r_number r) 0 \<and> pack_section_buf c r 0 = Some (snd sec)) rs secs"
  using assms
  by (induction rs arbitrary: f l secs) (auto simp: ckpt_owner_def Let_def split: option.splits)

lemma retrieve_loop_sections:
  assumes "list_all2 (\<lambda>r sec. fst sec = section_id (r_number r) 0 \<and> pack_section_buf c r 0 = Some (snd sec)) rs secs"
    and "list_all (\<lambda>r. not_syncing r \<and> wf_locks (r_locks r)) rs"
    and "\<not> cfgd_plock_ownership c" "\<not> cfgd_plock_ownership c'" "big_endian c' = big_endian c"
    and "mem_ok (io_mem (rs_io s))"
  shows "\<exists>s' rs'. retrieve_loop c' g (map (\<lambda>(buf, pps). Section buf pps) secs) s = Some s' \<and>
           mem_ok (io_mem (rs_io s')) \<and>
           rs_ls s' = (rs_ls s)\<lparr>ls_plock_resources := ls_plock_resources (rs_ls s) @ rs'\<rparr> \<and>
           list_all2 (\<lambda>r r'. r_number r' = r_number r \<and> r_owner r' = 0 \<and> rview r' = rview r) rs rs' \<and>
           rs_r_count s' = rs_r_count s + of_nat (length rs) \<and>
           rs_first s' = first_num (rs_first s) rs \<and> rs_last s' = last_num (rs_last s) rs"
  using assms
proof (induction rs arbitrary: secs s)
  case Nil
  then show ?case by simp
next
  case (Cons r rs)
  then obtain buf pps secs' where secs: "secs = (buf, pps) # secs'" "buf = section_id (r_number r) 0"
    "pack_section_buf c r 0 = Some pps" by (auto simp: list_all2_Cons1)
  obtain r1 io1 where u: "unpack_section_buf c' g (rs_ls s) buf pps (rs_io s) =
      Some (0, r_number r, of_nat (length pps),
        (rs_ls s)\<lparr>ls_plock_resources := ls_plock_resources (rs_ls s) @ [r1]\<rparr>, io1)"
    "mem_ok (io_mem io1)" "r_number r1 = r_number r" "r_owner r1 = 0" "rview r1 = rview r"
    using unpack_pack [of r c pps c' "rs_io s" g "rs_ls s"] Cons.prems secs by auto
  define s1 where "s1 = s\<lparr>rs_ls := (rs_ls s)\<lparr>ls_plock_resources := ls_plock_resources (rs_ls s) @ [r1]\<rparr>,
    rs_io := io1, rs_r_count := rs_r_count s + 1, rs_p_count := rs_p_count s + of_nat (length pps),
    rs_first := (if rs_first s = 0 then r_number r else rs_first s), rs_last := r_number r\<rparr>"
  have step: "retrieve_loop c' g (map (\<lambda>(buf, pps). Section buf pps) secs) s =
      retrieve_loop c' g (map (\<lambda>(buf, pps). Section buf pps) secs') s1"
    by (simp add: secs(1) u(1) s1_def Let_def)
  have "mem_ok (io_mem (rs_io s1))" by (simp add: s1_def u(2))
  then obtain s' rs' where IH: "retrieve_loop c' g (map (\<lambda>(buf, pps). Section buf pps) secs') s1 = Some s'"
    "mem_ok (io_mem (rs_io s'))"
    "rs_ls s' = (rs_ls s1)\<lparr>ls_plock_resources := ls_plock_resources (rs_ls s1) @ rs'\<rparr>"
    "list_all2 (\<lambda>r r'. r_number r' = r_number r \<and> r_owner r' = 0 \<and> rview r' = rview r) rs rs'"
    "rs_r_count s' = rs_r_count s1 + of_nat (length rs)"
    "rs_first s' = first_num (rs_first s1) rs" "rs_last s' = last_num (rs_last s1) rs"
    using Cons.IH [of secs' s1] Cons.prems secs by auto
  have "list_all2 (\<lambda>r r'. r_number r' = r_number r \<and> r_owner r' = 0 \<and> rview r' = rview r) (r # rs) (r1 # rs')"
    using IH(4) u by simp
  with IH u show ?case
    unfolding step by (intro exI [of _ s'] exI [of _ "r1 # rs'"]) (simp add: s1_def)
qed

lemma list_view_all2:
  "list_all2 (\<lambda>r r'. r_number r' = r_number r \<and> r_owner r' = 0 \<and> rview r' = rview r) rs rs' \<Longrightarrow>
     list_view rs' = list_view rs \<and> map r_number rs' = map r_number rs \<and> list_all (\<lambda>r. r_owner r = 0) rs'"
  by (induction rs rs' rule: list_all2_induct) (auto simp: fun_eq_iff)

lemma ckpt_transfer:
  assumes store: "store_plocks c u (Some h) (\<lambda>_. True) sig0 ls io = Some (sig, ls1, Some secs)"
    and c: "\<not> cfgd_plock_ownership c" "\<not> cfgd_plock_ownership c'" "big_endian c' = big_endian c"
    and ls: "ls_repl ls" "list_all (\<lambda>r. not_syncing r \<and> wf_locks (r_locks r)) (ls_plock_resources ls)"
    and new: "cfgd_enable_plock c'" "\<not> ls_disable_plock ls'" "ls_plock_resources ls' = []" "mem_ok (io_mem io')"
  shows "\<exists>rs io2. retrieve_plocks c' g True (Some (map (\<lambda>(buf, pps). Section buf pps) secs)) sig0' ls' io' =
             Some (sig, ls'\<lparr>ls_plock_resources := rs\<rparr>, io2) \<and> mem_ok (io_mem io2) \<and>
           ls_repl (ls'\<lparr>ls_plock_resources := rs\<rparr>) \<and> lsview (ls'\<lparr>ls_plock_resources := rs\<rparr>) = lsview ls"
proof -
  let ?rs = "ls_plock_resources ls"
  obtain ok nf nl where l: "store_loop c (\<lambda>_. True) ?rs 0 0 = Some (ok, secs, nf, nl)"
    and sig: "ok \<Longrightarrow> sig = plock_sig nf nl (ckpt_r_count ?rs)"
    using store
    by (auto simp: store_plocks_def Let_def unlink_checkpoint_def store_out_def split_beta split: if_splits option.splits)
  note st = store_loop_sections [OF l c(1)]
  have "list_all (\<lambda>r. r_owner r = 0) ?rs" using ls(1) by (simp add: ls_repl_def)
  then have "filter (\<lambda>r. r_owner r \<noteq> -1) ?rs = ?rs" by (auto simp: list_all_iff intro: filter_True)
  then have cnt: "ckpt_r_count ?rs = of_nat (length ?rs)" by (simp add: ckpt_r_count_def)
  define s where "s = \<lparr>rs_ls = ls', rs_io = io', rs_r_count = 0, rs_p_count = 0, rs_first = 0, rs_last = 0\<rparr>"
  obtain s' rs' where r: "retrieve_loop c' g (map (\<lambda>(buf, pps). Section buf pps) secs) s = Some s'"
    "mem_ok (io_mem (rs_io s'))" "rs_ls s' = ls'\<lparr>ls_plock_resources := rs'\<rparr>"
    "list_all2 (\<lambda>r r'. r_number r' = r_number r \<and> r_owner r' = 0 \<and> rview r' = rview r) ?rs rs'"
    "rs_r_count s' = of_nat (length ?rs)" "rs_first s' = first_num 0 ?rs" "rs_last s' = last_num 0 ?rs"
    using retrieve_loop_sections [OF conjunct2 [OF conjunct2 [OF conjunct2 [OF st]]] ls(2) c, of s g] new
    by (auto simp: s_def)
  note v = list_view_all2 [OF r(4)]
  have "ls_repl (ls'\<lparr>ls_plock_resources := rs'\<rparr>)" "lsview (ls'\<lparr>ls_plock_resources := rs'\<rparr>) = lsview ls"
    using v ls(1) by (simp_all add: ls_repl_def lsview_list)
  with r new st sig cnt show ?thesis
    by (intro exI [of _ rs'] exI [of _ "rs_io s'"]) (simp add: retrieve_plocks_def flip: s_def)
qed

text \<open>The messages saved during the transfer are then applied.\<close>

lemma process_saved_view:
  assumes "process_saved_loop c kept sms ls io = (ls', io')"
    and "\<forall>sm \<in> set sms. sm_type sm = DLM_MSG_PLOCK"
    and "\<not> cfgd_plock_ownership c" "ls_repl ls" "mem_ok (io_mem io)"
  shows "ls_repl ls' \<and> ls_saved_messages ls' = kept \<and>
         lsview ls' = foldl (\<lambda>V sm. view_deliver V (hd_nodeid (sm_buf sm))
           (info_bswap_in (big_endian c) (hd_info (sm_buf sm)))) (lsview ls) sms"
  using assms
proof (induction sms arbitrary: ls io)
  case Nil
  then show ?case by (auto simp: ls_repl_def lsview_list)
next
  case (Cons sm sms)
  obtain ls1 io1 where n: "receive_plock_now c ls (sm_buf sm) io = (ls1, io1)" by fastforce
  note v = receive_plock_now_view [OF n Cons.prems(3-5)]
  have "process_saved_loop c kept sms ls1 io1 = (ls', io')" using Cons.prems(1,2) n by simp
  from Cons.IH [OF this] v Cons.prems show ?case by simp
qed

end
