(* ===== verification/Plock_Props.thy ===== *)
theory Plock_Props imports Plock_Ckpt begin

text \<open>
  The properties of POSIX lock handling: refinement of the byte map, mutual exclusion and the
  normal form under every handler, the waiter queue, replication, and the error paths. Each
  property is stated over the definitions of the daemon's model, with a concrete instance where it
  has hypotheses.
\<close>

section \<open>Concrete data\<close>

definition ex_lock :: "u32 \<Rightarrow> int \<Rightarrow> u64 \<Rightarrow> u64 \<Rightarrow> posix_lock" where
  "ex_lock n e s f = \<lparr>po_pid = n, po_owner = 7, po_start = s, po_end = f, po_ex = e, po_nodeid = n, po_flags = 0\<rparr>"

definition ex_info :: "plock_op \<Rightarrow> u32 \<Rightarrow> u8 \<Rightarrow> u8 \<Rightarrow> u64 \<Rightarrow> u64 \<Rightarrow> dlm_plock_info" where
  "ex_info ty n e w s f = zero_info\<lparr>pi_optype := ty, pi_nodeid := n, pi_owner := 7, pi_pid := n,
     pi_ex := e, pi_wait := w, pi_start := s, pi_end := f, pi_number := 100\<rparr>"

definition ex_cfg :: "bool \<Rightarrow> u32 \<Rightarrow> plock_cfg" where
  "ex_cfg own n = \<lparr>our_nodeid = n, big_endian = False, cfgd_enable_plock = True, cfgd_plock_ownership = own,
     cfgd_plock_rate_limit = 0, cfgd_drop_resources_time = 10000, cfgd_drop_resources_count = 10,
     cfgd_drop_resources_age = 10000, need_fsid_translation = False\<rparr>"

definition ex_time :: timeval where
  "ex_time = \<lparr>tv_sec = 1000, tv_usec = 0\<rparr>"

definition ex_io :: "mem \<Rightarrow> plock_io" where
  "ex_io m = \<lparr>io_mem = m, io_now = ex_time, io_written = [], io_sent = [], io_read_count = 0,
     io_recv_count = 0, io_rate_delays = 0, io_read_time = ex_time, io_recv_time = ex_time,
     io_rate_last = ex_time, io_poll_drop = False, io_poll_ignore = False\<rparr>"

definition ex_resource :: "u32 \<Rightarrow> posix_lock list \<Rightarrow> dlm_plock_info list \<Rightarrow> resource" where
  "ex_resource ow L ws = \<lparr>r_number = 100, r_owner = ow, r_flags = 0, r_last_access = ex_time, r_locks = L,
     r_waiters = map (\<lambda>i. \<lparr>w_flags = 0, w_info = i\<rparr>) ws, r_pending = []\<rparr>"

definition ex_ls :: "resource list \<Rightarrow> plock_ls" where
  "ex_ls rs = \<lparr>ls_name = ''alpha'', ls_global_id = 5, ls_save_plocks = False, ls_disable_plock = False,
     ls_associated_mg_id = 0, ls_saved_messages = [], ls_plock_resources = rs,
     ls_last_checkpoint_time = 0, ls_last_plock_time = 0, ls_drop_resources_last = ex_time,
     ls_checkpoint_r_num_first = 0, ls_checkpoint_r_num_last = 0, ls_checkpoint_r_count = 0,
     ls_checkpoint_p_count = 0, ls_plock_ckpt_handle = 0\<rparr>"

lemmas ex_defs = ex_lock_def ex_info_def ex_cfg_def ex_time_def ex_io_def ex_resource_def ex_ls_def zero_info_def

lemmas list_eval = locks_inv_def wf_locks_def wf_lock_def own_disjoint_def locks_safe_def ranges_overlap_def
  wf_info_def mine_def lock_case1_def lock_case2_def overlap_type_def add_lock_def not_ex_def
  convert_lock_def prepend_def shrink_range_def shrink_range2_def

section \<open>The lock list implements the POSIX byte map\<close>

text \<open>C1: Granting a request (\<^verbatim>\<open>lock_internal\<close>) on a lock list in normal form succeeds, changes the
  mode of exactly the requested bytes of exactly the requesting owner, as F_SETLK asks, and leaves a
  list in normal form in which no two owners conflict.\<close>

theorem lock_internal_refines:
  assumes "locks_inv L" "wf_info i" "mem_ok m" "\<not> fst (is_conflict L i False)"
  shows "fst (lock_internal i m L) = 0 \<and>
         held (fst (snd (lock_internal i m L))) = spec_lock (held L) i \<and>
         locks_inv (fst (snd (lock_internal i m L)))"
  using lock_internal_abs [OF assms] by simp

theorem lock_internal_refines_witness:
  "held (fst (snd (lock_internal (ex_info DLM_PLOCK_OP_LOCK 1 0 0 3 5) [] [ex_lock 1 1 0 9, ex_lock 2 0 20 30]))) =
     spec_lock (held [ex_lock 1 1 0 9, ex_lock 2 0 20 30]) (ex_info DLM_PLOCK_OP_LOCK 1 0 0 3 5) \<and>
   fst (snd (lock_internal (ex_info DLM_PLOCK_OP_LOCK 1 0 0 3 5) [] [ex_lock 1 1 0 9, ex_lock 2 0 20 30])) =
     [ex_lock 1 0 3 5, ex_lock 2 0 20 30, ex_lock 1 1 0 2, ex_lock 1 1 6 9]"
proof -
  let ?L = "[ex_lock 1 1 0 9, ex_lock 2 0 20 30]" and ?i = "ex_info DLM_PLOCK_OP_LOCK 1 0 0 3 5"
  have "locks_inv ?L" "wf_info ?i" "mem_ok []" "\<not> fst (is_conflict ?L ?i False)"
    by (simp_all add: ex_defs list_eval)
  from lock_internal_refines [OF this] show ?thesis
    by (simp only: simp_thms) (simp add: ex_defs list_eval Let_def)
qed

text \<open>C2: Releasing a range (\<^verbatim>\<open>unlock_internal\<close>) succeeds, takes exactly the requested bytes from
  the requesting owner, whatever mixture of locks covers them, and keeps the normal form.\<close>

theorem unlock_internal_refines:
  assumes "locks_inv L" "wf_info i" "mem_ok m"
  shows "fst (unlock_internal i 0 m L) = 0 \<and>
         held (fst (snd (unlock_internal i 0 m L))) = spec_unlock (held L) i \<and>
         locks_inv (fst (snd (unlock_internal i 0 m L)))"
  using unlock_internal_abs [OF assms] by simp

theorem unlock_internal_refines_witness:
  "held (fst (snd (unlock_internal (ex_info DLM_PLOCK_OP_UNLOCK 1 0 0 3 25) 0 [] [ex_lock 1 1 0 9, ex_lock 1 0 20 30]))) =
     spec_unlock (held [ex_lock 1 1 0 9, ex_lock 1 0 20 30]) (ex_info DLM_PLOCK_OP_UNLOCK 1 0 0 3 25) \<and>
   fst (snd (unlock_internal (ex_info DLM_PLOCK_OP_UNLOCK 1 0 0 3 25) 0 [] [ex_lock 1 1 0 9, ex_lock 1 0 20 30])) =
     [ex_lock 1 1 0 2, ex_lock 1 0 26 30]"
proof -
  let ?L = "[ex_lock 1 1 0 9, ex_lock 1 0 20 30]" and ?i = "ex_info DLM_PLOCK_OP_UNLOCK 1 0 0 3 25"
  have "locks_inv ?L" "wf_info ?i" "mem_ok []" by (simp_all add: ex_defs list_eval)
  from unlock_internal_refines [OF this] show ?thesis
    by (simp only: simp_thms) (simp add: ex_defs list_eval Let_def)
qed

text \<open>C3: The conflict test (\<^verbatim>\<open>is_conflict\<close>) is exact: it reports a conflict if and only if some other
  owner holds a requested byte and one of the two modes is exclusive. A GET answers with the mode,
  range and process of a lock that is in the way.\<close>

theorem is_conflict_exact:
  assumes "locks_inv L" "wf_info i"
  shows "(fst (is_conflict L i get) \<longleftrightarrow> spec_conflict (held L) i) \<and>
         (fst (is_conflict L i True) \<longrightarrow>
            (\<exists>po \<in> set L. who po \<noteq> pi_who i \<and> bytes po \<inter> pi_bytes i \<noteq> {} \<and> (pi_ex i \<noteq> 0 \<or> po_ex po \<noteq> 0) \<and>
               snd (is_conflict L i True) = i\<lparr>pi_ex := word_of_int (po_ex po), pi_pid := po_pid po,
                 pi_start := po_start po, pi_end := po_end po\<rparr>))"
proof -
  have "\<exists>po \<in> set L. who po \<noteq> pi_who i \<and> bytes po \<inter> pi_bytes i \<noteq> {} \<and> (pi_ex i \<noteq> 0 \<or> po_ex po \<noteq> 0) \<and>
      snd (is_conflict L i True) = i\<lparr>pi_ex := word_of_int (po_ex po), pi_pid := po_pid po,
        pi_start := po_start po, pi_end := po_end po\<rparr>" if "fst (is_conflict L i True)"
  proof -
    from is_conflict_get [OF that] obtain po where po: "po \<in> set L" "blocks i po"
      "snd (is_conflict L i True) = i\<lparr>pi_ex := word_of_int (po_ex po), pi_pid := po_pid po,
        pi_start := po_start po, pi_end := po_end po\<rparr>" by blast
    have "wf_lock po" using po(1) assms(1) wf_locksD by (auto simp: locks_inv_def)
    with po assms(2) overlap_pi_bytes [of po i] show ?thesis
      by (intro bexI [of _ po]) (simp_all add: blocks_def)
  qed
  with conflict_held [OF assms] show ?thesis by blast
qed

theorem is_conflict_exact_witness:
  "is_conflict [ex_lock 1 0 0 9, ex_lock 2 1 20 30] (ex_info DLM_PLOCK_OP_GET 1 1 0 5 25) True =
     (True, (ex_info DLM_PLOCK_OP_GET 1 1 0 20 30)\<lparr>pi_pid := 2\<rparr>) \<and>
   spec_conflict (held [ex_lock 1 0 0 9, ex_lock 2 1 20 30]) (ex_info DLM_PLOCK_OP_GET 1 1 0 5 25)"
proof -
  let ?L = "[ex_lock 1 0 0 9, ex_lock 2 1 20 30]" and ?i = "ex_info DLM_PLOCK_OP_GET 1 1 0 5 25"
  have h: "locks_inv ?L" "wf_info ?i" by (simp_all add: ex_defs list_eval)
  have "is_conflict ?L ?i True = (True, (ex_info DLM_PLOCK_OP_GET 1 1 0 20 30)\<lparr>pi_pid := 2\<rparr>)"
    by (simp add: ex_defs list_eval)
  with is_conflict_exact [OF h, of True] show ?thesis by simp
qed

section \<open>Mutual exclusion\<close>

lemmas op_eval = receive_plock_now_def receive_plock_op_def do_lock_def do_unlock_def lock_or_wait_def
  lock_resource_def unlock_resource_def do_waiters_def add_waiter_def write_result_def put_resource_def
  store_resource_def remove_resource_def find_resource_def search_resource_def new_resource_def
  count_recv_def info_bswap_in_def info_bswap_out_def le32_to_cpu_def le64_to_cpu_def cpu_to_le32_def cpu_to_le64_def
  errno_defs

definition ex_msg :: "dlm_plock_info \<Rightarrow> plock_msg" where
  "ex_msg i = \<lparr>hd_type = DLM_MSG_PLOCK, hd_nodeid = pi_nodeid i, hd_info = i\<rparr>"






text \<open>While allocations succeed, the handler of a replicated operation keeps every resource in
  normal form: well-formed ranges, disjoint ranges per owner, no conflict between owners, and
  well-formed queued requests.\<close>

theorem receive_plock_keeps_normal_form:
  assumes "receive_plock c ls msg io = (ls', io')" "ls_all res_inv ls" "mem_ok (io_mem io)" "wf_msg c msg"
  shows "ls_all res_inv ls' \<and> mem_ok (io_mem io')"
  by (rule rinv.receive_plock_keeps [OF assms])

theorem receive_plock_keeps_normal_form_witness:
  "ls_all res_inv (fst (receive_plock (ex_cfg False 1)
     (ex_ls [ex_resource 0 [ex_lock 1 1 0 9] []]) (ex_msg (ex_info DLM_PLOCK_OP_LOCK 1 0 0 3 5)) (ex_io []))) \<and>
   map r_locks (ls_plock_resources (fst (receive_plock (ex_cfg False 1)
     (ex_ls [ex_resource 0 [ex_lock 1 1 0 9] []]) (ex_msg (ex_info DLM_PLOCK_OP_LOCK 1 0 0 3 5)) (ex_io [])))) =
     [[ex_lock 1 0 3 5, ex_lock 1 1 0 2, ex_lock 1 1 6 9]]"
proof -
  let ?c = "ex_cfg False 1" and ?ls = "ex_ls [ex_resource 0 [ex_lock 1 1 0 9] []]"
  let ?msg = "ex_msg (ex_info DLM_PLOCK_OP_LOCK 1 0 0 3 5)"
  have "ls_all res_inv ?ls" "mem_ok (io_mem (ex_io []))" "wf_msg ?c ?msg"
    by (simp_all add: ls_all_def res_inv_def res_safe_def list_eval ex_defs wf_msg_def ex_msg_def op_eval)
  from receive_plock_keeps_normal_form [OF prod.collapse [symmetric] this] show ?thesis
    by (simp only: simp_thms) (simp add: receive_plock_def op_eval list_eval ex_defs ex_msg_def Let_def)
qed

section \<open>Replication\<close>





text \<open>A joining node that reads the sections another node has stored computes the same signature,
  and after applying the messages it saved meanwhile it has exactly the state the storing node has
  after those messages.\<close>

theorem joining_node_agrees:
  assumes "store_plocks c u (Some h) (\<lambda>_. True) sig0 ls io = Some (sig, ls1, Some secs)"
    and "\<not> cfgd_plock_ownership c" "\<not> cfgd_plock_ownership c'" "big_endian c' = big_endian c"
    and "ls_repl ls" "list_all (\<lambda>r. not_syncing r \<and> wf_locks (r_locks r)) (ls_plock_resources ls)"
    and "cfgd_enable_plock c'" "\<not> ls_disable_plock ls'" "ls_plock_resources ls' = []" "mem_ok (io_mem io')"
    and "\<forall>sm \<in> set (ls_saved_messages ls'). sm_type sm = DLM_MSG_PLOCK"
  shows "\<exists>ls2 io2. retrieve_plocks c' garbage True (Some (map (\<lambda>(buf, pps). Section buf pps) secs)) sig0' ls' io' =
             Some (sig, ls2, io2) \<and>
           lsview (fst (process_saved_plocks c' ls2 io2)) =
             foldl (\<lambda>V sm. view_deliver V (hd_nodeid (sm_buf sm)) (info_bswap_in (big_endian c') (hd_info (sm_buf sm))))
               (lsview ls) (ls_saved_messages ls')"
proof -
  obtain rs io2 where r: "retrieve_plocks c' garbage True (Some (map (\<lambda>(buf, pps). Section buf pps) secs)) sig0' ls' io' =
      Some (sig, ls'\<lparr>ls_plock_resources := rs\<rparr>, io2)" "mem_ok (io_mem io2)"
    "ls_repl (ls'\<lparr>ls_plock_resources := rs\<rparr>)" "lsview (ls'\<lparr>ls_plock_resources := rs\<rparr>) = lsview ls"
    using ckpt_transfer [OF assms(1-10)] by blast
  let ?ls2 = "ls'\<lparr>ls_plock_resources := rs\<rparr>"
  have "process_saved_loop c' [] (ls_saved_messages ls') ?ls2 io2 = process_saved_plocks c' ?ls2 io2"
    by (simp add: process_saved_plocks_def)
  from process_saved_view [OF trans [OF this prod.collapse [symmetric]] assms(11,3) r(3,2)] r(1,4) show ?thesis
    by auto
qed

definition ex_store_ls :: plock_ls where
  "ex_store_ls = ex_ls [ex_resource 0 [ex_lock 1 1 0 9] [ex_info DLM_PLOCK_OP_LOCK 2 1 1 5 7]]"

definition ex_join_ls :: plock_ls where
  "ex_join_ls = (ex_ls [])\<lparr>ls_save_plocks := True, ls_saved_messages :=
     [\<lparr>sm_nodeid = 1, sm_type = DLM_MSG_PLOCK, sm_buf = ex_msg (ex_info DLM_PLOCK_OP_UNLOCK 1 0 0 0 9)\<rparr>]\<rparr>"

definition ex_secs :: "ckpt_section list" where
  "ex_secs = [(section_id 100 0,
     [\<lparr>pp_start = 0, pp_end = 9, pp_owner = 7, pp_pid = 1, pp_nodeid = 1, pp_ex = 1, pp_waiter = 0\<rparr>,
      \<lparr>pp_start = 5, pp_end = 7, pp_owner = 7, pp_pid = 2, pp_nodeid = 2, pp_ex = 1, pp_waiter = 1\<rparr>])]"

lemmas ckpt_eval = store_plocks_def ckpt_owner_def pack_section_buf_def pack_lock_def pack_waiter_def
  PACK_SIZE_def SECTION_BUF_SIZE_def P_SYNCING_def unlink_checkpoint_def store_out_def store_fail_def
  cpu_to_le32_def cpu_to_le64_def

theorem joining_node_agrees_witness:
  "\<exists>ls2 io2. retrieve_plocks (ex_cfg False 3) (\<lambda>_. zero_info) True
       (Some (map (\<lambda>(buf, pps). Section buf pps) ex_secs)) 0 ex_join_ls (ex_io []) =
         Some (plock_sig 100 100 1, ls2, io2) \<and>
     lsview (fst (process_saved_plocks (ex_cfg False 3) ls2 io2)) 100 =
       ([ex_lock 2 1 5 7], [])"
proof -
  let ?c = "ex_cfg False 1" and ?c' = "ex_cfg False 3"
  have r: "ckpt_r_count (ls_plock_resources ex_store_ls) = 1" by (simp add: ckpt_r_count_def ex_store_ls_def ex_defs)
  have "store_plocks ?c True (Some 8) (\<lambda>_. True) 0 ex_store_ls (ex_io []) =
      Some (plock_sig 100 100 1,
        ex_store_ls\<lparr>ls_last_checkpoint_time := 1000, ls_plock_ckpt_handle := 8, ls_checkpoint_r_num_first := 100,
          ls_checkpoint_r_num_last := 100, ls_checkpoint_r_count := 1,
          ls_checkpoint_p_count := ckpt_p_count (ls_plock_resources ex_store_ls)\<rparr>, Some ex_secs)"
    using r by (simp add: ckpt_eval ex_store_ls_def ex_secs_def ex_defs Let_def)
  moreover have "\<not> cfgd_plock_ownership ?c" "\<not> cfgd_plock_ownership ?c'" "big_endian ?c' = big_endian ?c"
    by (simp_all add: ex_defs)
  moreover have "ls_repl ex_store_ls"
    "list_all (\<lambda>r. not_syncing r \<and> wf_locks (r_locks r)) (ls_plock_resources ex_store_ls)"
    by (simp_all add: ls_repl_def ex_store_ls_def not_syncing_def wf_locks_def wf_lock_def ex_defs)
  moreover have "cfgd_enable_plock ?c'" "\<not> ls_disable_plock ex_join_ls" "ls_plock_resources ex_join_ls = []"
    "mem_ok (io_mem (ex_io []))" "\<forall>sm \<in> set (ls_saved_messages ex_join_ls). sm_type sm = DLM_MSG_PLOCK"
    by (simp_all add: ex_join_ls_def ex_defs)
  ultimately obtain ls2 io2 where "retrieve_plocks ?c' (\<lambda>_. zero_info) True
       (Some (map (\<lambda>(buf, pps). Section buf pps) ex_secs)) 0 ex_join_ls (ex_io []) = Some (plock_sig 100 100 1, ls2, io2)"
    "lsview (fst (process_saved_plocks ?c' ls2 io2)) =
       foldl (\<lambda>V sm. view_deliver V (hd_nodeid (sm_buf sm)) (info_bswap_in (big_endian ?c') (hd_info (sm_buf sm))))
         (lsview ex_store_ls) (ls_saved_messages ex_join_ls)"
    using joining_node_agrees [of ?c True 8 0 ex_store_ls "ex_io []" "plock_sig 100 100 1" _ ex_secs ?c' ex_join_ls "ex_io []"]
    by blast
  then show ?thesis
    by (intro exI [of _ ls2] exI [of _ io2])
       (simp add: ex_join_ls_def ex_store_ls_def ex_msg_def lsview_def rview_def view_deliver_def view_op_def view_unlock_def view_lock_def
         req_core_def unflag_def op_eval list_eval ex_defs Let_def)
qed

section \<open>Requests and the waiter queue\<close>



text \<open>Running the queue leaves only requests that are still in conflict, provided the waiting
  requests are of different owners and none of them would downgrade bytes its owner already holds
  exclusively.\<close>

theorem do_waiters_leaves_blocked:
  assumes "do_waiters c ls r io = (r', io')" "res_inv r" "mem_ok (io_mem io)"
    and "distinct (map (pi_who \<circ> w_info) (r_waiters r))"
    and "\<forall>w \<in> set (r_waiters r). monotone_req (held (r_locks r)) (w_info w)"
  shows "(\<forall>w \<in> set (r_waiters r'). fst (is_conflict (r_locks r') (w_info w) False)) \<and>
         subseq (r_waiters r') (r_waiters r)"
  using do_waiters_drained [OF assms] do_waiters_loop_subseq [OF assms(1) [unfolded do_waiters_def]] by simp

theorem do_waiters_leaves_blocked_witness:
  "r_waiters (fst (do_waiters (ex_cfg False 2) (ex_ls [])
     (ex_resource 0 [ex_lock 1 1 20 29] [ex_info DLM_PLOCK_OP_LOCK 2 1 1 5 7, ex_info DLM_PLOCK_OP_LOCK 3 0 1 7 9]) (ex_io [])))
     = [\<lparr>w_flags = 0, w_info = ex_info DLM_PLOCK_OP_LOCK 3 0 1 7 9\<rparr>] \<and>
   fst (is_conflict (r_locks (fst (do_waiters (ex_cfg False 2) (ex_ls [])
     (ex_resource 0 [ex_lock 1 1 20 29] [ex_info DLM_PLOCK_OP_LOCK 2 1 1 5 7, ex_info DLM_PLOCK_OP_LOCK 3 0 1 7 9]) (ex_io []))))
     (ex_info DLM_PLOCK_OP_LOCK 3 0 1 7 9) False)"
proof -
  let ?r = "ex_resource 0 [ex_lock 1 1 20 29] [ex_info DLM_PLOCK_OP_LOCK 2 1 1 5 7, ex_info DLM_PLOCK_OP_LOCK 3 0 1 7 9]"
  have "res_inv ?r" "mem_ok (io_mem (ex_io []))" "distinct (map (pi_who \<circ> w_info) (r_waiters ?r))"
    by (simp_all add: res_inv_def res_safe_def list_eval ex_defs)
  moreover have "\<forall>w \<in> set (r_waiters ?r). monotone_req (held (r_locks ?r)) (w_info w)"
    by (simp add: monotone_req_def held_def ex_defs)
  moreover have "r_waiters (fst (do_waiters (ex_cfg False 2) (ex_ls []) ?r (ex_io []))) =
      [\<lparr>w_flags = 0, w_info = ex_info DLM_PLOCK_OP_LOCK 3 0 1 7 9\<rparr>]"
    by (simp add: op_eval list_eval ex_defs Let_def)
  ultimately show ?thesis
    using do_waiters_leaves_blocked [OF prod.collapse [symmetric], of ?r "ex_io []" "ex_cfg False 2" "ex_ls []"] by simp
qed


section \<open>Names, error paths and uninitialised memory\<close>

text \<open>C8: The name of a checkpoint section, printed from a resource number and an owner, fits
  \<^verbatim>\<open>SECTION_NAME_LEN\<close> with its null byte and is read back as the same number and owner.\<close>

theorem section_name_roundtrip:
  "length (section_id number owner) < SECTION_NAME_LEN \<and>
   sscanf_section (section_id number owner) = (Some number, owner)"
  by (simp add: section_id_length section_id_roundtrip)



text \<open>With the old kernel interface the kernel names a file system by its mount group id. A request
  that fails early, here because plocks are disabled on the lockspace, is written back with the id
  of the lockspace instead, unlike the results that go through \<^verbatim>\<open>write_result\<close>.\<close>

theorem process_plocks_fail_keeps_ls_id:
  "let c = (ex_cfg False 1)\<lparr>need_fsid_translation := True\<rparr>;
       ls = (ex_ls [])\<lparr>ls_disable_plock := True, ls_associated_mg_id := 77\<rparr>;
       i = (ex_info DLM_PLOCK_OP_LOCK 0 1 0 0 9)\<lparr>pi_fsid := 77\<rparr>
   in map pi_fsid (io_written (snd (the (process_plocks c (\<lambda>_. None) False False (Some i) [ls] (ex_io []))))) = [5] \<and>
      map pi_fsid (io_written (write_result c ls (i\<lparr>pi_fsid := 5\<rparr>) (- ENOSYS) (ex_io []))) = [77]"
  by (simp add: process_plocks_def limit_plocks_def mg_to_ls_id_def find_ls_id_def write_fail_def write_result_def
      ex_defs Let_def)


text \<open>A queued request carries uninitialised flags. If the allocator hands out a block in which the
  lowest bit of the flag word is set, the request counts as being synced and the checkpoint written
  for a joining node leaves it out, although no ownership is in use.\<close>

theorem uninitialised_flags_drop_waiter:
  "let ls = fst (receive_plock_now (ex_cfg False 1) (ex_ls [ex_resource 0 [ex_lock 1 1 0 9] []])
               (ex_msg (ex_info DLM_PLOCK_OP_LOCK 2 1 1 5 7)) (ex_io [(True, 1)]))
   in map (map w_info \<circ> r_waiters) (ls_plock_resources ls) = [[ex_info DLM_PLOCK_OP_LOCK 2 1 1 5 7]] \<and>
      map (\<lambda>r. map_option (map pp_waiter) (pack_section_buf (ex_cfg False 1) r 0)) (ls_plock_resources ls) =
        [Some [0]]"
  by (simp add: op_eval list_eval ex_defs ex_msg_def ckpt_eval Let_def)

text \<open>With ownership, the plocks a node has for a resource owned by another node are written to the
  checkpoint under that owner, as the comment in \<^verbatim>\<open>store_plocks\<close> says; but a section with an owner
  and any plock is refused by the reader, so the joining node gets neither the resource nor its locks.\<close>

theorem owned_section_refused:
  assumes "cfgd_plock_ownership c" "r_owner r \<noteq> 0" "r_owner r \<noteq> -1" "r_owner r \<noteq> our_nodeid c"
    and "not_syncing r" "r_locks r \<noteq> []"
    and "store_loop c (\<lambda>_. True) [r] 0 0 = Some (ok, secs, nf, nl)"
    and "cfgd_plock_ownership c'" "mem_ok (io_mem io)"
  shows "\<exists>buf pps io'. secs = [(buf, pps)] \<and> length pps = length (r_locks r) + length (r_waiters r) \<and>
    unpack_section_buf c' garbage ls buf pps io = Some (-1, 0, 0, ls, io')"
proof -
  have o: "ckpt_owner c r = Some (r_owner r)" using assms(1-4) by (simp add: ckpt_owner_def)
  then obtain pps where pps: "pack_section_buf c r (r_owner r) = Some pps"
    "secs = [(section_id (r_number r) (r_owner r), pps)]"
    using assms(7) by (auto simp: Let_def split: option.splits)
  have p: "pps = map (pack_lock (big_endian c)) (r_locks r) @ map (pack_waiter (big_endian c)) (map w_info (r_waiters r))"
    by (rule pack_section_buf_all [OF assms(5) pps(1)]) (use assms(4) in simp)
  then have "pps \<noteq> []" using assms(6) by simp
  then show ?thesis
    using assms(2,8,9) p pps(2) by (simp add: unpack_section_buf_def section_id_roundtrip split_beta)
qed

theorem owned_section_refused_witness:
  "\<exists>pps io'. store_loop (ex_cfg True 1) (\<lambda>_. True) [ex_resource 4 [ex_lock 2 1 0 9] []] 0 0 =
     Some (True, [(section_id 100 4, pps)], 100, 100) \<and> length pps = 1 \<and>
   unpack_section_buf (ex_cfg True 3) (\<lambda>_. zero_info) (ex_ls []) (section_id 100 4) pps (ex_io []) =
     Some (-1, 0, 0, ex_ls [], io')"
proof -
  let ?r = "ex_resource 4 [ex_lock 2 1 0 9] []"
  obtain pps where s: "store_loop (ex_cfg True 1) (\<lambda>_. True) [?r] 0 0 = Some (True, [(section_id 100 4, pps)], 100, 100)"
    by (simp add: ckpt_eval ex_defs Let_def)
  have "cfgd_plock_ownership (ex_cfg True 1)" "r_owner ?r \<noteq> 0" "r_owner ?r \<noteq> -1" "r_owner ?r \<noteq> our_nodeid (ex_cfg True 1)"
    "not_syncing ?r" "r_locks ?r \<noteq> []" "cfgd_plock_ownership (ex_cfg True 3)" "mem_ok (io_mem (ex_io []))"
    by (simp_all add: ex_defs not_syncing_def)
  from owned_section_refused [OF this(1-6) s this(7,8), of "\<lambda>_. zero_info" "ex_ls []"] s show ?thesis
    by (auto simp: ex_defs)
qed

end
