(* ===== verification/Deadlock.thy ===== *)
theory Deadlock imports Plock_State begin

text \<open>
  Deadlock detection (\<^verbatim>\<open>group/dlm_controld/deadlock.c\<close>): the locks collected from the kernel and from
  the other nodes' checkpoints, the transactions and their wait-for graph, its reduction, the
  choice of a victim, and the handlers of the detection cycle. Pointers to locks and resources are
  addresses into the state; a transaction is identified by its xid, which \<^verbatim>\<open>get_trans\<close> keeps unique.
  Allocations are taken to succeed.
\<close>

section \<open>Data\<close>

record node =
  nd_nodeid :: u32
  nd_checkpoint_ready :: bool
  nd_in_cycle :: bool

definition LOCAL_COPY :: int where "LOCAL_COPY = 1"
definition MASTER_COPY :: int where "MASTER_COPY = 2"
definition DLM_LKSTS_WAITING :: int where "DLM_LKSTS_WAITING = 1"
definition DLM_LKSTS_GRANTED :: int where "DLM_LKSTS_GRANTED = 2"
definition DLM_LKSTS_CONVERT :: int where "DLM_LKSTS_CONVERT = 3"

lemmas lksts_defs = LOCAL_COPY_def MASTER_COPY_def DLM_LKSTS_WAITING_def DLM_LKSTS_GRANTED_def DLM_LKSTS_CONVERT_def

text \<open>The four 8-bit fields are small signed integers.\<close>

record pack_lock =
  pl_xid :: u64
  pl_id :: u32
  pl_nodeid :: u32
  pl_remid :: u32
  pl_ownpid :: u32
  pl_exflags :: u32
  pl_flags :: u32
  pl_status :: int
  pl_grmode :: int
  pl_rqmode :: int
  pl_copy :: int

record dlm_rsb =
  rsb_addr :: nat
  rsb_locks :: "nat list"
  rsb_name :: string
  rsb_len :: nat

record dlm_lkb =
  lkb_lock :: pack_lock
  lkb_home :: u32
  lkb_rsb :: nat
  lkb_trans :: "u64 option"
  lkb_waitfor_trans :: "u64 option"

definition TR_NALLOC :: nat where "TR_NALLOC = 4"

text \<open>\<^verbatim>\<open>waitfor_alloc\<close> is the length of the array; a null slot is \<open>None\<close>.\<close>

record trans =
  tr_locks :: "nat list"
  tr_xid :: u64
  tr_others_waiting_on_us :: int
  tr_waitfor_count :: int
  tr_waitfor :: "u64 option list"

text \<open>A message of the deadlock protocol: type, recipient and data.\<close>

type_synonym dl_msg = "msg_type \<times> u32 \<times> u32"

record deadlk =
  dl_resources :: "dlm_rsb list"
  dl_lkbs :: "nat \<Rightarrow> dlm_lkb"
  dl_next :: nat
  dl_transactions :: "trans list"
  dl_nodes :: "node list"
  dl_cycle_running :: bool
  dl_all_checkpoints_ready :: bool
  dl_low_nodeid :: u32
  dl_ckpt_handle :: u64
  dl_confchg_init :: bool
  dl_sent :: "dl_msg list"

section \<open>Lock modes\<close>

definition dlm_compat_matrix :: "int list list" where
  "dlm_compat_matrix =
     [[1, 1, 1, 1, 1, 1, 1, 0],
      [1, 1, 1, 1, 1, 1, 1, 0],
      [1, 1, 1, 1, 1, 1, 0, 0],
      [1, 1, 1, 1, 0, 0, 0, 0],
      [1, 1, 1, 0, 1, 0, 0, 0],
      [1, 1, 1, 0, 0, 0, 0, 0],
      [1, 1, 0, 0, 0, 0, 0, 0],
      [0, 0, 0, 0, 0, 0, 0, 0]]"

text \<open>Modes run from -1 (IV) to 6; outside, the C array access and the value here are unspecified.\<close>

definition dlm_modes_compat :: "int \<Rightarrow> int \<Rightarrow> bool" where
  "dlm_modes_compat mode1 mode2 \<longleftrightarrow> dlm_compat_matrix ! nat (mode1 + 1) ! nat (mode2 + 1) \<noteq> 0"

section \<open>Resources and locks\<close>

text \<open>What \<^verbatim>\<open>strncmp\<close> sees of a buffer.\<close>

definition c_strn :: "nat \<Rightarrow> string \<Rightarrow> string" where
  "c_strn n s = takeWhile (\<lambda>ch. ch \<noteq> CHR 0x00) (take n s)"

definition get_resource :: "deadlk \<Rightarrow> string \<Rightarrow> nat \<Rightarrow> nat \<times> deadlk" where
  "get_resource d name len =
     (case find (\<lambda>r. rsb_len r = len \<and> c_strn len (rsb_name r) = c_strn len name) (dl_resources d) of
        Some r \<Rightarrow> (rsb_addr r, d)
      | None \<Rightarrow>
          (dl_next d,
           d\<lparr>dl_resources := \<lparr>rsb_addr = dl_next d, rsb_locks = [], rsb_name = take len name, rsb_len = len\<rparr>
                            # dl_resources d,
             dl_next := dl_next d + 1\<rparr>))"

definition zero_lock :: pack_lock where
  "zero_lock = \<lparr>pl_xid = 0, pl_id = 0, pl_nodeid = 0, pl_remid = 0, pl_ownpid = 0, pl_exflags = 0,
     pl_flags = 0, pl_status = 0, pl_grmode = 0, pl_rqmode = 0, pl_copy = 0\<rparr>"

definition create_lkb :: dlm_lkb where
  "create_lkb = \<lparr>lkb_lock = zero_lock, lkb_home = 0, lkb_rsb = 0, lkb_trans = None, lkb_waitfor_trans = None\<rparr>"

definition IFL_MSTCPY :: u32 where "IFL_MSTCPY = 0x00010000"

definition set_copy :: "u32 \<Rightarrow> pack_lock \<Rightarrow> pack_lock" where
  "set_copy our_id lock =
     (if pl_nodeid lock = 0 then lock\<lparr>pl_copy := LOCAL_COPY\<rparr>
      else if pl_flags lock AND IFL_MSTCPY \<noteq> 0 then lock\<lparr>pl_copy := MASTER_COPY\<rparr>
      else lock\<lparr>pl_copy := MASTER_COPY, pl_id := pl_remid lock, pl_remid := pl_id lock, pl_nodeid := our_id\<rparr>)"

definition partial_master_copy :: "pack_lock \<Rightarrow> bool" where
  "partial_master_copy lock \<longleftrightarrow> pl_xid lock \<noteq> 0"

definition rsb_at :: "deadlk \<Rightarrow> nat \<Rightarrow> dlm_rsb option" where
  "rsb_at d a = find (\<lambda>r. rsb_addr r = a) (dl_resources d)"

text \<open>An existing lock of the resource, or \<open>None\<close> for a new one.\<close>

definition get_lkb :: "deadlk \<Rightarrow> dlm_rsb \<Rightarrow> pack_lock \<Rightarrow> nat option" where
  "get_lkb d r lock =
     (if pl_copy lock \<noteq> MASTER_COPY then None
      else find (\<lambda>a. pl_nodeid (lkb_lock (dl_lkbs d a)) = pl_nodeid lock \<and>
                     pl_id (lkb_lock (dl_lkbs d a)) = pl_id lock) (rsb_locks r))"

definition fill_lkb :: "dlm_lkb \<Rightarrow> u32 \<Rightarrow> pack_lock \<Rightarrow> dlm_lkb" where
  "fill_lkb lkb from_nodeid lock =
     (if pl_copy lock = LOCAL_COPY then
        lkb\<lparr>lkb_lock := (lkb_lock lkb)\<lparr>pl_xid := pl_xid lock, pl_nodeid := pl_nodeid lock, pl_id := pl_id lock,
               pl_remid := pl_remid lock, pl_ownpid := pl_ownpid lock, pl_exflags := pl_exflags lock,
               pl_flags := pl_flags lock, pl_status := pl_status lock, pl_grmode := pl_grmode lock,
               pl_rqmode := pl_rqmode lock, pl_copy := LOCAL_COPY\<rparr>,
            lkb_home := from_nodeid\<rparr>
      else if pl_copy lock = MASTER_COPY then
        (if partial_master_copy lock then
           lkb\<lparr>lkb_lock := (lkb_lock lkb)\<lparr>pl_xid := pl_xid lock, pl_nodeid := pl_nodeid lock, pl_id := pl_id lock,
                  pl_remid := pl_remid lock, pl_copy := MASTER_COPY\<rparr>,
               lkb_home := pl_nodeid lock\<rparr>
         else
           lkb\<lparr>lkb_lock := (lkb_lock lkb)\<lparr>pl_nodeid := pl_nodeid lock, pl_id := pl_id lock,
                  pl_remid := pl_remid lock, pl_copy := MASTER_COPY, pl_ownpid := pl_ownpid lock,
                  pl_exflags := pl_exflags lock, pl_flags := pl_flags lock, pl_status := pl_status lock,
                  pl_grmode := pl_grmode lock, pl_rqmode := pl_rqmode lock\<rparr>,
               lkb_home := pl_nodeid lock\<rparr>)
      else lkb)"

definition add_lkb :: "deadlk \<Rightarrow> nat \<Rightarrow> nat \<Rightarrow> deadlk" where
  "add_lkb d ra la =
     d\<lparr>dl_resources := update_first (\<lambda>r. rsb_addr r = ra) (\<lambda>r. r\<lparr>rsb_locks := la # rsb_locks r\<rparr>) (dl_resources d),
       dl_lkbs := (dl_lkbs d)(la := (dl_lkbs d la)\<lparr>lkb_rsb := ra\<rparr>)\<rparr>"

definition dl_add_lock :: "deadlk \<Rightarrow> nat \<Rightarrow> u32 \<Rightarrow> pack_lock \<Rightarrow> deadlk" where
  "dl_add_lock d ra from_nodeid lock =
     (case rsb_at d ra of
        None \<Rightarrow> d
      | Some r \<Rightarrow>
          (case get_lkb d r lock of
             Some la \<Rightarrow> d\<lparr>dl_lkbs := (dl_lkbs d)(la := fill_lkb (dl_lkbs d la) from_nodeid lock)\<rparr>
           | None \<Rightarrow>
               (let la = dl_next d in
                add_lkb (d\<lparr>dl_lkbs := (dl_lkbs d)(la := fill_lkb create_lkb from_nodeid lock), dl_next := la + 1\<rparr>)
                  ra la)))"

text \<open>
  \<^verbatim>\<open>read_debugfs_locks\<close>: a line of the kernel's lock dump after \<^verbatim>\<open>sscanf\<close> and \<^verbatim>\<open>parse_r_name\<close>, or \<open>None\<close>
  for one that does not have thirteen fields, which ends the reading.
\<close>

fun read_debugfs_loop :: "u32 \<Rightarrow> (pack_lock \<times> string \<times> nat) option list \<Rightarrow> deadlk \<Rightarrow> deadlk" where
  "read_debugfs_loop our_id [] d = d"
| "read_debugfs_loop our_id (None # lines) d = d"
| "read_debugfs_loop our_id (Some (lock, name, len) # lines) d =
     (case get_resource d name len of (ra, d1) \<Rightarrow>
        read_debugfs_loop our_id lines (dl_add_lock d1 ra our_id (set_copy our_id lock)))"

text \<open>The outer option is the file that may not open.\<close>

definition read_debugfs_locks ::
  "u32 \<Rightarrow> (pack_lock \<times> string \<times> nat) option list option \<Rightarrow> deadlk \<Rightarrow> int \<times> deadlk" where
  "read_debugfs_locks our_id file d =
     (case file of None \<Rightarrow> (-1, d) | Some lines \<Rightarrow> (0, read_debugfs_loop our_id lines d))"

section \<open>Checkpoints of locks\<close>

definition lock_out :: "bool \<Rightarrow> pack_lock \<Rightarrow> pack_lock" where
  "lock_out be l = l\<lparr>pl_xid := cpu_to_le64 be (pl_xid l), pl_id := cpu_to_le32 be (pl_id l),
     pl_nodeid := cpu_to_le32 be (pl_nodeid l), pl_remid := cpu_to_le32 be (pl_remid l),
     pl_ownpid := cpu_to_le32 be (pl_ownpid l), pl_exflags := cpu_to_le32 be (pl_exflags l),
     pl_flags := cpu_to_le32 be (pl_flags l)\<rparr>"

definition lock_in :: "bool \<Rightarrow> pack_lock \<Rightarrow> pack_lock" where
  "lock_in be l = l\<lparr>pl_xid := le64_to_cpu be (pl_xid l), pl_id := le32_to_cpu be (pl_id l),
     pl_nodeid := le32_to_cpu be (pl_nodeid l), pl_remid := le32_to_cpu be (pl_remid l),
     pl_ownpid := le32_to_cpu be (pl_ownpid l), pl_exflags := le32_to_cpu be (pl_exflags l),
     pl_flags := le32_to_cpu be (pl_flags l)\<rparr>"

definition read_checkpoint_locks :: "bool \<Rightarrow> u32 \<Rightarrow> string \<Rightarrow> pack_lock list \<Rightarrow> deadlk \<Rightarrow> deadlk" where
  "read_checkpoint_locks be from_nodeid numbuf locks d =
     (case get_resource d numbuf (length numbuf) of (ra, d1) \<Rightarrow>
        foldl (\<lambda>d l. dl_add_lock d ra from_nodeid (lock_in be l)) d1 locks)"

text \<open>\<^verbatim>\<open>section_max\<close>: 10 MiB of entries of 40 bytes each.\<close>

definition section_max :: nat where "section_max = (10 * 1024 * 1024) div 40"

definition pack_lkb_list :: "bool \<Rightarrow> deadlk \<Rightarrow> nat list \<Rightarrow> pack_lock list" where
  "pack_lkb_list be d q = map (\<lambda>a. lock_out be (lkb_lock (dl_lkbs d a))) (take section_max q)"

definition dl_pack_section_buf :: "bool \<Rightarrow> deadlk \<Rightarrow> dlm_rsb \<Rightarrow> pack_lock list" where
  "dl_pack_section_buf be d r = pack_lkb_list be d (rsb_locks r)"

text \<open>Whether unlinking succeeds; on failure with no handle there is nothing to report.\<close>

definition dl_unlink_checkpoint :: "bool \<Rightarrow> deadlk \<Rightarrow> int \<times> deadlk" where
  "dl_unlink_checkpoint unlinked d =
     (if unlinked \<or> dl_ckpt_handle d = 0 then 0 else -1, d\<lparr>dl_ckpt_handle := 0\<rparr>)"

datatype ckpt_answer = Ckpt_ok | Ckpt_exist | Ckpt_error

type_synonym dl_section = "string \<times> pack_lock list"

text \<open>The sections of one attempt, up to the first that is not created, and why it stopped. A section is named after its
  resource; the names are taken to be shorter than the buffer of 64 bytes.\<close>

fun write_sections :: "bool \<Rightarrow> (string \<Rightarrow> ckpt_answer) \<Rightarrow> deadlk \<Rightarrow> dlm_rsb list \<Rightarrow> ckpt_answer \<times> dl_section list" where
  "write_sections be create d [] = (Ckpt_ok, [])"
| "write_sections be create d (r # rs) =
     (let buf = c_strn (length (rsb_name r)) (rsb_name r) in
      case create buf of
        Ckpt_ok \<Rightarrow> (case write_sections be create d rs of (a, secs) \<Rightarrow> (a, (buf, dl_pack_section_buf be d r) # secs))
      | a \<Rightarrow> (a, []))"

text \<open>
  Each attempt is the answer to the open, with a handle, and to the creation of each section; a section
  that already exists makes the code start over. \<open>None\<close> is a run that is still retrying.
\<close>

fun write_attempts ::
  "bool \<Rightarrow> bool \<Rightarrow> (ckpt_answer \<times> u64 \<times> (string \<Rightarrow> ckpt_answer)) list \<Rightarrow> deadlk \<Rightarrow> (deadlk \<times> dl_section list) option"
where
  "write_attempts be unlinked [] d = None"
| "write_attempts be unlinked ((opened, h, create) # rest) d =
     (if opened \<noteq> Ckpt_ok then Some (d, [])
      else
        (let d1 = d\<lparr>dl_ckpt_handle := h\<rparr> in
         case write_sections be create d1 (dl_resources d1) of
           (Ckpt_exist, _) \<Rightarrow> write_attempts be unlinked rest (snd (dl_unlink_checkpoint unlinked d1))
         | (_, secs) \<Rightarrow> Some (d1, secs)))"

definition write_checkpoint ::
  "bool \<Rightarrow> bool \<Rightarrow> (ckpt_answer \<times> u64 \<times> (string \<Rightarrow> ckpt_answer)) list \<Rightarrow> deadlk \<Rightarrow> (deadlk \<times> dl_section list) option"
where
  "write_checkpoint be unlinked attempts d =
     (if dl_ckpt_handle d \<noteq> 0 then
        (case dl_unlink_checkpoint unlinked d of (rv, d1) \<Rightarrow>
           if rv \<noteq> 0 then Some (d1, []) else write_attempts be unlinked attempts d1)
      else write_attempts be unlinked attempts d)"

text \<open>What reading the sections of another node answers, step by step.\<close>

datatype dl_item = Dl_section string "pack_lock list" | Dl_skip | Dl_stop

fun read_checkpoint_loop :: "bool \<Rightarrow> u32 \<Rightarrow> dl_item list \<Rightarrow> deadlk \<Rightarrow> deadlk" where
  "read_checkpoint_loop be nodeid [] d = d"
| "read_checkpoint_loop be nodeid (Dl_skip # items) d = read_checkpoint_loop be nodeid items d"
| "read_checkpoint_loop be nodeid (Dl_stop # items) d = d"
| "read_checkpoint_loop be nodeid (Dl_section buf locks # items) d =
     (if locks = [] then read_checkpoint_loop be nodeid items d
      else read_checkpoint_loop be nodeid items (read_checkpoint_locks be nodeid buf locks d))"

text \<open>\<open>items\<close> is \<open>None\<close> if the checkpoint cannot be opened or iterated.\<close>

definition read_checkpoint :: "bool \<Rightarrow> u32 \<Rightarrow> u32 \<Rightarrow> dl_item list option \<Rightarrow> deadlk \<Rightarrow> deadlk" where
  "read_checkpoint be our_id nodeid items d =
     (if nodeid = our_id then d
      else (case items of None \<Rightarrow> d | Some its \<Rightarrow> read_checkpoint_loop be nodeid its d))"

section \<open>Transactions\<close>

definition get_trans :: "trans list \<Rightarrow> u64 \<Rightarrow> trans list" where
  "get_trans ts xid =
     (case find (\<lambda>t. tr_xid t = xid) ts of
        Some _ \<Rightarrow> ts
      | None \<Rightarrow> \<lparr>tr_locks = [], tr_xid = xid, tr_others_waiting_on_us = 0, tr_waitfor_count = 0, tr_waitfor = []\<rparr> # ts)"

definition add_lkb_trans :: "deadlk \<Rightarrow> u64 \<Rightarrow> nat \<Rightarrow> deadlk" where
  "add_lkb_trans d xid la =
     d\<lparr>dl_transactions := update_first (\<lambda>t. tr_xid t = xid) (\<lambda>t. t\<lparr>tr_locks := la # tr_locks t\<rparr>) (dl_transactions d),
       dl_lkbs := (dl_lkbs d)(la := (dl_lkbs d la)\<lparr>lkb_trans := Some xid\<rparr>)\<rparr>"

definition add_to_trans :: "deadlk \<Rightarrow> nat \<Rightarrow> deadlk" where
  "add_to_trans d la =
     (let xid = pl_xid (lkb_lock (dl_lkbs d la)) in
      add_lkb_trans (d\<lparr>dl_transactions := get_trans (dl_transactions d) xid\<rparr>) xid la)"

definition create_trans_list :: "deadlk \<Rightarrow> deadlk" where
  "create_trans_list d = foldl (\<lambda>d r. foldl add_to_trans d (rsb_locks r)) d (dl_resources d)"

definition locks_compat :: "deadlk \<Rightarrow> nat \<Rightarrow> nat \<Rightarrow> bool" where
  "locks_compat d wa ga =
     (if wa = ga then False
      else if lkb_trans (dl_lkbs d wa) = lkb_trans (dl_lkbs d ga) then False
      else dlm_modes_compat (pl_grmode (lkb_lock (dl_lkbs d ga))) (pl_rqmode (lkb_lock (dl_lkbs d wa))))"

definition in_waitfor :: "trans \<Rightarrow> u64 \<Rightarrow> bool" where
  "in_waitfor tr x \<longleftrightarrow> Some x \<in> set (tr_waitfor tr)"

definition grow_waitfor :: "trans \<Rightarrow> trans" where
  "grow_waitfor tr =
     (if tr_waitfor_count tr = int (length (tr_waitfor tr))
      then tr\<lparr>tr_waitfor := tr_waitfor tr @ replicate TR_NALLOC None\<rparr> else tr)"

definition push_waitfor :: "u64 \<Rightarrow> trans \<Rightarrow> trans" where
  "push_waitfor x tr0 =
     (let tr = grow_waitfor tr0 in
      tr\<lparr>tr_waitfor := (tr_waitfor tr)[nat (tr_waitfor_count tr) := Some x],
         tr_waitfor_count := tr_waitfor_count tr + 1\<rparr>)"

definition incr_others :: "int \<Rightarrow> trans \<Rightarrow> trans" where
  "incr_others n t = t\<lparr>tr_others_waiting_on_us := tr_others_waiting_on_us t + n\<rparr>"

text \<open>Both locks are on transactions when this is called.\<close>

definition add_waitfor :: "deadlk \<Rightarrow> nat \<Rightarrow> nat \<Rightarrow> deadlk" where
  "add_waitfor d wa ga =
     (case (lkb_trans (dl_lkbs d wa), lkb_trans (dl_lkbs d ga)) of
        (Some t, Some g) \<Rightarrow>
          if locks_compat d wa ga then d
          else if t = g then d
          else
            (case find (\<lambda>x. tr_xid x = t) (dl_transactions d) of
               None \<Rightarrow> d
             | Some tr \<Rightarrow>
                 if tr_waitfor_count tr \<noteq> 0 \<and> in_waitfor tr g then d
                 else
                   d\<lparr>dl_transactions :=
                       update_first (\<lambda>x. tr_xid x = g) (incr_others 1)
                         (update_first (\<lambda>x. tr_xid x = t) (push_waitfor g) (dl_transactions d)),
                     dl_lkbs := (dl_lkbs d)(wa := (dl_lkbs d wa)\<lparr>lkb_waitfor_trans := Some g\<rparr>)\<rparr>)
      | _ \<Rightarrow> d)"

definition waitfor_lkb :: "deadlk \<Rightarrow> nat \<Rightarrow> deadlk" where
  "waitfor_lkb d wa =
     (if pl_status (lkb_lock (dl_lkbs d wa)) = DLM_LKSTS_GRANTED then d
      else
        (case rsb_at d (lkb_rsb (dl_lkbs d wa)) of
           None \<Rightarrow> d
         | Some r \<Rightarrow>
             foldl (\<lambda>d ga. if pl_status (lkb_lock (dl_lkbs d ga)) = DLM_LKSTS_WAITING then d
                           else add_waitfor d wa ga) d (rsb_locks r)))"

definition create_waitfor_graph :: "deadlk \<Rightarrow> deadlk" where
  "create_waitfor_graph d =
     foldl (\<lambda>d tr. foldl waitfor_lkb d (tr_locks tr)) d (dl_transactions d)"

section \<open>Reducing the graph\<close>

text \<open>
  \<^verbatim>\<open>remove_waitfor\<close> on the slots of the array: the new slots, the new \<^verbatim>\<open>waitfor_count\<close> and how often
  the removed transaction was found.
\<close>

fun clear_slots :: "u64 \<Rightarrow> u64 option list \<Rightarrow> int \<Rightarrow> u64 option list \<times> int \<times> int" where
  "clear_slots x [] count = ([], count, 0)"
| "clear_slots x (e # es) count =
     (if count = 0 then (e # es, count, 0)
      else if e = Some x then
        (case clear_slots x es (count - 1) of (es', c', k) \<Rightarrow> (None # es', c', k + 1))
      else (case clear_slots x es count of (es', c', k) \<Rightarrow> (e # es', c', k)))"

definition remove_waitfor :: "u64 \<Rightarrow> u64 \<Rightarrow> trans list \<Rightarrow> trans list" where
  "remove_waitfor t x ts =
     (case find (\<lambda>u. tr_xid u = t) ts of
        None \<Rightarrow> ts
      | Some tr \<Rightarrow>
          (case clear_slots x (tr_waitfor tr) (tr_waitfor_count tr) of (es, c, k) \<Rightarrow>
             update_first (\<lambda>u. tr_xid u = x) (incr_others (- k))
               (update_first (\<lambda>u. tr_xid u = t) (\<lambda>u. u\<lparr>tr_waitfor := es, tr_waitfor_count := c\<rparr>) ts)))"

definition others_of :: "u64 \<Rightarrow> trans list \<Rightarrow> int" where
  "others_of x ts =
     (case find (\<lambda>u. tr_xid u = x) ts of None \<Rightarrow> 0 | Some u \<Rightarrow> tr_others_waiting_on_us u)"

fun remove_trans_loop :: "u64 \<Rightarrow> u64 list \<Rightarrow> trans list \<Rightarrow> trans list" where
  "remove_trans_loop x [] ts = ts"
| "remove_trans_loop x (t # us) ts =
     (if t = x then remove_trans_loop x us ts
      else if others_of x ts = 0 then ts
      else remove_trans_loop x us (remove_waitfor t x ts))"

definition remove_trans :: "u64 \<Rightarrow> trans list \<Rightarrow> trans list" where
  "remove_trans x ts = remove_trans_loop x (map tr_xid ts) ts"

text \<open>One pass over the list; the second argument are the transactions still to be visited.\<close>

fun reduce_loop :: "trans list \<Rightarrow> u64 list \<Rightarrow> trans list \<times> nat" where
  "reduce_loop ts [] = (ts, 0)"
| "reduce_loop ts (x # xs) =
     (case find (\<lambda>u. tr_xid u = x) ts of
        None \<Rightarrow> reduce_loop ts xs
      | Some tr \<Rightarrow>
          if tr_waitfor_count tr \<noteq> 0 then reduce_loop ts xs
          else
            (case reduce_loop (delete_first (\<lambda>u. tr_xid u = x) (remove_trans x ts)) xs of
               (ts', removed) \<Rightarrow> (ts', removed + 1)))"

definition reduce_waitfor_graph :: "trans list \<Rightarrow> trans list \<times> nat" where
  "reduce_waitfor_graph ts = reduce_loop ts (map tr_xid ts)"

lemma length_remove_waitfor [simp]: "length (remove_waitfor t x ts) = length ts"
  by (simp add: remove_waitfor_def split_beta split: option.splits)

lemma length_remove_trans [simp]: "length (remove_trans x ts) = length ts"
proof -
  have "length (remove_trans_loop x us ts) = length ts" for us
    by (induction us arbitrary: ts) auto
  then show ?thesis by (simp add: remove_trans_def)
qed

lemma xids_remove_waitfor [simp]: "map tr_xid (remove_waitfor t x ts) = map tr_xid ts"
  by (simp add: remove_waitfor_def split_beta map_update_first incr_others_def split: option.splits)

lemma xids_remove_trans [simp]: "map tr_xid (remove_trans x ts) = map tr_xid ts"
proof -
  have "map tr_xid (remove_trans_loop x us ts) = map tr_xid ts" for us
    by (induction us arbitrary: ts) auto
  then show ?thesis by (simp add: remove_trans_def)
qed

lemma length_delete_first: "find P xs = Some x \<Longrightarrow> length (delete_first P xs) + 1 = length xs"
  by (induction xs) (auto split: if_splits)

lemma length_delete_xid:
  assumes "find (\<lambda>u. tr_xid u = x) ts = Some tr"
  shows "length (delete_first (\<lambda>u. tr_xid u = x) (remove_trans x ts)) + 1 = length ts"
proof -
  have "tr_xid ` set (remove_trans x ts) = tr_xid ` set ts" by (metis xids_remove_trans set_map)
  moreover have "x \<in> tr_xid ` set ts" using assms by (auto simp: find_Some_iff)
  ultimately obtain y where "y \<in> set (remove_trans x ts)" "tr_xid y = x" by (metis imageE)
  then have "find (\<lambda>u. tr_xid u = x) (remove_trans x ts) \<noteq> None" by (auto simp: find_None_iff)
  then obtain tr' where "find (\<lambda>u. tr_xid u = x) (remove_trans x ts) = Some tr'" by blast
  from length_delete_first [OF this] show ?thesis by simp
qed

lemma reduce_loop_length: "reduce_loop ts xs = (ts', removed) \<Longrightarrow> length ts' + removed = length ts"
proof (induction xs arbitrary: ts ts' removed)
  case (Cons x xs)
  show ?case
  proof (cases "find (\<lambda>u. tr_xid u = x) ts")
    case (Some tr)
    with Cons.prems Cons.IH length_delete_xid [OF Some] show ?thesis
      by (fastforce split: if_splits prod.splits)
  qed (use Cons in simp)
qed simp

text \<open>The loop ends because every pass but the last removes a transaction.\<close>

function reduce_waitfor_graph_loop :: "trans list \<Rightarrow> trans list" where
  "reduce_waitfor_graph_loop ts =
     (case reduce_waitfor_graph ts of (ts', removed) \<Rightarrow>
        if removed = 0 then ts' else reduce_waitfor_graph_loop ts')"
  by pat_completeness auto
termination
proof (relation "measure length", goal_cases)
  case (2 ts ts' removed)
  then show ?case
    using reduce_loop_length [of ts "map tr_xid ts" ts' removed]
    by (simp add: reduce_waitfor_graph_def)
qed simp

declare reduce_waitfor_graph_loop.simps [simp del]

section \<open>Resolving a deadlock\<close>

definition dl_send_message :: "deadlk \<Rightarrow> msg_type \<Rightarrow> u32 \<Rightarrow> u32 \<Rightarrow> deadlk" where
  "dl_send_message d ty to_nodeid msgdata = d\<lparr>dl_sent := dl_sent d @ [(ty, to_nodeid, msgdata)]\<rparr>"

definition send_checkpoint_ready :: "deadlk \<Rightarrow> deadlk" where
  "send_checkpoint_ready d = dl_send_message d DLM_MSG_DEADLK_CHECKPOINT_READY 0 0"

definition send_cycle_start :: "deadlk \<Rightarrow> deadlk" where
  "send_cycle_start d = dl_send_message d DLM_MSG_DEADLK_CYCLE_START 0 0"

definition send_cycle_end :: "deadlk \<Rightarrow> deadlk" where
  "send_cycle_end d = dl_send_message d DLM_MSG_DEADLK_CYCLE_END 0 0"

definition send_cancel_lock :: "deadlk \<Rightarrow> nat \<Rightarrow> deadlk" where
  "send_cancel_lock d la =
     (let lkb = dl_lkbs d la;
          lkid = (if pl_nodeid (lkb_lock lkb) = 0 then pl_id (lkb_lock lkb) else pl_remid (lkb_lock lkb))
      in dl_send_message d DLM_MSG_DEADLK_CANCEL_LOCK (lkb_home lkb) lkid)"

definition find_trans_to_cancel :: "trans list \<Rightarrow> trans option" where
  "find_trans_to_cancel ts = find (\<lambda>t. tr_others_waiting_on_us t \<noteq> 0) ts"

definition cancel_lkb :: "u64 \<Rightarrow> deadlk \<Rightarrow> nat \<Rightarrow> deadlk" where
  "cancel_lkb xid d la =
     (if pl_status (lkb_lock (dl_lkbs d la)) = DLM_LKSTS_GRANTED then d
      else
        (let d1 = send_cancel_lock d la in
         case lkb_waitfor_trans (dl_lkbs d1 la) of
           None \<Rightarrow> d1
         | Some x \<Rightarrow> d1\<lparr>dl_transactions := remove_waitfor xid x (dl_transactions d1)\<rparr>))"

definition cancel_trans :: "deadlk \<Rightarrow> deadlk" where
  "cancel_trans d =
     (case find_trans_to_cancel (dl_transactions d) of
        None \<Rightarrow> d
      | Some tr \<Rightarrow>
          (let d1 = foldl (cancel_lkb (tr_xid tr)) d (tr_locks tr)
           in d1\<lparr>dl_transactions := fst (reduce_waitfor_graph (dl_transactions d1))\<rparr>))"

definition find_deadlock :: "deadlk \<Rightarrow> deadlk" where
  "find_deadlock d =
     (if dl_resources d = [] then send_cycle_end d
      else if dl_transactions d \<noteq> [] then send_cycle_end d
      else
        (let d1 = create_waitfor_graph (create_trans_list d);
             d2 = d1\<lparr>dl_transactions := reduce_waitfor_graph_loop (dl_transactions d1)\<rparr>
         in if dl_transactions d2 = [] then send_cycle_end d2
            else
              (let d3 = cancel_trans d2;
                   d4 = d3\<lparr>dl_transactions := reduce_waitfor_graph_loop (dl_transactions d3)\<rparr>
               in send_cycle_end d4)))"

section \<open>The detection cycle\<close>

text \<open>
  The minimum search of \<^verbatim>\<open>run_deadlock\<close>; node ids and \<^verbatim>\<open>low\<close> are compared as signed integers.
\<close>

definition low_node :: "node list \<Rightarrow> u32" where
  "low_node ns =
     foldl (\<lambda>low n. if \<not> nd_in_cycle n then low
                    else if sint (nd_nodeid n) < sint low \<or> low = -1 then nd_nodeid n else low) (-1) ns"

definition run_deadlock :: "u32 \<Rightarrow> deadlk \<Rightarrow> deadlk" where
  "run_deadlock our_id d =
     (if \<exists>n \<in> set (dl_nodes d). nd_in_cycle n \<and> \<not> nd_checkpoint_ready n then d
      else
        (let low = low_node (dl_nodes d);
             d1 = d\<lparr>dl_all_checkpoints_ready := True, dl_low_nodeid := low\<rparr>
         in if low = our_id then find_deadlock d1 else d1))"

definition receive_checkpoint_ready :: "bool \<Rightarrow> u32 \<Rightarrow> u32 \<Rightarrow> dl_item list option \<Rightarrow> deadlk \<Rightarrow> deadlk" where
  "receive_checkpoint_ready be our_id nodeid items d =
     (let d1 = read_checkpoint be our_id nodeid items d in
      run_deadlock our_id
        (d1\<lparr>dl_nodes := update_first (\<lambda>n. nd_nodeid n = nodeid) (\<lambda>n. n\<lparr>nd_checkpoint_ready := True\<rparr>) (dl_nodes d1)\<rparr>))"

definition receive_cycle_start ::
  "bool \<Rightarrow> u32 \<Rightarrow> (pack_lock \<times> string \<times> nat) option list option \<Rightarrow> bool \<Rightarrow>
     (ckpt_answer \<times> u64 \<times> (string \<Rightarrow> ckpt_answer)) list \<Rightarrow> deadlk \<Rightarrow> (deadlk \<times> dl_section list) option" where
  "receive_cycle_start be our_id file unlinked attempts d =
     (if dl_cycle_running d then Some (d, [])
      else
        (let d1 = d\<lparr>dl_cycle_running := True,
                    dl_nodes := map (\<lambda>n. n\<lparr>nd_in_cycle := True\<rparr>) (dl_nodes d)\<rparr>
         in case read_debugfs_locks our_id file d1 of (rv, d2) \<Rightarrow>
              if rv < 0 then Some (d2, [])
              else
                (case write_checkpoint be unlinked attempts d2 of
                   None \<Rightarrow> None
                 | Some (d3, secs) \<Rightarrow> Some (send_checkpoint_ready d3, secs))))"

definition free_resources :: "deadlk \<Rightarrow> deadlk" where
  "free_resources d = d\<lparr>dl_resources := []\<rparr>"

definition free_transactions :: "deadlk \<Rightarrow> deadlk" where
  "free_transactions d = d\<lparr>dl_transactions := []\<rparr>"

definition receive_cycle_end :: "bool \<Rightarrow> deadlk \<Rightarrow> deadlk" where
  "receive_cycle_end unlinked d =
     (if \<not> dl_cycle_running d then d
      else
        (let d1 = d\<lparr>dl_cycle_running := False, dl_all_checkpoints_ready := False,
                    dl_nodes := map (\<lambda>n. n\<lparr>nd_checkpoint_ready := False\<rparr>) (dl_nodes d)\<rparr>
         in snd (dl_unlink_checkpoint unlinked (free_transactions (free_resources d1)))))"

text \<open>
  The lock id to cancel in the local lockspace, if any. The header has the sender in \<open>nodeid\<close> and
  the addressee in \<open>to_nodeid\<close>, which the code does not look at.
\<close>

definition receive_cancel_lock :: "u32 \<Rightarrow> u32 \<Rightarrow> u32 \<Rightarrow> u32 \<Rightarrow> u32 option" where
  "receive_cancel_lock our_id nodeid to_nodeid msgdata = (if nodeid \<noteq> our_id then None else Some msgdata)"

definition node_joined :: "deadlk \<Rightarrow> u32 \<Rightarrow> deadlk" where
  "node_joined d nodeid =
     d\<lparr>dl_nodes := dl_nodes d @ [\<lparr>nd_nodeid = nodeid, nd_checkpoint_ready = False, nd_in_cycle = False\<rparr>]\<rparr>"

definition node_left :: "deadlk \<Rightarrow> u32 \<Rightarrow> deadlk" where
  "node_left d nodeid = d\<lparr>dl_nodes := filter (\<lambda>n. nd_nodeid n \<noteq> nodeid) (dl_nodes d)\<rparr>"

definition purge_locks :: "deadlk \<Rightarrow> u32 \<Rightarrow> deadlk" where
  "purge_locks d nodeid =
     d\<lparr>dl_resources := map (\<lambda>r. r\<lparr>rsb_locks := filter (\<lambda>a. lkb_home (dl_lkbs d a) \<noteq> nodeid) (rsb_locks r)\<rparr>)
                         (dl_resources d)\<rparr>"

definition deadlk_confchg :: "bool \<Rightarrow> u32 \<Rightarrow> u32 list \<Rightarrow> u32 list \<Rightarrow> u32 list \<Rightarrow> deadlk \<Rightarrow> deadlk" where
  "deadlk_confchg enabled our_id members left joined d =
     (if \<not> enabled then d
      else if \<not> dl_confchg_init d then foldl node_joined (d\<lparr>dl_confchg_init := True\<rparr>) members
      else
        (let d1 = foldl node_left (foldl node_joined d joined) left in
         if \<not> dl_cycle_running d1 then d1
         else if left = [] then d1
         else if \<not> dl_all_checkpoints_ready d1 then run_deadlock our_id d1
         else
           (let d2 = foldl purge_locks d1 left in
            if dl_low_nodeid d2 \<in> set left then run_deadlock our_id d2 else d2)))"

end
