(* ===== verification/Deadlock_Graph.thy ===== *)
theory Deadlock_Graph imports Deadlock begin

text \<open>
  Reduction of the wait-for graph. The specification is the largest set of transactions each of which
  waits for a member of the set; it is not empty exactly if the graph has a cycle. The reduction of
  the source, with its slot arrays and its two counters per transaction, leaves exactly that set.
\<close>

section \<open>Deadlocked transactions\<close>

definition waits :: "trans \<Rightarrow> u64 set" where
  "waits t = {x. Some x \<in> set (tr_waitfor t)}"

definition xids :: "trans list \<Rightarrow> u64 set" where
  "xids ts = tr_xid ` set ts"

definition wait_edges :: "trans list \<Rightarrow> (u64 \<times> u64) set" where
  "wait_edges ts = {(tr_xid t, x) | t x. t \<in> set ts \<and> x \<in> waits t}"

definition stuck :: "trans list \<Rightarrow> u64 set \<Rightarrow> bool" where
  "stuck ts X \<longleftrightarrow> X \<subseteq> xids ts \<and> (\<forall>t \<in> set ts. tr_xid t \<in> X \<longrightarrow> waits t \<inter> X \<noteq> {})"

definition deadlocked :: "trans list \<Rightarrow> u64 set" where
  "deadlocked ts = \<Union> {X. stuck ts X}"

lemma stuck_deadlocked: "stuck ts (deadlocked ts)"
  unfolding stuck_def deadlocked_def by blast

lemma stuck_subset: "stuck ts X \<Longrightarrow> X \<subseteq> deadlocked ts"
  unfolding deadlocked_def by blast

lemma finite_wait_edges: "finite (wait_edges ts)"
proof -
  have "wait_edges ts \<subseteq> (\<Union>t \<in> set ts. (\<lambda>e. (tr_xid t, the e)) ` set (tr_waitfor t))"
    unfolding wait_edges_def waits_def by force
  then show ?thesis by (rule finite_subset) simp
qed

lemma stuck_cycle:
  assumes "stuck ts X" "x \<in> X" "distinct (map tr_xid ts)"
  shows "\<not> acyclic (wait_edges ts)"
proof
  assume "acyclic (wait_edges ts)"
  with finite_wait_edges have "wf ((wait_edges ts)\<inverse>)" by (rule finite_acyclic_wf_converse)
  then obtain z where z: "z \<in> X" "\<And>y. (y, z) \<in> (wait_edges ts)\<inverse> \<Longrightarrow> y \<notin> X"
    using assms(2) by (metis wfE_min)
  then obtain t where t: "t \<in> set ts" "tr_xid t = z" using assms(1) by (auto simp: stuck_def xids_def)
  then obtain y where "y \<in> waits t" "y \<in> X" using assms(1) z(1) by (auto simp: stuck_def)
  with t z(2) [of y] show False by (auto simp: wait_edges_def)
qed

text \<open>Every transaction named in a slot is in the list.\<close>

definition closed_graph :: "trans list \<Rightarrow> bool" where
  "closed_graph ts \<longleftrightarrow> (\<forall>t \<in> set ts. waits t \<subseteq> xids ts)"

lemma cycle_stuck:
  assumes "(x, x) \<in> (wait_edges ts)\<^sup>+" "distinct (map tr_xid ts)" "closed_graph ts"
  shows "x \<in> deadlocked ts"
proof -
  let ?E = "wait_edges ts"
  let ?X = "{y. (x, y) \<in> ?E\<^sup>+ \<and> (y, x) \<in> ?E\<^sup>+}"
  have "stuck ts ?X"
    unfolding stuck_def
  proof (intro conjI ballI impI subsetI)
    fix y assume "y \<in> ?X"
    then obtain z where "(y, z) \<in> ?E" by (auto dest: tranclD)
    then show "y \<in> xids ts" by (auto simp: wait_edges_def xids_def)
  next
    fix t assume t: "t \<in> set ts" "tr_xid t \<in> ?X"
    then obtain z where z: "(tr_xid t, z) \<in> ?E" "(z, x) \<in> ?E\<^sup>*" by (auto dest: tranclD)
    have "(x, z) \<in> ?E\<^sup>+" using t(2) z(1) by (auto intro: trancl_into_trancl)
    moreover have "(z, x) \<in> ?E\<^sup>+"
      using z(2) calculation assms(1) by (auto simp: rtrancl_eq_or_trancl)
    moreover have "z \<in> waits t"
    proof -
      obtain t' where "t' \<in> set ts" "tr_xid t' = tr_xid t" "z \<in> waits t'"
        using z(1) by (auto simp: wait_edges_def)
      then show ?thesis using assms(2) t(1) by (auto simp: distinct_map inj_on_def)
    qed
    ultimately show "waits t \<inter> ?X \<noteq> {}" by blast
  qed
  then show ?thesis using assms(1) stuck_subset by blast
qed

lemma deadlocked_iff_cycle:
  assumes "distinct (map tr_xid ts)" "closed_graph ts"
  shows "deadlocked ts = {} \<longleftrightarrow> acyclic (wait_edges ts)"
  using stuck_cycle [OF stuck_deadlocked _ assms(1)] cycle_stuck [OF _ assms]
  unfolding acyclic_def by blast

section \<open>The counters\<close>

definition filled :: "u64 option list \<Rightarrow> nat" where
  "filled es = length (filter (\<lambda>e. e \<noteq> None) es)"

definition waiters_of :: "u64 \<Rightarrow> trans list \<Rightarrow> nat" where
  "waiters_of x ts = length (filter (\<lambda>t. x \<in> waits t) ts)"

text \<open>
  The invariant of the graph: xids are unique, no slot names a transaction twice, itself or one that
  is not in the list, \<^verbatim>\<open>waitfor_count\<close> is the number of used slots and \<^verbatim>\<open>others_waiting_on_us\<close> the
  number of transactions with a slot for us.
\<close>

definition slots_ok :: "trans \<Rightarrow> bool" where
  "slots_ok t \<longleftrightarrow> distinct (filter (\<lambda>e. e \<noteq> None) (tr_waitfor t)) \<and> tr_xid t \<notin> waits t \<and>
     tr_waitfor_count t = int (filled (tr_waitfor t))"

definition graph_wf :: "trans list \<Rightarrow> bool" where
  "graph_wf ts \<longleftrightarrow> distinct (map tr_xid ts) \<and> closed_graph ts \<and> (\<forall>t \<in> set ts. slots_ok t) \<and>
     (\<forall>t \<in> set ts. tr_others_waiting_on_us t = int (waiters_of (tr_xid t) ts))"

definition clear_entry :: "u64 \<Rightarrow> u64 option \<Rightarrow> u64 option" where
  "clear_entry x e = (if e = Some x then None else e)"

lemma filled_simps [simp]: "filled [] = 0" "filled (e # es) = (if e = None then 0 else 1) + filled es"
  by (simp_all add: filled_def)

lemma filled_0: "filled es = 0 \<longleftrightarrow> (\<forall>e \<in> set es. e = None)"
  by (induction es) auto

text \<open>The early exit of \<^verbatim>\<open>remove_waitfor\<close> skips only unused slots.\<close>

lemma clear_entry_idle: "Some x \<notin> set es \<Longrightarrow> map (clear_entry x) es = es"
  by (rule map_idI) (auto simp: clear_entry_def)

lemma clear_slots_eq:
  assumes "int (filled es) \<le> c" "distinct (filter (\<lambda>e. e \<noteq> None) es)"
  shows "clear_slots x es c =
    (map (clear_entry x) es, c - (if Some x \<in> set es then 1 else 0), if Some x \<in> set es then 1 else 0)"
  using assms
proof (induction es arbitrary: c)
  case (Cons e es)
  consider "c = 0" | "c \<noteq> 0" "e = Some x" | "c \<noteq> 0" "e \<noteq> Some x" by blast
  then show ?case
  proof cases
    case 1
    then have "\<forall>e' \<in> set (e # es). e' = None" using Cons.prems(1) filled_0 [of "e # es"] by simp
    then have "Some x \<notin> set (e # es)" by auto
    with 1 clear_entry_idle [of x "e # es"] show ?thesis by simp
  next
    case 2
    then have "Some x \<notin> set es" using Cons.prems(2) by auto
    with 2 Cons.IH [of "c - 1"] Cons.prems show ?thesis by (simp add: clear_entry_def)
  next
    case 3
    then show ?thesis using Cons.IH [of c] Cons.prems by (auto simp: clear_entry_def split: if_splits)
  qed
qed simp

section \<open>Removing a transaction\<close>

definition clear_wait :: "u64 \<Rightarrow> trans \<Rightarrow> trans" where
  "clear_wait x t = t\<lparr>tr_waitfor := map (clear_entry x) (tr_waitfor t),
     tr_waitfor_count := tr_waitfor_count t - (if x \<in> waits t then 1 else 0)\<rparr>"

lemma waits_iff: "Some x \<in> set (tr_waitfor t) \<longleftrightarrow> x \<in> waits t"
  by (simp add: waits_def)

lemma clear_wait_simps [simp]:
  "tr_xid (clear_wait x t) = tr_xid t" "tr_others_waiting_on_us (clear_wait x t) = tr_others_waiting_on_us t"
  "tr_locks (clear_wait x t) = tr_locks t"
  by (simp_all add: clear_wait_def)

lemma waits_clear [simp]: "waits (clear_wait x t) = waits t - {x}"
  by (auto simp: waits_def clear_wait_def clear_entry_def image_iff split: if_splits)

lemma clear_wait_idle: "x \<notin> waits t \<Longrightarrow> clear_wait x t = t"
  by (simp add: clear_wait_def clear_entry_idle waits_iff)

lemma incr_others_simps [simp]:
  "tr_xid (incr_others k t) = tr_xid t" "waits (incr_others k t) = waits t"
  "tr_waitfor (incr_others k t) = tr_waitfor t" "tr_waitfor_count (incr_others k t) = tr_waitfor_count t"
  "tr_others_waiting_on_us (incr_others k t) = tr_others_waiting_on_us t + k" "incr_others 0 t = t"
  by (simp_all add: incr_others_def waits_def)

lemma waits_others [simp]: "waits (u\<lparr>tr_others_waiting_on_us := n\<rparr>) = waits u"
  by (simp add: waits_def)

lemma filled_clear:
  "distinct (filter (\<lambda>e. e \<noteq> None) es) \<Longrightarrow>
     filled (map (clear_entry x) es) + (if Some x \<in> set es then 1 else 0) = filled es"
  by (induction es) (auto simp: clear_entry_def clear_entry_idle [unfolded clear_entry_def])

lemma distinct_filter_clear:
  "distinct (filter (\<lambda>e. e \<noteq> None) es) \<Longrightarrow> distinct (filter (\<lambda>e. e \<noteq> None) (map (clear_entry x) es))"
  by (induction es) (auto simp: clear_entry_def)

lemma slots_ok_clear: "slots_ok t \<Longrightarrow> slots_ok (clear_wait x t)"
  using filled_clear [of "tr_waitfor t" x] distinct_filter_clear [of "tr_waitfor t" x]
  by (auto simp: slots_ok_def waits_iff) (auto simp: clear_wait_def)

text \<open>On the list: clear the slot of one transaction and adjust the other's counter.\<close>

lemma update_first_xid:
  assumes "distinct (map tr_xid ts)"
  shows "update_first (\<lambda>u. tr_xid u = x) f ts = map (\<lambda>u. if tr_xid u = x then f u else u) ts"
  using assms by (induction ts) (auto intro!: map_idI [symmetric] simp: image_iff)

lemma remove_waitfor_eq:
  assumes "distinct (map tr_xid ts)" "t \<in> set ts" "slots_ok t" "tr_xid t \<noteq> x"
  shows "remove_waitfor (tr_xid t) x ts =
    map (\<lambda>u. if tr_xid u = tr_xid t then clear_wait x u
             else if tr_xid u = x then incr_others (if x \<in> waits t then - 1 else 0) u else u) ts"
proof -
  have "find (\<lambda>u. tr_xid u = tr_xid t) ts = Some t"
    using assms(1,2) by (induction ts) auto
  moreover have "clear_slots x (tr_waitfor t) (tr_waitfor_count t) =
      (map (clear_entry x) (tr_waitfor t), tr_waitfor_count t - (if x \<in> waits t then 1 else 0), if x \<in> waits t then 1 else 0)"
    using clear_slots_eq [of "tr_waitfor t" "tr_waitfor_count t" x] assms(3) by (simp add: slots_ok_def waits_iff)
  moreover have "u = t" if "u \<in> set ts" "tr_xid u = tr_xid t" for u
    using that assms(1,2) by (auto simp: distinct_map inj_on_def)
  moreover define g :: "trans \<Rightarrow> trans" where "g = (\<lambda>u. u\<lparr>tr_waitfor := map (clear_entry x) (tr_waitfor t),
      tr_waitfor_count := tr_waitfor_count t - (if x \<in> waits t then 1 else 0)\<rparr>)"
  moreover have "distinct (map tr_xid (update_first (\<lambda>u. tr_xid u = tr_xid t) g ts))"
    using assms(1) by (simp add: map_update_first g_def)
  ultimately have "remove_waitfor (tr_xid t) x ts =
      map (\<lambda>u. if tr_xid u = x then incr_others (- (if x \<in> waits t then 1 else 0)) u else u)
        (map (\<lambda>u. if tr_xid u = tr_xid t then g u else u) ts)"
    by (simp only: remove_waitfor_def option.case prod.case update_first_xid assms(1))
  also have "\<dots> = map (\<lambda>u. if tr_xid u = tr_xid t then clear_wait x u
             else if tr_xid u = x then incr_others (if x \<in> waits t then - 1 else 0) u else u) ts"
  proof -
    have g: "tr_xid (g u) = tr_xid u" for u by (simp add: g_def)
    have "g u = clear_wait x u" if "u \<in> set ts" "tr_xid u = tr_xid t" for u
      using \<open>\<And>u. u \<in> set ts \<Longrightarrow> tr_xid u = tr_xid t \<Longrightarrow> u = t\<close> [OF that] by (simp add: clear_wait_def g_def)
    then show ?thesis using assms(4) by (auto simp: g)
  qed
  finally show ?thesis .
qed

definition drop_trans :: "u64 \<Rightarrow> trans \<Rightarrow> trans" where
  "drop_trans x u = (if tr_xid u = x then u\<lparr>tr_others_waiting_on_us := 0\<rparr> else clear_wait x u)"

lemma others_of_xid:
  "distinct (map tr_xid ts) \<Longrightarrow> u \<in> set ts \<Longrightarrow> others_of (tr_xid u) ts = tr_others_waiting_on_us u"
proof -
  assume "distinct (map tr_xid ts)" "u \<in> set ts"
  then have "find (\<lambda>v. tr_xid v = tr_xid u) ts = Some u" by (induction ts) auto
  then show ?thesis by (simp add: others_of_def)
qed

lemma waiters_of_0: "waiters_of x ts = 0 \<longleftrightarrow> (\<forall>t \<in> set ts. x \<notin> waits t)"
  by (auto simp: waiters_of_def filter_empty_conv)

text \<open>What \<^verbatim>\<open>remove_trans\<close> relies on while it walks the list: \<open>us\<close> is the part still to be visited.\<close>

definition removing :: "u64 \<Rightarrow> u64 list \<Rightarrow> trans list \<Rightarrow> bool" where
  "removing x us ts \<longleftrightarrow> distinct (map tr_xid ts) \<and> (\<forall>t \<in> set ts. slots_ok t) \<and> set us \<subseteq> xids ts \<and>
     x \<in> xids ts \<and> (\<forall>t \<in> set ts. x \<in> waits t \<longrightarrow> tr_xid t \<in> set us) \<and> others_of x ts = int (waiters_of x ts)"

lemma removing_done:
  assumes "removing x us ts" "others_of x ts = 0"
  shows "map (drop_trans x) ts = ts"
proof (rule map_idI)
  fix u assume u: "u \<in> set ts"
  have "x \<notin> waits u" using assms u waiters_of_0 [of x ts] by (auto simp: removing_def)
  moreover have "tr_others_waiting_on_us u = 0" if "tr_xid u = x"
    using assms u that others_of_xid [of ts u] by (auto simp: removing_def)
  ultimately show "drop_trans x u = u" by (auto simp: drop_trans_def clear_wait_idle)
qed

lemma waiters_of_step:
  assumes "distinct (map tr_xid ts)" "t \<in> set ts" "tr_xid t \<noteq> x"
  shows "int (waiters_of x (map (\<lambda>u. if tr_xid u = tr_xid t then clear_wait x u
             else if tr_xid u = x then incr_others k u else u) ts)) =
         int (waiters_of x ts) - (if x \<in> waits t then 1 else 0)"
proof -
  let ?f = "\<lambda>u. if tr_xid u = tr_xid t then clear_wait x u else if tr_xid u = x then incr_others k u else u"
  have other: "waiters_of x (map ?f ys) = waiters_of x ys" if "tr_xid t \<notin> tr_xid ` set ys" for ys
    using that by (induction ys) (auto simp: waiters_of_def)
  obtain ys zs where ts: "ts = ys @ t # zs" using assms(2) by (auto simp: in_set_conv_decomp)
  then have "tr_xid t \<notin> tr_xid ` set ys" "tr_xid t \<notin> tr_xid ` set zs" using assms(1) by auto
  with other [of ys] other [of zs] ts show ?thesis by (simp add: waiters_of_def)
qed

lemma removing_step:
  assumes "removing x (tr_xid t # us) ts" "t \<in> set ts" "tr_xid t \<noteq> x"
  shows "removing x us (remove_waitfor (tr_xid t) x ts) \<and>
         map (drop_trans x) (remove_waitfor (tr_xid t) x ts) = map (drop_trans x) ts"
proof -
  define k :: int where "k = (if x \<in> waits t then - 1 else 0)"
  define f where "f u = (if tr_xid u = tr_xid t then clear_wait x u else if tr_xid u = x then incr_others k u else u)" for u
  note r = assms(1) [unfolded removing_def]
  have eq: "remove_waitfor (tr_xid t) x ts = map f ts"
    using remove_waitfor_eq [of ts t x] r assms(2,3) by (simp add: f_def k_def cong: map_cong)
  have f: "tr_xid (f u) = tr_xid u" "slots_ok u \<Longrightarrow> slots_ok (f u)" "x \<in> waits (f u) \<longleftrightarrow> x \<in> waits u \<and> tr_xid u \<noteq> tr_xid t"
    "drop_trans x (f u) = drop_trans x u" for u
    using assms(3) slots_ok_clear [of u x]
    by (auto simp: f_def slots_ok_def drop_trans_def clear_wait_idle incr_others_def)
  have xids: "map tr_xid (map f ts) = map tr_xid ts" "xids (map f ts) = xids ts"
    by (simp_all add: f(1) xids_def image_image)
  obtain u where u: "u \<in> set ts" "tr_xid u = x" using r by (auto simp: xids_def)
  have "others_of x (map f ts) = tr_others_waiting_on_us u + k"
  proof -
    have "distinct (map tr_xid (map f ts))" using r unfolding xids(1) by simp
    from others_of_xid [OF this, of "f u"] u assms(3) show ?thesis by (simp add: f(1)) (simp add: f_def)
  qed
  moreover have "tr_others_waiting_on_us u = int (waiters_of x ts)" using r u others_of_xid [of ts u] by simp
  moreover have "int (waiters_of x (map f ts)) = int (waiters_of x ts) + k"
    using waiters_of_step [of ts t x k] r assms(2,3) by (simp add: f_def [abs_def] k_def)
  moreover have "distinct (map (tr_xid \<circ> f) ts)" using r by (simp add: comp_def f(1))
  ultimately have "removing x us (map f ts)"
    using r xids(2) f by (auto simp: removing_def)
  then show ?thesis using f(4) by (simp add: eq comp_def)
qed

lemma remove_trans_loop_eq:
  "removing x us ts \<Longrightarrow> remove_trans_loop x us ts = map (drop_trans x) ts"
proof (induction us arbitrary: ts)
  case Nil
  then have "waiters_of x ts = 0" by (auto simp: removing_def waiters_of_0)
  with Nil removing_done [OF Nil] show ?case by (simp add: removing_def)
next
  case (Cons y us)
  show ?case
  proof (cases "y = x")
    case True
    have "removing x us ts"
      using Cons.prems True by (auto simp: removing_def slots_ok_def)
    with True Cons.IH show ?thesis by simp
  next
    case False
    obtain t where t: "t \<in> set ts" "tr_xid t = y" using Cons.prems by (auto simp: removing_def xids_def)
    show ?thesis
    proof (cases "others_of x ts = 0")
      case True
      with False removing_done [OF Cons.prems True] show ?thesis by simp
    next
      case nz: False
      have "removing x us (remove_waitfor y x ts) \<and>
          map (drop_trans x) (remove_waitfor y x ts) = map (drop_trans x) ts"
        using removing_step [of x t us ts] Cons.prems t False by simp
      with nz False Cons.IH [of "remove_waitfor y x ts"] show ?thesis by simp
    qed
  qed
qed

lemma graph_wf_removing: "graph_wf ts \<Longrightarrow> x \<in> xids ts \<Longrightarrow> removing x (map tr_xid ts) ts"
  using others_of_xid by (fastforce simp: graph_wf_def removing_def xids_def)

lemma remove_trans_eq: "graph_wf ts \<Longrightarrow> x \<in> xids ts \<Longrightarrow> remove_trans x ts = map (drop_trans x) ts"
  by (simp add: remove_trans_def remove_trans_loop_eq graph_wf_removing)

lemma delete_first_xid:
  "distinct (map tr_xid ts) \<Longrightarrow> delete_first (\<lambda>u. tr_xid u = x) ts = filter (\<lambda>u. tr_xid u \<noteq> x) ts"
proof (induction ts)
  case (Cons a ts)
  have "filter (\<lambda>u. tr_xid u \<noteq> x) ts = ts" if "tr_xid a = x"
  proof (rule filter_True)
    have "x \<notin> tr_xid ` set ts" using Cons.prems that by auto
    then show "\<forall>u \<in> set ts. tr_xid u \<noteq> x" by blast
  qed
  with Cons show ?case by auto
qed simp

definition without :: "u64 \<Rightarrow> trans list \<Rightarrow> trans list" where
  "without x ts = map (clear_wait x) (filter (\<lambda>u. tr_xid u \<noteq> x) ts)"

lemma remove_delete_eq:
  assumes "graph_wf ts" "x \<in> xids ts"
  shows "delete_first (\<lambda>u. tr_xid u = x) (remove_trans x ts) = without x ts"
proof -
  have d: "tr_xid (drop_trans x u) = tr_xid u" for u by (simp add: drop_trans_def)
  have "delete_first (\<lambda>u. tr_xid u = x) (remove_trans x ts) = filter (\<lambda>u. tr_xid u \<noteq> x) (map (drop_trans x) ts)"
    using assms xids_remove_trans [of x ts]
    by (subst delete_first_xid) (simp_all add: remove_trans_eq graph_wf_def d comp_def)
  then show ?thesis by (auto simp: without_def filter_map comp_def d drop_trans_def)
qed

lemma xids_without: "xids (without x ts) = xids ts - {x}"
  by (auto simp: xids_def without_def image_image)

lemma waiters_of_without:
  assumes "y \<noteq> x" "\<And>t. t \<in> set ts \<Longrightarrow> tr_xid t = x \<Longrightarrow> waits t = {}"
  shows "waiters_of y (without x ts) = waiters_of y ts"
  using assms(2) by (induction ts) (auto simp: waiters_of_def without_def assms(1))

text \<open>Taking out a transaction that waits for nobody keeps the invariant and the deadlocked set.\<close>

lemma graph_wf_without:
  assumes "graph_wf ts" "t \<in> set ts" "waits t = {}"
  shows "graph_wf (without (tr_xid t) ts)"
proof -
  have uniq: "waits u = {}" if "u \<in> set ts" "tr_xid u = tr_xid t" for u
    using that assms by (auto simp: graph_wf_def distinct_map inj_on_def)
  have "distinct (map tr_xid (without (tr_xid t) ts))"
    using assms(1) by (auto simp: graph_wf_def without_def comp_def distinct_map inj_on_def)
  moreover have "closed_graph (without (tr_xid t) ts)"
    using assms(1) unfolding closed_graph_def xids_without
    by (auto simp: graph_wf_def closed_graph_def without_def)
  moreover have "\<forall>u \<in> set (without (tr_xid t) ts). slots_ok u"
    using assms(1) by (auto simp: graph_wf_def without_def slots_ok_clear)
  moreover have "\<forall>u \<in> set (without (tr_xid t) ts).
      tr_others_waiting_on_us u = int (waiters_of (tr_xid u) (without (tr_xid t) ts))"
    using assms(1) waiters_of_without [of _ "tr_xid t" ts] uniq
    by (auto simp: graph_wf_def) (auto simp: without_def)
  ultimately show ?thesis by (simp add: graph_wf_def)
qed

lemma deadlocked_without:
  assumes "graph_wf ts" "t \<in> set ts" "waits t = {}"
  shows "deadlocked (without (tr_xid t) ts) = deadlocked ts"
proof
  have "stuck ts X" if "stuck (without (tr_xid t) ts) X" for X
    unfolding stuck_def
  proof (intro conjI ballI impI)
    show "X \<subseteq> xids ts" using that by (auto simp: stuck_def xids_without)
    fix u assume u: "u \<in> set ts" "tr_xid u \<in> X"
    have "X \<subseteq> xids (without (tr_xid t) ts)" using that by (simp add: stuck_def)
    then have "tr_xid u \<noteq> tr_xid t" using u(2) xids_without by blast
    then have "clear_wait (tr_xid t) u \<in> set (without (tr_xid t) ts)" using u(1) by (simp add: without_def)
    then have "waits (clear_wait (tr_xid t) u) \<inter> X \<noteq> {}"
      using that u(2) unfolding stuck_def by (metis clear_wait_simps(1))
    then show "waits u \<inter> X \<noteq> {}" by auto
  qed
  then show "deadlocked (without (tr_xid t) ts) \<subseteq> deadlocked ts" unfolding deadlocked_def by blast
next
  have "tr_xid t \<notin> deadlocked ts"
    using stuck_deadlocked [of ts] assms(2,3) by (auto simp: stuck_def)
  then have "stuck (without (tr_xid t) ts) (deadlocked ts)"
    using stuck_deadlocked [of ts] unfolding stuck_def xids_without by (auto simp: without_def)
  then show "deadlocked ts \<subseteq> deadlocked (without (tr_xid t) ts)" by (rule stuck_subset)
qed

lemma count_0_waits: "slots_ok t \<Longrightarrow> tr_waitfor_count t = 0 \<longleftrightarrow> waits t = {}"
  by (auto simp: slots_ok_def filled_0 waits_def) (metis option.exhaust)

lemma find_xid:
  "find (\<lambda>u. tr_xid u = x) ts = Some t \<Longrightarrow> t \<in> set ts \<and> tr_xid t = x"
  by (auto simp: find_Some_iff)

text \<open>What is left keeps its locks and waits for no more than before.\<close>

definition part_of :: "trans list \<Rightarrow> trans list \<Rightarrow> bool" where
  "part_of ts' ts \<longleftrightarrow> (\<forall>t' \<in> set ts'. \<exists>t \<in> set ts. tr_xid t' = tr_xid t \<and> tr_locks t' = tr_locks t \<and> waits t' \<subseteq> waits t)"

lemma part_of_refl [simp]: "part_of ts ts"
  by (auto simp: part_of_def)

lemma part_of_trans: "part_of a b \<Longrightarrow> part_of b c \<Longrightarrow> part_of a c"
  unfolding part_of_def by (metis subset_trans)

lemma part_of_without: "part_of (without x ts) ts"
  by (auto simp: part_of_def without_def)

lemma reduce_loop_deadlocked:
  assumes "reduce_loop ts xs = (ts', removed)" "graph_wf ts"
  shows "graph_wf ts' \<and> deadlocked ts' = deadlocked ts \<and> part_of ts' ts \<and>
         (removed = 0 \<longrightarrow> ts' = ts \<and> (\<forall>t \<in> set ts. tr_xid t \<in> set xs \<longrightarrow> waits t \<noteq> {}))"
  using assms
proof (induction xs arbitrary: ts ts' removed)
  case (Cons x xs)
  show ?case
  proof (cases "find (\<lambda>u. tr_xid u = x) ts")
    case None
    then have "x \<notin> xids ts" by (auto simp: find_None_iff xids_def)
    with None Cons show ?thesis by (fastforce simp: xids_def)
  next
    case (Some tr)
    then have tr: "tr \<in> set ts" "tr_xid tr = x" using find_xid by blast+
    then have ok: "slots_ok tr" using Cons.prems(2) by (simp add: graph_wf_def)
    show ?thesis
    proof (cases "tr_waitfor_count tr = 0")
      case True
      then have w: "waits tr = {}" using count_0_waits [OF ok] by simp
      obtain ts1 k where l: "reduce_loop (without x ts) xs = (ts1, k)" by fastforce
      have "reduce_loop ts (x # xs) = (ts1, k + 1)"
        using Some True l remove_delete_eq [OF Cons.prems(2), of x] tr by (auto simp: xids_def)
      then have res: "ts' = ts1" "removed = k + 1" using Cons.prems(1) by simp_all
      have "graph_wf (without x ts)" "deadlocked (without x ts) = deadlocked ts"
        using graph_wf_without [OF Cons.prems(2) tr(1) w] deadlocked_without [OF Cons.prems(2) tr(1) w] tr(2) by simp_all
      with Cons.IH [OF l] res part_of_trans [OF _ part_of_without] show ?thesis by auto
    next
      case False
      then have "waits tr \<noteq> {}" using count_0_waits [OF ok] by simp
      moreover have "u = tr" if "u \<in> set ts" "tr_xid u = x" for u
        using that tr Cons.prems(2) by (auto simp: graph_wf_def distinct_map inj_on_def)
      ultimately show ?thesis
        using False Some Cons.IH [of ts ts' removed] Cons.prems by auto
    qed
  qed
qed simp

lemma reduce_waitfor_graph_loop_correct:
  assumes "graph_wf ts"
  shows "graph_wf (reduce_waitfor_graph_loop ts) \<and> xids (reduce_waitfor_graph_loop ts) = deadlocked ts \<and>
    part_of (reduce_waitfor_graph_loop ts) ts \<and> (\<forall>t \<in> set (reduce_waitfor_graph_loop ts). waits t \<noteq> {})"
  using assms
proof (induction ts rule: reduce_waitfor_graph_loop.induct)
  case (1 ts)
  obtain ts' removed where r: "reduce_waitfor_graph ts = (ts', removed)" by fastforce
  note d = reduce_loop_deadlocked [OF r [unfolded reduce_waitfor_graph_def] 1(2)]
  show ?case
  proof (cases "removed = 0")
    case True
    then have ts': "ts' = ts" "\<forall>t \<in> set ts. waits t \<noteq> {}" using d by auto
    then have "stuck ts (xids ts)"
      using 1(2) by (fastforce simp: stuck_def graph_wf_def closed_graph_def)
    then have "xids ts = deadlocked ts" using stuck_subset stuck_deadlocked [of ts] by (auto simp: stuck_def)
    with True r ts' 1(2) show ?thesis by (simp add: reduce_waitfor_graph_loop.simps [of ts])
  next
    case False
    with 1(1) [OF r [symmetric]] d r part_of_trans [of "reduce_waitfor_graph_loop ts'" ts' ts] show ?thesis
      by (simp add: reduce_waitfor_graph_loop.simps [of ts])
  qed
qed

end
