(* ===== verification/Deadlock_Build.thy ===== *)
theory Deadlock_Build imports Deadlock_Graph begin

text \<open>
  Construction of the wait-for graph from the collected locks. The collected state stays well formed
  while locks are added, and the graph built from it satisfies the invariant of the reduction and has
  an edge exactly where a lock of one transaction is blocked by a lock of another.
\<close>

section \<open>The collected locks\<close>

definition all_lkbs :: "deadlk \<Rightarrow> nat list" where
  "all_lkbs d = concat (map rsb_locks (dl_resources d))"

definition dl_wf :: "deadlk \<Rightarrow> bool" where
  "dl_wf d \<longleftrightarrow> distinct (map rsb_addr (dl_resources d)) \<and> distinct (all_lkbs d) \<and>
     (\<forall>r \<in> set (dl_resources d). rsb_addr r < dl_next d \<and>
        (\<forall>a \<in> set (rsb_locks r). a < dl_next d \<and> lkb_rsb (dl_lkbs d a) = rsb_addr r))"

lemma dl_wf_empty: "dl_resources d = [] \<Longrightarrow> dl_wf d"
  by (simp add: dl_wf_def all_lkbs_def)

lemma get_resource_wf:
  assumes "dl_wf d" "get_resource d name len = (ra, d')"
  shows "dl_wf d'"
proof -
  have "rsb_addr r \<noteq> dl_next d" if "r \<in> set (dl_resources d)" for r
    using assms(1) that by (auto simp: dl_wf_def)
  with assms show ?thesis
    by (auto simp: get_resource_def dl_wf_def all_lkbs_def split: option.splits) (force simp: less_Suc_eq)+
qed

lemma set_all_lkbs: "set (all_lkbs d) = (\<Union>r \<in> set (dl_resources d). set (rsb_locks r))"
  by (auto simp: all_lkbs_def)

lemma fill_lkb_simps [simp]:
  "lkb_rsb (fill_lkb lkb n l) = lkb_rsb lkb" "lkb_trans (fill_lkb lkb n l) = lkb_trans lkb"
  by (auto simp: fill_lkb_def)

lemma update_first_split:
  "distinct (map f xs) \<Longrightarrow> x \<in> set xs \<Longrightarrow>
     \<exists>ys zs. xs = ys @ x # zs \<and> update_first (\<lambda>y. f y = f x) g xs = ys @ g x # zs"
proof (induction xs)
  case (Cons a xs)
  show ?case
  proof (cases "a = x")
    case True
    then show ?thesis by (intro exI [of _ "[]"] exI [of _ xs]) simp
  next
    case False
    with Cons.prems have x: "x \<in> set xs" "f a \<noteq> f x" by auto
    obtain ys zs where "xs = ys @ x # zs" "update_first (\<lambda>y. f y = f x) g xs = ys @ g x # zs"
      using Cons.IH [OF _ x(1)] Cons.prems(1) by auto
    with x(2) show ?thesis by (intro exI [of _ "a # ys"] exI [of _ zs]) simp
  qed
qed simp

lemma dl_add_lock_wf:
  assumes "dl_wf d"
  shows "dl_wf (dl_add_lock d ra n lock)"
proof (cases "rsb_at d ra")
  case (Some r)
  then have r: "r \<in> set (dl_resources d)" "rsb_addr r = ra" by (auto simp: rsb_at_def find_Some_iff)
  show ?thesis
  proof (cases "get_lkb d r lock")
    case None
    define la where "la = dl_next d"
    obtain ys zs where rs: "dl_resources d = ys @ r # zs"
      "update_first (\<lambda>y. rsb_addr y = ra) (\<lambda>r. r\<lparr>rsb_locks := la # rsb_locks r\<rparr>) (dl_resources d) =
         ys @ r\<lparr>rsb_locks := la # rsb_locks r\<rparr> # zs"
      using update_first_split [of rsb_addr "dl_resources d" r "\<lambda>r. r\<lparr>rsb_locks := la # rsb_locks r\<rparr>"] assms r
      unfolding dl_wf_def r(2) by blast
    have new: "la \<notin> set (rsb_locks q)" if "q \<in> set (dl_resources d)" for q
      using assms that by (auto simp: dl_wf_def la_def)
    have "dl_add_lock d ra n lock = d\<lparr>dl_resources := ys @ r\<lparr>rsb_locks := la # rsb_locks r\<rparr> # zs,
        dl_lkbs := (dl_lkbs d)(la := (fill_lkb create_lkb n lock)\<lparr>lkb_rsb := ra\<rparr>), dl_next := la + 1\<rparr>"
      using Some None rs(2) by (simp add: dl_add_lock_def add_lkb_def Let_def la_def)
    then show ?thesis
      using assms new r(2) unfolding dl_wf_def all_lkbs_def
      by (auto simp: rs(1) la_def less_Suc_eq)
  next
    case (Some la)
    with \<open>rsb_at d ra = Some r\<close> assms show ?thesis
      by (auto simp: dl_add_lock_def dl_wf_def all_lkbs_def)
  qed
qed (use assms in \<open>simp add: dl_add_lock_def\<close>)

lemma read_debugfs_loop_wf: "dl_wf d \<Longrightarrow> dl_wf (read_debugfs_loop our_id lines d)"
  by (induction our_id lines d rule: read_debugfs_loop.induct)
     (simp_all split: prod.splits, metis dl_add_lock_wf get_resource_wf)

lemma read_checkpoint_locks_wf:
  assumes "dl_wf d"
  shows "dl_wf (read_checkpoint_locks be n numbuf locks d)"
proof -
  have "dl_wf (foldl (\<lambda>d l. dl_add_lock d ra n (lock_in be l)) d' locks)" if "dl_wf d'" for d' ra
    using that by (induction locks arbitrary: d') (simp_all add: dl_add_lock_wf)
  with assms get_resource_wf show ?thesis
    by (auto simp: read_checkpoint_locks_def split: prod.splits)
qed

lemma read_checkpoint_wf: "dl_wf d \<Longrightarrow> dl_wf (read_checkpoint be our_id n items d)"
proof -
  have "dl_wf d \<Longrightarrow> dl_wf (read_checkpoint_loop be n its d)" for its
    by (induction be n its d rule: read_checkpoint_loop.induct) (simp_all add: read_checkpoint_locks_wf)
  then show "dl_wf d \<Longrightarrow> ?thesis" by (simp add: read_checkpoint_def split: option.splits)
qed

section \<open>Transactions\<close>

definition lk_xid :: "deadlk \<Rightarrow> nat \<Rightarrow> u64" where
  "lk_xid d a = pl_xid (lkb_lock (dl_lkbs d a))"

definition empty_trans :: "trans \<Rightarrow> bool" where
  "empty_trans t \<longleftrightarrow> tr_waitfor t = [] \<and> tr_waitfor_count t = 0 \<and> tr_others_waiting_on_us t = 0"

lemma xids_map: "xids ts = set (map tr_xid ts)"
  by (simp add: xids_def)

lemma find_xid_mem: "find (\<lambda>t. tr_xid t = x) ts = Some t \<Longrightarrow> x \<in> xids ts"
  by (auto simp: find_Some_iff xids_def)

text \<open>The state after the locks \<open>as\<close> have been put on transactions.\<close>

definition trans_built :: "deadlk \<Rightarrow> nat list \<Rightarrow> deadlk \<Rightarrow> bool" where
  "trans_built d0 as d \<longleftrightarrow> dl_resources d = dl_resources d0 \<and> dl_next d = dl_next d0 \<and>
     (\<forall>a. lkb_lock (dl_lkbs d a) = lkb_lock (dl_lkbs d0 a) \<and> lkb_rsb (dl_lkbs d a) = lkb_rsb (dl_lkbs d0 a)) \<and>
     (\<forall>a \<in> set as. lkb_trans (dl_lkbs d a) = Some (lk_xid d0 a)) \<and>
     distinct (map tr_xid (dl_transactions d)) \<and> xids (dl_transactions d) = lk_xid d0 ` set as \<and>
     (\<forall>t \<in> set (dl_transactions d). empty_trans t \<and> set (tr_locks t) = {a \<in> set as. lk_xid d0 a = tr_xid t})"

lemma trans_built_step:
  assumes "trans_built d0 as d"
  shows "trans_built d0 (as @ [a]) (add_to_trans d a)"
proof -
  let ?x = "lk_xid d0 a"
  have x: "pl_xid (lkb_lock (dl_lkbs d a)) = ?x" using assms by (simp add: trans_built_def lk_xid_def)
  define ts where "ts = get_trans (dl_transactions d) ?x"
  have ts: "distinct (map tr_xid ts)" "xids ts = lk_xid d0 ` set (as @ [a])"
    "\<forall>t \<in> set ts. empty_trans t \<and> set (tr_locks t) = {b \<in> set as. lk_xid d0 b = tr_xid t}"
  proof -
    consider (old) t where "find (\<lambda>t. tr_xid t = ?x) (dl_transactions d) = Some t" "?x \<in> xids (dl_transactions d)"
      | (new) "find (\<lambda>t. tr_xid t = ?x) (dl_transactions d) = None" "?x \<notin> xids (dl_transactions d)"
      by (cases "find (\<lambda>t. tr_xid t = ?x) (dl_transactions d)")
         (fastforce simp: find_None_iff xids_def image_iff, metis find_xid_mem)
    then have "distinct (map tr_xid ts) \<and> xids ts = lk_xid d0 ` set (as @ [a]) \<and>
        (\<forall>t \<in> set ts. empty_trans t \<and> set (tr_locks t) = {b \<in> set as. lk_xid d0 b = tr_xid t})"
    proof cases
      case old
      then have "ts = dl_transactions d" by (simp add: ts_def get_trans_def)
      with assms old(2) show ?thesis by (simp add: trans_built_def insert_absorb)
    next
      case new
      have ne: "lk_xid d0 b \<noteq> ?x" if "b \<in> set as" for b
        using new(2) assms imageI [OF that, of "lk_xid d0"] unfolding trans_built_def by metis
      define tr where "tr = \<lparr>tr_locks = [], tr_xid = ?x, tr_others_waiting_on_us = 0, tr_waitfor_count = 0, tr_waitfor = []\<rparr>"
      have tr: "ts = tr # dl_transactions d" "empty_trans tr" "tr_xid tr = ?x" "tr_locks tr = []"
        using new(1) by (simp_all add: ts_def get_trans_def empty_trans_def tr_def)
      have "{b \<in> set as. lk_xid d0 b = ?x} = {}" using ne by blast
      with assms new(2) tr show ?thesis by (simp add: trans_built_def xids_def)
    qed
    then show "distinct (map tr_xid ts)" "xids ts = lk_xid d0 ` set (as @ [a])"
      "\<forall>t \<in> set ts. empty_trans t \<and> set (tr_locks t) = {b \<in> set as. lk_xid d0 b = tr_xid t}" by blast+
  qed
  define h :: "trans \<Rightarrow> trans" where "h t = (if tr_xid t = ?x then t\<lparr>tr_locks := a # tr_locks t\<rparr> else t)" for t
  have d': "add_to_trans d a = d\<lparr>dl_transactions := map h ts,
      dl_lkbs := (dl_lkbs d)(a := (dl_lkbs d a)\<lparr>lkb_trans := Some ?x\<rparr>)\<rparr>"
    by (simp add: add_to_trans_def add_lkb_trans_def Let_def x update_first_xid ts(1) h_def flip: ts_def)
  have hx: "tr_xid (h t) = tr_xid t" for t by (simp add: h_def)
  have "empty_trans (h t) \<and> set (tr_locks (h t)) = {b \<in> set (as @ [a]). lk_xid d0 b = tr_xid t}" if "t \<in> set ts" for t
    using ts(3) that by (auto simp: empty_trans_def h_def)
  moreover have "distinct (map tr_xid (map h ts))" "xids (map h ts) = lk_xid d0 ` set (as @ [a])"
    using ts(1,2) by (simp_all add: o_def hx xids_def image_image)
  ultimately show ?thesis
    using assms unfolding trans_built_def d' by (simp add: hx)
qed

lemma create_trans_list_built:
  assumes "dl_transactions d = []"
  shows "trans_built d (all_lkbs d) (create_trans_list d)"
proof -
  have fl: "foldl (\<lambda>d r. foldl add_to_trans d (rsb_locks r)) e rs = foldl add_to_trans e (concat (map rsb_locks rs))" for e rs
    by (induction rs arbitrary: e) simp_all
  have "trans_built d (as @ bs) (foldl add_to_trans e bs)" if "trans_built d as e" for as bs e
    using that by (induction bs arbitrary: as e) (simp_all, metis append.assoc append_Cons append_Nil trans_built_step)
  from this [of "[]" d "all_lkbs d"] show ?thesis
    using assms by (simp add: create_trans_list_def fl all_lkbs_def [symmetric] trans_built_def xids_def)
qed

section \<open>Edges\<close>

text \<open>The array of a transaction under construction: its entries, then unused slots.\<close>

definition packed_slots :: "trans \<Rightarrow> bool" where
  "packed_slots t \<longleftrightarrow> (\<exists>xs k. tr_waitfor t = map Some xs @ replicate k None \<and> distinct xs \<and>
     tr_xid t \<notin> set xs \<and> tr_waitfor_count t = int (length xs))"

lemma packed_slots_ok: "packed_slots t \<Longrightarrow> slots_ok t"
proof -
  assume "packed_slots t"
  then obtain xs k where t: "tr_waitfor t = map Some xs @ replicate k None" "distinct xs" "tr_xid t \<notin> set xs"
    "tr_waitfor_count t = int (length xs)" by (auto simp: packed_slots_def)
  have "filter (\<lambda>e. e \<noteq> None) (tr_waitfor t) = map Some xs" by (simp add: t(1) filter_map o_def)
  with t show ?thesis by (auto simp: slots_ok_def waits_def filled_def distinct_map)
qed

lemma push_waitfor_simps [simp]:
  "tr_xid (push_waitfor x t) = tr_xid t" "tr_locks (push_waitfor x t) = tr_locks t"
  "tr_others_waiting_on_us (push_waitfor x t) = tr_others_waiting_on_us t"
  by (simp_all add: push_waitfor_def grow_waitfor_def Let_def)

lemma push_waitfor_packed:
  assumes "packed_slots t" "x \<notin> waits t" "x \<noteq> tr_xid t"
  shows "packed_slots (push_waitfor x t) \<and> waits (push_waitfor x t) = insert x (waits t)"
proof -
  obtain xs k where t: "tr_waitfor t = map Some xs @ replicate k None" "distinct xs" "tr_xid t \<notin> set xs"
    "tr_waitfor_count t = int (length xs)" using assms(1) by (auto simp: packed_slots_def)
  have g: "\<exists>j. tr_waitfor (grow_waitfor t) = map Some xs @ None # replicate j None"
  proof (cases k)
    case 0
    with t show ?thesis by (intro exI [of _ "TR_NALLOC - 1"]) (simp add: grow_waitfor_def TR_NALLOC_def eval_nat_numeral)
  next
    case (Suc j)
    with t show ?thesis by (intro exI [of _ j]) (simp add: grow_waitfor_def)
  qed
  then obtain j where j: "tr_waitfor (grow_waitfor t) = map Some xs @ None # replicate j None" ..
  have c: "tr_waitfor_count (grow_waitfor t) = int (length xs)" by (simp add: grow_waitfor_def t(4))
  have p: "tr_waitfor (push_waitfor x t) = map Some (xs @ [x]) @ replicate j None"
    "tr_waitfor_count (push_waitfor x t) = int (length (xs @ [x]))"
    by (simp_all add: push_waitfor_def Let_def j c list_update_append)
  have "x \<notin> set xs" using assms(2) t(1) by (auto simp: waits_def)
  with p t assms(3) have "packed_slots (push_waitfor x t)"
    unfolding packed_slots_def by (intro exI [of _ "xs @ [x]"] exI [of _ j]) simp
  moreover have "waits (push_waitfor x t) = insert x (waits t)"
    using p(1) t(1) by (auto simp: waits_def)
  ultimately show ?thesis by simp
qed

text \<open>
  A waiting or converting lock is blocked by a granted or converting lock of another transaction whose
  granted mode is incompatible with the requested one.
\<close>

definition blocks :: "deadlk \<Rightarrow> nat \<times> nat \<Rightarrow> bool" where
  "blocks d = (\<lambda>(wa, ga). lk_xid d wa \<noteq> lk_xid d ga \<and>
     \<not> dlm_modes_compat (pl_grmode (lkb_lock (dl_lkbs d ga))) (pl_rqmode (lkb_lock (dl_lkbs d wa))))"

definition block_edges :: "deadlk \<Rightarrow> (nat \<times> nat) set \<Rightarrow> (u64 \<times> u64) set" where
  "block_edges d P = (\<lambda>(wa, ga). (lk_xid d wa, lk_xid d ga)) ` {p \<in> P. blocks d p}"

text \<open>The state after the pairs \<open>P\<close> have been tested; \<open>d0\<close> is the state with all transactions and no edge.\<close>

definition edges_built :: "deadlk \<Rightarrow> (nat \<times> nat) set \<Rightarrow> deadlk \<Rightarrow> bool" where
  "edges_built d0 P d \<longleftrightarrow> dl_resources d = dl_resources d0 \<and>
     (\<forall>a. lkb_lock (dl_lkbs d a) = lkb_lock (dl_lkbs d0 a) \<and> lkb_rsb (dl_lkbs d a) = lkb_rsb (dl_lkbs d0 a) \<and>
          lkb_trans (dl_lkbs d a) = lkb_trans (dl_lkbs d0 a)) \<and>
     map tr_xid (dl_transactions d) = map tr_xid (dl_transactions d0) \<and>
     map tr_locks (dl_transactions d) = map tr_locks (dl_transactions d0) \<and>
     (\<forall>t \<in> set (dl_transactions d). packed_slots t \<and> waits t = {y. (tr_xid t, y) \<in> block_edges d0 P} \<and>
        tr_others_waiting_on_us t = int (waiters_of (tr_xid t) (dl_transactions d)))"

lemma block_edges_insert:
  "block_edges d (insert (wa, ga) P) =
     (if blocks d (wa, ga) then insert (lk_xid d wa, lk_xid d ga) (block_edges d P) else block_edges d P)"
  by (auto simp: block_edges_def)

lemma waiters_of_push:
  assumes "distinct (map tr_xid ts)" "tr \<in> set ts" "g \<notin> waits tr"
    "\<And>u. tr_xid (f u) = tr_xid u" "\<And>u. u \<in> set ts \<Longrightarrow> waits (f u) = (if tr_xid u = tr_xid tr then insert g (waits u) else waits u)"
  shows "waiters_of x (map f ts) = waiters_of x ts + (if x = g then 1 else 0)"
  using assms
proof (induction ts)
  case (Cons u us)
  show ?case
  proof (cases "u = tr")
    case True
    then have n: "tr_xid v \<noteq> tr_xid tr" if "v \<in> set us" for v using Cons.prems(1) that by (auto simp: image_iff)
    have "map (\<lambda>v. x \<in> waits (f v)) us = map (\<lambda>v. x \<in> waits v) us"
      using n Cons.prems(5) by simp
    then have "waiters_of x (map f us) = waiters_of x us"
      unfolding waiters_of_def by (induction us) (auto split: if_splits)
    then show ?thesis using Cons.prems(3) Cons.prems(5) [of u] True by (auto simp: waiters_of_def)
  next
    case False
    with Cons.prems have "tr_xid u \<noteq> tr_xid tr" "tr \<in> set us" by auto
    with Cons show ?thesis by (auto simp: waiters_of_def)
  qed
qed simp

lemma find_distinct_xid:
  "distinct (map tr_xid ts) \<Longrightarrow> t \<in> set ts \<Longrightarrow> find (\<lambda>x. tr_xid x = tr_xid t) ts = Some t"
  by (induction ts) auto

lemma add_waitfor_built:
  assumes "edges_built d0 P d" "distinct (map tr_xid (dl_transactions d0))"
    "lkb_trans (dl_lkbs d0 wa) = Some (lk_xid d0 wa)" "lkb_trans (dl_lkbs d0 ga) = Some (lk_xid d0 ga)"
    "lk_xid d0 wa \<in> xids (dl_transactions d0)"
  shows "edges_built d0 (insert (wa, ga) P) (add_waitfor d wa ga)"
proof -
  let ?t = "lk_xid d0 wa" and ?g = "lk_xid d0 ga"
  have lk: "lkb_trans (dl_lkbs d wa) = Some ?t" "lkb_trans (dl_lkbs d ga) = Some ?g"
    "lkb_lock (dl_lkbs d ga) = lkb_lock (dl_lkbs d0 ga)" "lkb_lock (dl_lkbs d wa) = lkb_lock (dl_lkbs d0 wa)"
    using assms by (simp_all add: edges_built_def)
  have mx: "map tr_xid (dl_transactions d) = map tr_xid (dl_transactions d0)"
    using assms(1) by (simp add: edges_built_def)
  have dist: "distinct (map tr_xid (dl_transactions d))" using mx assms(2) by simp
  have "?t \<in> xids (dl_transactions d)" using assms(5) arg_cong [OF mx, of set] by (simp add: xids_def)
  then obtain tr where tr: "tr \<in> set (dl_transactions d)" "tr_xid tr = ?t" by (auto simp: xids_def)
  have f: "find (\<lambda>x. tr_xid x = ?t) (dl_transactions d) = Some tr" using find_distinct_xid [OF dist tr(1)] tr(2) by simp
  have trp: "packed_slots tr" "waits tr = {y. (?t, y) \<in> block_edges d0 P}"
    using assms(1) tr by (auto simp: edges_built_def)
  have cnt: "tr_waitfor_count tr \<noteq> 0" if "?g \<in> waits tr"
    using trp(1) that by (auto simp: packed_slots_def waits_def)
  show ?thesis
  proof (cases "blocks d0 (wa, ga) \<and> ?g \<notin> waits tr")
    case True
    then have b: "blocks d0 (wa, ga)" "?g \<notin> waits tr" "?t \<noteq> ?g" by (auto simp: blocks_def)
    define f where "f u = (if tr_xid u = ?t then push_waitfor ?g u else if tr_xid u = ?g then incr_others 1 u else u)" for u
    have fx: "tr_xid (f u) = tr_xid u" "tr_locks (f u) = tr_locks u" for u by (simp_all add: f_def incr_others_def)
    have uniq: "u = tr" if "u \<in> set (dl_transactions d)" "tr_xid u = ?t" for u
      using find_distinct_xid [OF dist that(1)] that(2) f by simp
    have ts: "update_first (\<lambda>x. tr_xid x = ?g) (incr_others 1)
               (update_first (\<lambda>x. tr_xid x = ?t) (push_waitfor ?g) (dl_transactions d)) = map f (dl_transactions d)"
    proof -
      have "distinct (map tr_xid (map (\<lambda>u. if tr_xid u = ?t then push_waitfor ?g u else u) (dl_transactions d)))"
        using dist by (simp add: o_def if_distrib [of tr_xid] cong: if_cong)
      from update_first_xid [OF this] show ?thesis using b(3) by (simp add: update_first_xid [OF dist] f_def)
    qed
    have push: "packed_slots (push_waitfor ?g tr)" "waits (push_waitfor ?g tr) = insert ?g (waits tr)"
      using push_waitfor_packed [OF trp(1) b(2)] b(3) tr(2) by auto
    have fw: "waits (f u) = (if tr_xid u = tr_xid tr then insert ?g (waits u) else waits u)"
      if "u \<in> set (dl_transactions d)" for u
      using uniq [OF that] push(2) tr(2) by (auto simp: f_def)
    have wo: "waiters_of x (map f (dl_transactions d)) = waiters_of x (dl_transactions d) + (if x = ?g then 1 else 0)" for x
      using waiters_of_push [OF dist tr(1) b(2) fx(1) fw] .
    have fp: "packed_slots (f u)" if "u \<in> set (dl_transactions d)" for u
    proof (cases "tr_xid u = ?t")
      case False
      have "packed_slots u" using assms(1) that by (simp add: edges_built_def)
      with False show ?thesis by (auto simp: f_def packed_slots_def)
    qed (use uniq [OF that] push(1) in \<open>simp add: f_def\<close>)
    have fo: "tr_others_waiting_on_us (f u) = tr_others_waiting_on_us u + (if tr_xid u = ?g then 1 else 0)" for u
      using b(3) by (auto simp: f_def)
    have d': "add_waitfor d wa ga = d\<lparr>dl_transactions := map f (dl_transactions d),
        dl_lkbs := (dl_lkbs d)(wa := (dl_lkbs d wa)\<lparr>lkb_waitfor_trans := Some ?g\<rparr>)\<rparr>"
      using b f lk by (auto simp: add_waitfor_def locks_compat_def blocks_def in_waitfor_def waits_def ts)
    have E: "waits (f u) = {y. (tr_xid u, y) \<in> block_edges d0 (insert (wa, ga) P)}"
      if "u \<in> set (dl_transactions d)" for u
    proof -
      have "waits u = {y. (tr_xid u, y) \<in> block_edges d0 P}" using assms(1) that by (simp add: edges_built_def)
      then show ?thesis using fw [OF that] b(1) tr(2) by (auto simp: block_edges_insert)
    qed
    have O: "tr_others_waiting_on_us (f u) = int (waiters_of (tr_xid u) (map f (dl_transactions d)))"
      if "u \<in> set (dl_transactions d)" for u
    proof -
      have "tr_others_waiting_on_us u = int (waiters_of (tr_xid u) (dl_transactions d))"
        using assms(1) that by (simp add: edges_built_def)
      then show ?thesis by (simp add: fo wo)
    qed
    show ?thesis unfolding edges_built_def d'
      using assms(1) fp E O by (simp add: edges_built_def fx o_def)
  next
    case False
    have "add_waitfor d wa ga = d"
      using False f lk cnt by (auto simp: add_waitfor_def locks_compat_def blocks_def in_waitfor_def waits_def)
    moreover have "block_edges d0 (insert (wa, ga) P) = block_edges d0 P"
      using False trp(2) by (auto simp: block_edges_insert)
    ultimately show ?thesis using assms(1) by (simp add: edges_built_def)
  qed
qed

text \<open>The pairs tested for one lock, and for the whole state.\<close>

definition lkb_pairs :: "deadlk \<Rightarrow> nat \<Rightarrow> (nat \<times> nat) set" where
  "lkb_pairs d wa = {(wa, ga) | ga r. r \<in> set (dl_resources d) \<and> rsb_addr r = lkb_rsb (dl_lkbs d wa) \<and>
     ga \<in> set (rsb_locks r) \<and> pl_status (lkb_lock (dl_lkbs d wa)) \<noteq> DLM_LKSTS_GRANTED \<and>
     pl_status (lkb_lock (dl_lkbs d ga)) \<noteq> DLM_LKSTS_WAITING}"

definition blocked_on :: "deadlk \<Rightarrow> (u64 \<times> u64) set" where
  "blocked_on d = {(lk_xid d w, lk_xid d g) | r w g. r \<in> set (dl_resources d) \<and>
     w \<in> set (rsb_locks r) \<and> g \<in> set (rsb_locks r) \<and>
     pl_status (lkb_lock (dl_lkbs d w)) \<noteq> DLM_LKSTS_GRANTED \<and>
     pl_status (lkb_lock (dl_lkbs d g)) \<noteq> DLM_LKSTS_WAITING \<and> lk_xid d w \<noteq> lk_xid d g \<and>
     \<not> dlm_modes_compat (pl_grmode (lkb_lock (dl_lkbs d g))) (pl_rqmode (lkb_lock (dl_lkbs d w)))}"

text \<open>What the construction relies on: every collected lock is on the transaction of its xid.\<close>

definition on_trans :: "deadlk \<Rightarrow> bool" where
  "on_trans d \<longleftrightarrow> dl_wf d \<and> distinct (map tr_xid (dl_transactions d)) \<and>
     (\<forall>a \<in> set (all_lkbs d). lkb_trans (dl_lkbs d a) = Some (lk_xid d a) \<and> lk_xid d a \<in> xids (dl_transactions d))"

lemma add_waitfor_fold:
  assumes "on_trans d0" "wa \<in> set (all_lkbs d0)" "set gs \<subseteq> set (all_lkbs d0)" "edges_built d0 P d"
  shows "edges_built d0 (P \<union> {(wa, ga) | ga. ga \<in> set gs \<and> pl_status (lkb_lock (dl_lkbs d0 ga)) \<noteq> DLM_LKSTS_WAITING})
    (foldl (\<lambda>d ga. if pl_status (lkb_lock (dl_lkbs d ga)) = DLM_LKSTS_WAITING then d else add_waitfor d wa ga) d gs)"
  using assms(3,4)
proof (induction gs arbitrary: P d)
  case (Cons g gs)
  have lk: "lkb_lock (dl_lkbs d g) = lkb_lock (dl_lkbs d0 g)" using Cons.prems(2) by (simp add: edges_built_def)
  show ?case
  proof (cases "pl_status (lkb_lock (dl_lkbs d0 g)) = DLM_LKSTS_WAITING")
    case True
    then have "{(wa, ga) | ga. ga \<in> set (g # gs) \<and> pl_status (lkb_lock (dl_lkbs d0 ga)) \<noteq> DLM_LKSTS_WAITING} =
        {(wa, ga) | ga. ga \<in> set gs \<and> pl_status (lkb_lock (dl_lkbs d0 ga)) \<noteq> DLM_LKSTS_WAITING}" by auto
    with True lk Cons show ?thesis by simp
  next
    case False
    have "edges_built d0 (insert (wa, g) P) (add_waitfor d wa g)"
      using add_waitfor_built Cons.prems assms(1,2) by (simp add: on_trans_def)
    moreover have "insert (wa, g) P \<union> {(wa, ga) | ga. ga \<in> set gs \<and> pl_status (lkb_lock (dl_lkbs d0 ga)) \<noteq> DLM_LKSTS_WAITING} =
        P \<union> {(wa, ga) | ga. ga \<in> set (g # gs) \<and> pl_status (lkb_lock (dl_lkbs d0 ga)) \<noteq> DLM_LKSTS_WAITING}"
      using False by auto
    ultimately show ?thesis using Cons.IH [of "insert (wa, g) P" "add_waitfor d wa g"] Cons.prems(1) False lk by simp
  qed
qed simp

lemma lkb_pairs_eq:
  assumes "dl_wf d" "r \<in> set (dl_resources d)" "wa \<in> set (rsb_locks r)"
  shows "lkb_pairs d wa = (if pl_status (lkb_lock (dl_lkbs d wa)) = DLM_LKSTS_GRANTED then {}
      else {(wa, ga) | ga. ga \<in> set (rsb_locks r) \<and> pl_status (lkb_lock (dl_lkbs d ga)) \<noteq> DLM_LKSTS_WAITING})"
proof -
  have a: "lkb_rsb (dl_lkbs d wa) = rsb_addr r" using assms by (simp add: dl_wf_def)
  have "q = r" if "q \<in> set (dl_resources d)" "rsb_addr q = rsb_addr r" for q
    using that assms(1,2) unfolding dl_wf_def distinct_map inj_on_def by blast
  with assms(2) show ?thesis unfolding lkb_pairs_def a by auto
qed

lemma find_rsb:
  "distinct (map rsb_addr rs) \<Longrightarrow> r \<in> set rs \<Longrightarrow> find (\<lambda>q. rsb_addr q = rsb_addr r) rs = Some r"
  by (induction rs) auto

lemma waitfor_lkb_built:
  assumes "on_trans d0" "wa \<in> set (all_lkbs d0)" "edges_built d0 P d"
  shows "edges_built d0 (P \<union> lkb_pairs d0 wa) (waitfor_lkb d wa)"
proof -
  obtain r where r: "r \<in> set (dl_resources d0)" "wa \<in> set (rsb_locks r)" using assms(2) by (auto simp: set_all_lkbs)
  have wf: "dl_wf d0" using assms(1) by (simp add: on_trans_def)
  with r have a: "lkb_rsb (dl_lkbs d0 wa) = rsb_addr r" "distinct (map rsb_addr (dl_resources d0))"
    by (simp_all add: dl_wf_def)
  have same: "lkb_rsb (dl_lkbs d wa) = lkb_rsb (dl_lkbs d0 wa)" "lkb_lock (dl_lkbs d wa) = lkb_lock (dl_lkbs d0 wa)"
    "dl_resources d = dl_resources d0" using assms(3) by (simp_all add: edges_built_def)
  have f: "rsb_at d (lkb_rsb (dl_lkbs d wa)) = Some r"
    by (simp add: rsb_at_def same a(1) find_rsb [OF a(2) r(1)])
  have "set (rsb_locks r) \<subseteq> set (all_lkbs d0)" using r(1) by (auto simp: set_all_lkbs)
  from add_waitfor_fold [OF assms(1,2) this assms(3)] assms(3) show ?thesis
    unfolding lkb_pairs_eq [OF wf r] waitfor_lkb_def same(2) f by simp
qed

lemma create_waitfor_graph_built:
  assumes "on_trans d0" "\<And>t. t \<in> set (dl_transactions d0) \<Longrightarrow> empty_trans t"
    "(\<Union>t \<in> set (dl_transactions d0). set (tr_locks t)) = set (all_lkbs d0)"
  shows "edges_built d0 (\<Union>wa \<in> set (all_lkbs d0). lkb_pairs d0 wa) (create_waitfor_graph d0)"
proof -
  have fl: "foldl (\<lambda>d t. foldl waitfor_lkb d (tr_locks t)) e ts = foldl waitfor_lkb e (concat (map tr_locks ts))" for e ts
    by (induction ts arbitrary: e) simp_all
  have loop: "edges_built d0 (P \<union> (\<Union>wa \<in> set as. lkb_pairs d0 wa)) (foldl waitfor_lkb d as)"
    if "edges_built d0 P d" "set as \<subseteq> set (all_lkbs d0)" for P d as
    using that
  proof (induction as arbitrary: P d)
    case (Cons a as)
    then show ?case using Cons.IH [OF waitfor_lkb_built [OF assms(1) _ Cons.prems(1), of a]] by (simp add: Un_assoc)
  qed simp
  have "packed_slots t \<and> waits t = {}" if "t \<in> set (dl_transactions d0)" for t
    using assms(2) [OF that] by (auto simp: empty_trans_def packed_slots_def waits_def)
  moreover from this have "waiters_of x (dl_transactions d0) = 0" for x by (simp add: waiters_of_0)
  moreover have "tr_others_waiting_on_us t = 0" if "t \<in> set (dl_transactions d0)" for t
    using assms(2) [OF that] by (simp add: empty_trans_def)
  ultimately have "edges_built d0 {} d0" by (simp add: edges_built_def block_edges_def)
  from loop [OF this, of "concat (map tr_locks (dl_transactions d0))"] assms(3) show ?thesis
    by (simp add: create_waitfor_graph_def fl)
qed

lemma block_edges_all:
  assumes "dl_wf d"
  shows "block_edges d (\<Union>wa \<in> set (all_lkbs d). lkb_pairs d wa) = blocked_on d"
proof -
  have "(\<Union>wa \<in> set (all_lkbs d). lkb_pairs d wa) = {(w, g). \<exists>r \<in> set (dl_resources d).
      w \<in> set (rsb_locks r) \<and> g \<in> set (rsb_locks r) \<and>
      pl_status (lkb_lock (dl_lkbs d w)) \<noteq> DLM_LKSTS_GRANTED \<and> pl_status (lkb_lock (dl_lkbs d g)) \<noteq> DLM_LKSTS_WAITING}"
    using lkb_pairs_eq [OF assms] by (auto simp: set_all_lkbs split: if_splits)
  then show ?thesis by (auto simp: block_edges_def blocks_def blocked_on_def image_iff)
qed

lemma edges_built_graph:
  assumes "edges_built d0 P d" "distinct (map tr_xid (dl_transactions d0))"
    "block_edges d0 P \<subseteq> xids (dl_transactions d0) \<times> xids (dl_transactions d0)"
  shows "graph_wf (dl_transactions d) \<and> wait_edges (dl_transactions d) = block_edges d0 P"
proof -
  have mx: "map tr_xid (dl_transactions d) = map tr_xid (dl_transactions d0)" using assms(1) by (simp add: edges_built_def)
  then have X: "xids (dl_transactions d) = xids (dl_transactions d0)" unfolding xids_def by (metis set_map)
  have w: "waits t = {y. (tr_xid t, y) \<in> block_edges d0 P}" if "t \<in> set (dl_transactions d)" for t
    using assms(1) that by (simp add: edges_built_def)
  have "closed_graph (dl_transactions d)" unfolding closed_graph_def X using w assms(3) by auto
  moreover have "wait_edges (dl_transactions d) = block_edges d0 P"
  proof
    show "wait_edges (dl_transactions d) \<subseteq> block_edges d0 P" using w by (auto simp: wait_edges_def)
    show "block_edges d0 P \<subseteq> wait_edges (dl_transactions d)"
    proof
      fix e assume "e \<in> block_edges d0 P"
      then obtain x y where e: "e = (x, y)" "(x, y) \<in> block_edges d0 P" by (cases e) auto
      with assms(3) have "x \<in> xids (dl_transactions d)" unfolding X by blast
      then obtain t where "t \<in> set (dl_transactions d)" "x = tr_xid t" unfolding xids_def by blast
      with w [of t] e show "e \<in> wait_edges (dl_transactions d)" unfolding wait_edges_def by blast
    qed
  qed
  ultimately show ?thesis using assms(1,2) packed_slots_ok by (simp add: graph_wf_def edges_built_def)
qed

text \<open>The graph of a detection cycle: one vertex per xid, one edge per blocked transaction and blocker.\<close>

lemma graph_exact:
  assumes "dl_wf d" "dl_transactions d = []"
  defines "d' \<equiv> create_waitfor_graph (create_trans_list d)"
  shows "graph_wf (dl_transactions d') \<and> xids (dl_transactions d') = lk_xid d ` set (all_lkbs d) \<and>
    wait_edges (dl_transactions d') = blocked_on d \<and>
    (\<forall>t \<in> set (dl_transactions d'). set (tr_locks t) = {a \<in> set (all_lkbs d). lk_xid d a = tr_xid t}) \<and>
    (\<forall>a. lkb_lock (dl_lkbs d' a) = lkb_lock (dl_lkbs d a))"
proof -
  define d0 where "d0 = create_trans_list d"
  have t: "trans_built d (all_lkbs d) d0" unfolding d0_def by (rule create_trans_list_built [OF assms(2)])
  then have rs: "dl_resources d0 = dl_resources d" "all_lkbs d0 = all_lkbs d" "lk_xid d0 = lk_xid d"
    "\<And>a. lkb_lock (dl_lkbs d0 a) = lkb_lock (dl_lkbs d a)" "\<And>a. lkb_rsb (dl_lkbs d0 a) = lkb_rsb (dl_lkbs d a)"
    by (auto simp: trans_built_def all_lkbs_def lk_xid_def fun_eq_iff)
  have X: "xids (dl_transactions d0) = lk_xid d ` set (all_lkbs d)" "distinct (map tr_xid (dl_transactions d0))"
    using t by (auto simp: trans_built_def)
  have on: "on_trans d0"
    using assms(1) t X by (auto simp: on_trans_def rs trans_built_def dl_wf_def)
  have L: "(\<Union>t \<in> set (dl_transactions d0). set (tr_locks t)) = set (all_lkbs d0)"
  proof -
    have "(\<Union>t \<in> set (dl_transactions d0). set (tr_locks t)) = {a \<in> set (all_lkbs d). lk_xid d a \<in> xids (dl_transactions d0)}"
      using t by (auto simp: trans_built_def xids_def)
    then show ?thesis using X(1) rs(2) by auto
  qed
  let ?P = "\<Union>wa \<in> set (all_lkbs d0). lkb_pairs d0 wa"
  have eb: "edges_built d0 ?P d'"
    unfolding d'_def d0_def [symmetric] using t by (intro create_waitfor_graph_built [OF on _ L]) (auto simp: trans_built_def)
  have E: "block_edges d0 ?P = blocked_on d"
    using block_edges_all [of d0] on rs by (simp add: on_trans_def blocked_on_def)
  have "blocked_on d \<subseteq> xids (dl_transactions d0) \<times> xids (dl_transactions d0)"
    unfolding X(1) by (auto simp: blocked_on_def set_all_lkbs)
  with edges_built_graph [OF eb X(2)] E have G: "graph_wf (dl_transactions d')" "wait_edges (dl_transactions d') = blocked_on d"
    by simp_all
  have mx: "map tr_xid (dl_transactions d') = map tr_xid (dl_transactions d0)"
    "map tr_locks (dl_transactions d') = map tr_locks (dl_transactions d0)" using eb by (simp_all add: edges_built_def)
  have "set (tr_locks u) = {a \<in> set (all_lkbs d). lk_xid d a = tr_xid u}" if u: "u \<in> set (dl_transactions d')" for u
  proof -
    obtain i where i: "i < length (dl_transactions d')" "u = dl_transactions d' ! i" using u by (auto simp: in_set_conv_nth)
    moreover have "length (dl_transactions d') = length (dl_transactions d0)" using mx(1) by (rule map_eq_imp_length_eq)
    ultimately have "tr_xid u = tr_xid (dl_transactions d0 ! i)" "tr_locks u = tr_locks (dl_transactions d0 ! i)"
      "dl_transactions d0 ! i \<in> set (dl_transactions d0)"
      using arg_cong [OF mx(1), of "\<lambda>l. l ! i"] arg_cong [OF mx(2), of "\<lambda>l. l ! i"] by simp_all
    with t show ?thesis by (simp add: trans_built_def)
  qed
  moreover have "lkb_lock (dl_lkbs d' a) = lkb_lock (dl_lkbs d a)" for a using eb rs(4) by (simp add: edges_built_def)
  moreover have "xids (dl_transactions d') = lk_xid d ` set (all_lkbs d)" using mx(1) X(1) by (simp add: xids_map)
  ultimately show ?thesis using G by blast
qed

end
