(* ===== verification/Deadlock_Props.thy ===== *)
theory Deadlock_Props imports Deadlock_Build begin

text \<open>
  The properties of deadlock detection: the graph is exact, the reduction finds exactly the cycles, a
  cancel is sent exactly when there is one, the handlers keep the collected state well formed and the
  nodes of a cycle elect the same resolver; and where the resolution falls short of what its comments say.
\<close>

section \<open>What a detection cycle sends\<close>

lemma foldl_keep: "(\<And>d x. g (f d x) = g d) \<Longrightarrow> g (foldl f d xs) = g d"
  by (induction xs arbitrary: d) simp_all

text \<open>What neither the transactions nor the edges touch.\<close>

definition untouched :: "deadlk \<Rightarrow> dl_msg list \<times> node list \<times> (nat \<Rightarrow> pack_lock \<times> u32)" where
  "untouched d = (dl_sent d, dl_nodes d, \<lambda>a. (lkb_lock (dl_lkbs d a), lkb_home (dl_lkbs d a)))"

lemma untouched_add_to_trans: "untouched (add_to_trans d a) = untouched d"
  by (auto simp: untouched_def add_to_trans_def add_lkb_trans_def Let_def)

lemma untouched_waitfor_lkb: "untouched (waitfor_lkb d wa) = untouched d"
proof -
  have "untouched (add_waitfor d wa ga) = untouched d" for d ga
    by (auto simp: untouched_def add_waitfor_def split: option.splits)
  then have "untouched (foldl (\<lambda>d ga. if pl_status (lkb_lock (dl_lkbs d ga)) = DLM_LKSTS_WAITING then d
      else add_waitfor d wa ga) d gs) = untouched d" for gs
    by (intro foldl_keep) simp
  then show ?thesis by (simp add: waitfor_lkb_def split: option.splits)
qed

lemma untouched_graph: "untouched (create_waitfor_graph (create_trans_list d)) = untouched d"
  by (simp add: create_waitfor_graph_def create_trans_list_def foldl_keep untouched_add_to_trans untouched_waitfor_lkb)

text \<open>The message that cancels a lock on its home node.\<close>

definition cancel_msg :: "deadlk \<Rightarrow> nat \<Rightarrow> dl_msg" where
  "cancel_msg d a =
     (let lkb = dl_lkbs d a in
      (DLM_MSG_DEADLK_CANCEL_LOCK, lkb_home lkb,
       if pl_nodeid (lkb_lock lkb) = 0 then pl_id (lkb_lock lkb) else pl_remid (lkb_lock lkb)))"

definition ungranted :: "deadlk \<Rightarrow> nat \<Rightarrow> bool" where
  "ungranted d a \<longleftrightarrow> pl_status (lkb_lock (dl_lkbs d a)) \<noteq> DLM_LKSTS_GRANTED"

lemma untouched_eq:
  "untouched d' = untouched d \<Longrightarrow> dl_sent d' = dl_sent d \<and> cancel_msg d' = cancel_msg d \<and> ungranted d' = ungranted d"
  by (auto simp: untouched_def cancel_msg_def ungranted_def fun_eq_iff Let_def)

lemma cancel_lkb_sent:
  "dl_sent (cancel_lkb x d a) = dl_sent d @ (if ungranted d a then [cancel_msg d a] else []) \<and>
   dl_lkbs (cancel_lkb x d a) = dl_lkbs d"
  by (simp add: cancel_lkb_def ungranted_def cancel_msg_def send_cancel_lock_def dl_send_message_def Let_def split: option.splits)

lemma cancel_lkbs_sent:
  "dl_sent (foldl (cancel_lkb x) d as) = dl_sent d @ map (cancel_msg d) (filter (ungranted d) as)"
proof (induction as arbitrary: d)
  case (Cons a as)
  have "cancel_msg (cancel_lkb x d a) = cancel_msg d" "ungranted (cancel_lkb x d a) = ungranted d"
    using cancel_lkb_sent [of x d a] by (simp_all add: fun_eq_iff cancel_msg_def ungranted_def)
  with Cons [of "cancel_lkb x d a"] show ?case by (simp add: cancel_lkb_sent)
qed simp

text \<open>The locks that a detection cycle cancels: all waiting ones of the first transaction that is waited for.\<close>

definition victim_locks :: "trans list \<Rightarrow> nat list" where
  "victim_locks ts = (case find_trans_to_cancel ts of None \<Rightarrow> [] | Some t \<Rightarrow> tr_locks t)"

lemma cancel_trans_sent:
  "dl_sent (cancel_trans d) = dl_sent d @ map (cancel_msg d) (filter (ungranted d) (victim_locks (dl_transactions d)))"
  by (simp add: cancel_trans_def victim_locks_def cancel_lkbs_sent Let_def split: option.splits)

lemma victim_exists:
  assumes "graph_wf ts" "ts \<noteq> []" "\<forall>t \<in> set ts. waits t \<noteq> {}"
  shows "\<exists>t. find_trans_to_cancel ts = Some t \<and> t \<in> set ts \<and> tr_xid t \<in> (\<Union>u \<in> set ts. waits u)"
proof -
  obtain u where u: "u \<in> set ts" using assms(2) by (cases ts) auto
  then obtain y where y: "y \<in> waits u" using assms(3) by blast
  with u assms(1) obtain v where v: "v \<in> set ts" "tr_xid v = y"
    unfolding graph_wf_def closed_graph_def xids_def by blast
  have others: "tr_others_waiting_on_us t \<noteq> 0 \<longleftrightarrow> tr_xid t \<in> (\<Union>u \<in> set ts. waits u)" if "t \<in> set ts" for t
  proof -
    have "tr_others_waiting_on_us t = int (waiters_of (tr_xid t) ts)" using assms(1) that by (simp add: graph_wf_def)
    then show ?thesis by (simp add: waiters_of_0)
  qed
  have "tr_others_waiting_on_us v \<noteq> 0" using others [OF v(1)] v(2) y u by blast
  then have "find_trans_to_cancel ts \<noteq> None" using v(1) by (auto simp: find_trans_to_cancel_def find_None_iff)
  then obtain t where t: "find_trans_to_cancel ts = Some t" by blast
  then have "t \<in> set ts" "tr_others_waiting_on_us t \<noteq> 0" by (auto simp: find_trans_to_cancel_def find_Some_iff)
  with t others show ?thesis by blast
qed

lemma blocked_on_lock:
  assumes "(x, y) \<in> blocked_on d"
  shows "\<exists>a \<in> set (all_lkbs d). lk_xid d a = x \<and> ungranted d a"
  using assms by (auto simp: blocked_on_def ungranted_def set_all_lkbs)

text \<open>What \<^verbatim>\<open>find_deadlock\<close> sends from a well-formed state.\<close>

lemma find_deadlock_sent:
  assumes "dl_wf d" "dl_transactions d = []"
  shows "\<exists>as. dl_sent (find_deadlock d) = dl_sent d @ map (cancel_msg d) as @ [(DLM_MSG_DEADLK_CYCLE_END, 0, 0)] \<and>
    (as = [] \<longleftrightarrow> acyclic (blocked_on d)) \<and>
    (as \<noteq> [] \<longrightarrow> (\<exists>x. x \<in> Domain (blocked_on d) \<inter> Range (blocked_on d) \<and>
       set as = {a \<in> set (all_lkbs d). lk_xid d a = x \<and> ungranted d a}))"
proof -
  define d1 where "d1 = create_waitfor_graph (create_trans_list d)"
  define ts where "ts = reduce_waitfor_graph_loop (dl_transactions d1)"
  note g = graph_exact [OF assms, folded d1_def]
  have wf: "graph_wf (dl_transactions d1)" and E: "wait_edges (dl_transactions d1) = blocked_on d" using g by auto
  note r = reduce_waitfor_graph_loop_correct [OF wf, folded ts_def]
  have dead: "deadlocked (dl_transactions d1) = {} \<longleftrightarrow> acyclic (blocked_on d)"
    using deadlocked_iff_cycle wf unfolding E [symmetric] graph_wf_def by blast
  have ac: "ts = [] \<longleftrightarrow> acyclic (blocked_on d)" using r dead by (auto simp: xids_def)
  have un: "dl_sent d1 = dl_sent d" "cancel_msg d1 = cancel_msg d" "ungranted d1 = ungranted d"
    using untouched_eq [OF untouched_graph [of d, folded d1_def]] by simp_all
  show ?thesis
  proof (cases "dl_resources d = [] \<or> ts = []")
    case True
    then have "dl_sent (find_deadlock d) = dl_sent d @ [(DLM_MSG_DEADLK_CYCLE_END, 0, 0)]"
      using assms(2) un(1) by (auto simp: find_deadlock_def send_cycle_end_def dl_send_message_def Let_def d1_def [symmetric] ts_def [symmetric])
    moreover have "acyclic (blocked_on d)"
      using True ac by (auto simp: blocked_on_def acyclic_def)
    ultimately show ?thesis by (intro exI [of _ "[]"]) simp
  next
    case False
    then obtain t where t: "find_trans_to_cancel ts = Some t" "t \<in> set ts" "tr_xid t \<in> (\<Union>u \<in> set ts. waits u)"
      using victim_exists [of ts] r by blast
    define d2 where "d2 = d1\<lparr>dl_transactions := ts\<rparr>"
    have un2: "dl_sent d2 = dl_sent d" "cancel_msg d2 = cancel_msg d" "ungranted d2 = ungranted d"
      using un by (simp_all add: d2_def cancel_msg_def ungranted_def fun_eq_iff)
    let ?as = "filter (ungranted d) (tr_locks t)"
    have sent: "dl_sent (find_deadlock d) = dl_sent d @ map (cancel_msg d) ?as @ [(DLM_MSG_DEADLK_CYCLE_END, 0, 0)]"
      using False assms(2) cancel_trans_sent [of d2] t(1) un2
      by (simp add: find_deadlock_def send_cycle_end_def dl_send_message_def Let_def victim_locks_def
          d1_def [symmetric] ts_def [symmetric] d2_def)
    obtain t0 where t0: "t0 \<in> set (dl_transactions d1)" "tr_xid t = tr_xid t0" "tr_locks t = tr_locks t0" "waits t \<subseteq> waits t0"
      using r t(2) unfolding part_of_def by blast
    have locks: "set ?as = {a \<in> set (all_lkbs d). lk_xid d a = tr_xid t \<and> ungranted d a}"
      using g t0 by auto
    have dom: "tr_xid t \<in> Domain (blocked_on d)"
      using r t(2) t0 unfolding E [symmetric] wait_edges_def by blast
    obtain u where u: "u \<in> set ts" "tr_xid t \<in> waits u" using t(3) by blast
    then obtain u0 where "u0 \<in> set (dl_transactions d1)" "waits u \<subseteq> waits u0" using r unfolding part_of_def by blast
    with u have ran: "tr_xid t \<in> Range (blocked_on d)" unfolding E [symmetric] wait_edges_def by blast
    have "?as \<noteq> []" using blocked_on_lock dom locks by fastforce
    with sent locks dom ran ac False show ?thesis by (intro exI [of _ ?as]) blast
  qed
qed

section \<open>The state machine of one node\<close>

text \<open>What well-formedness looks at.\<close>

definition shape :: "deadlk \<Rightarrow> dlm_rsb list \<times> nat \<times> (nat \<Rightarrow> nat)" where
  "shape d = (dl_resources d, dl_next d, \<lambda>a. lkb_rsb (dl_lkbs d a))"





lemma shape_transactions [simp]: "shape (d\<lparr>dl_transactions := ts\<rparr>) = shape d"
  by (simp add: shape_def)








definition dl_init :: deadlk where
  "dl_init = \<lparr>dl_resources = [], dl_lkbs = (\<lambda>_. create_lkb), dl_next = 0, dl_transactions = [], dl_nodes = [],
     dl_cycle_running = False, dl_all_checkpoints_ready = False, dl_low_nodeid = 0, dl_ckpt_handle = 0,
     dl_confchg_init = False, dl_sent = []\<rparr>"




section \<open>Electing the resolver\<close>

definition in_cycle_ids :: "node list \<Rightarrow> u32 set" where
  "in_cycle_ids ns = nd_nodeid ` {n \<in> set ns. nd_in_cycle n}"

lemma in_cycle_ids_simps [simp]:
  "in_cycle_ids [] = {}"
  "in_cycle_ids (n # ns) = (if nd_in_cycle n then insert (nd_nodeid n) (in_cycle_ids ns) else in_cycle_ids ns)"
  by (auto simp: in_cycle_ids_def)

definition low_step :: "u32 \<Rightarrow> node \<Rightarrow> u32" where
  "low_step low n = (if \<not> nd_in_cycle n then low
     else if sint (nd_nodeid n) < sint low \<or> low = -1 then nd_nodeid n else low)"

lemma low_fold:
  assumes "\<And>x. x \<in> in_cycle_ids ns \<Longrightarrow> 0 < sint x" "low = -1 \<or> 0 < sint low"
  shows "(if low = -1 then {} else {low}) \<union> in_cycle_ids ns = {} \<and> foldl low_step low ns = -1 \<or>
    foldl low_step low ns \<in> (if low = -1 then {} else {low}) \<union> in_cycle_ids ns \<and>
    (\<forall>x \<in> (if low = -1 then {} else {low}) \<union> in_cycle_ids ns. sint (foldl low_step low ns) \<le> sint x)"
  using assms
proof (induction ns arbitrary: low)
  case Nil
  then show ?case by (simp add: in_cycle_ids_def)
next
  case (Cons n ns)
  show ?case
  proof (cases "nd_in_cycle n")
    case False
    then have "in_cycle_ids (n # ns) = in_cycle_ids ns" "low_step low n = low"
      by (auto simp: in_cycle_ids_def low_step_def)
    with Cons show ?thesis by simp
  next
    case True
    then have ids: "in_cycle_ids (n # ns) = insert (nd_nodeid n) (in_cycle_ids ns)" by (auto simp: in_cycle_ids_def)
    have pos: "0 < sint (nd_nodeid n)" using Cons.prems(1) ids by simp
    have neg: "sint (-1 :: u32) = -1" by simp
    have ne: "nd_nodeid n \<noteq> -1" using pos neg by (metis less_minus_one_simps(1) not_less_iff_gr_or_eq)
    have step: "low_step low n = (if sint (nd_nodeid n) < sint low \<or> low = -1 then nd_nodeid n else low)"
      using True by (simp add: low_step_def)
    have l: "low_step low n \<noteq> -1" "0 < sint (low_step low n)" using ne pos step Cons.prems(2) by (auto split: if_splits)
    have IH: "foldl low_step (low_step low n) ns \<in> insert (low_step low n) (in_cycle_ids ns) \<and>
        (\<forall>x \<in> insert (low_step low n) (in_cycle_ids ns). sint (foldl low_step (low_step low n) ns) \<le> sint x)"
      using Cons.IH [of "low_step low n"] Cons.prems(1) l ids by auto
    then show ?thesis using step ids by (auto split: if_splits)
  qed
qed

lemma low_node_min:
  assumes "\<And>x. x \<in> in_cycle_ids ns \<Longrightarrow> 0 < sint x" "in_cycle_ids ns \<noteq> {}"
  shows "low_node ns \<in> in_cycle_ids ns \<and> (\<forall>x \<in> in_cycle_ids ns. sint (low_node ns) \<le> sint x)"
proof -
  have "low_node ns = foldl low_step (-1) ns" by (simp add: low_node_def low_step_def [abs_def])
  with low_fold [of ns "-1"] assms show ?thesis by simp
qed

lemma find_deadlock_sends: "dl_sent (find_deadlock d) \<noteq> dl_sent d"
proof -
  have s: "dl_sent (send_cycle_end e) = dl_sent e @ [(DLM_MSG_DEADLK_CYCLE_END, 0, 0)]" for e
    by (simp add: send_cycle_end_def dl_send_message_def)
  have g: "dl_sent (create_waitfor_graph (create_trans_list d)) = dl_sent d"
    using untouched_eq [OF untouched_graph] by blast
  show ?thesis by (simp add: find_deadlock_def Let_def s g cancel_trans_sent)
qed


section \<open>Concrete deadlocks\<close>

definition ex_lkb :: "nat \<Rightarrow> u64 \<Rightarrow> u32 \<Rightarrow> int \<Rightarrow> int \<Rightarrow> int \<Rightarrow> dlm_lkb" where
  "ex_lkb rsb xid lkid status gr rq =
     \<lparr>lkb_lock = zero_lock\<lparr>pl_xid := xid, pl_id := lkid, pl_status := status, pl_grmode := gr, pl_rqmode := rq\<rparr>,
      lkb_home = 2, lkb_rsb = rsb, lkb_trans = None, lkb_waitfor_trans = None\<rparr>"

definition ex_state :: "dlm_rsb list \<Rightarrow> dlm_lkb list \<Rightarrow> deadlk" where
  "ex_state rs ls = dl_init\<lparr>dl_resources := rs, dl_lkbs := (\<lambda>a. if a < length ls then ls ! a else create_lkb),
     dl_next := 100, dl_cycle_running := True,
     dl_nodes := [\<lparr>nd_nodeid = 1, nd_checkpoint_ready = True, nd_in_cycle = True\<rparr>,
                  \<lparr>nd_nodeid = 2, nd_checkpoint_ready = True, nd_in_cycle = True\<rparr>]\<rparr>"

text \<open>Transactions 1 and 2 hold one resource each in EX mode and wait for the other's.\<close>

definition ex_cycle :: deadlk where
  "ex_cycle = ex_state
     [\<lparr>rsb_addr = 50, rsb_locks = [0, 1], rsb_name = ''A'', rsb_len = 1\<rparr>,
      \<lparr>rsb_addr = 51, rsb_locks = [2, 3], rsb_name = ''B'', rsb_len = 1\<rparr>]
     [ex_lkb 50 1 10 2 5 (-1), ex_lkb 50 2 11 1 (-1) 5, ex_lkb 51 2 12 2 5 (-1), ex_lkb 51 1 13 1 (-1) 5]"

text \<open>Transaction 1 waits on one lock for two readers, which wait for it.\<close>

definition ex_two_blockers :: deadlk where
  "ex_two_blockers = ex_state
     [\<lparr>rsb_addr = 50, rsb_locks = [0, 1, 2], rsb_name = ''A'', rsb_len = 1\<rparr>,
      \<lparr>rsb_addr = 51, rsb_locks = [3, 4, 5], rsb_name = ''B'', rsb_len = 1\<rparr>]
     [ex_lkb 50 2 20 1 (-1) 5, ex_lkb 50 3 21 1 (-1) 5, ex_lkb 50 1 22 2 5 (-1),
      ex_lkb 51 2 23 2 3 (-1), ex_lkb 51 3 24 2 3 (-1), ex_lkb 51 1 25 1 (-1) 5]"

text \<open>Transactions 1 and 2 are on a cycle; 3 waits for 1 and 4 waits for 3.\<close>

definition ex_off_cycle :: deadlk where
  "ex_off_cycle = ex_state
     [\<lparr>rsb_addr = 50, rsb_locks = [0, 1, 2], rsb_name = ''A'', rsb_len = 1\<rparr>,
      \<lparr>rsb_addr = 51, rsb_locks = [3, 4], rsb_name = ''B'', rsb_len = 1\<rparr>,
      \<lparr>rsb_addr = 52, rsb_locks = [5, 6], rsb_name = ''C'', rsb_len = 1\<rparr>]
     [ex_lkb 50 1 10 2 5 (-1), ex_lkb 50 2 11 1 (-1) 5, ex_lkb 50 3 12 1 (-1) 5,
      ex_lkb 51 2 13 2 5 (-1), ex_lkb 51 1 14 1 (-1) 5, ex_lkb 52 4 15 1 (-1) 5, ex_lkb 52 3 16 2 5 (-1)]"


lemma replicate_TR_NALLOC: "replicate TR_NALLOC x = [x, x, x, x]"
  by (simp add: TR_NALLOC_def eval_nat_numeral)

lemma list_update_numeral: "(x # xs)[numeral k := y] = x # xs[pred_numeral k := y]"
  by (simp add: numeral_eq_Suc)

lemmas dl_ex_defs = ex_cycle_def ex_two_blockers_def ex_off_cycle_def ex_state_def ex_lkb_def dl_init_def zero_lock_def

lemmas dl_eval = find_deadlock_def create_trans_list_def add_to_trans_def add_lkb_trans_def get_trans_def
  create_waitfor_graph_def waitfor_lkb_def rsb_at_def add_waitfor_def locks_compat_def dlm_modes_compat_def
  dlm_compat_matrix_def in_waitfor_def push_waitfor_def grow_waitfor_def incr_others_def replicate_TR_NALLOC list_update_numeral lksts_defs
  reduce_waitfor_graph_loop.simps reduce_waitfor_graph_def remove_trans_def remove_waitfor_def others_of_def
  cancel_trans_def find_trans_to_cancel_def cancel_lkb_def send_cancel_lock_def dl_send_message_def send_cycle_end_def

lemma ex_wf: "dl_wf ex_cycle" "dl_wf ex_off_cycle" "dl_transactions ex_cycle = []"
  by (auto simp: dl_ex_defs dl_wf_def all_lkbs_def)

section \<open>Properties\<close>

text \<open>C11: The wait-for graph that \<^verbatim>\<open>create_trans_list\<close> and \<^verbatim>\<open>create_waitfor_graph\<close> build from well-formed
  collected locks has one transaction per lock owner and an edge exactly where a waiting or converting
  lock of one transaction meets an incompatible granted or converting lock of another, and its counters
  agree with its edges.\<close>

theorem waitfor_graph_exact:
  assumes "dl_wf d" "dl_transactions d = []"
  shows "graph_wf (dl_transactions (create_waitfor_graph (create_trans_list d))) \<and>
    xids (dl_transactions (create_waitfor_graph (create_trans_list d))) = lk_xid d ` set (all_lkbs d) \<and>
    wait_edges (dl_transactions (create_waitfor_graph (create_trans_list d))) = blocked_on d"
  using graph_exact [OF assms] by blast

theorem waitfor_graph_exact_witness:
  "dl_wf ex_cycle \<and> dl_transactions ex_cycle = [] \<and>
   wait_edges (dl_transactions (create_waitfor_graph (create_trans_list ex_cycle))) = blocked_on ex_cycle"
  using waitfor_graph_exact [of ex_cycle] ex_wf by blast

text \<open>C12: The reduction of a well-formed wait-for graph leaves exactly the transactions that cannot run
  whatever the others do, and leaves nothing exactly when the graph has no cycle.\<close>

theorem reduction_exact:
  assumes "graph_wf ts"
  shows "xids (reduce_waitfor_graph_loop ts) = deadlocked ts \<and>
    (reduce_waitfor_graph_loop ts = [] \<longleftrightarrow> acyclic (wait_edges ts))"
proof -
  note r = reduce_waitfor_graph_loop_correct [OF assms]
  have "reduce_waitfor_graph_loop ts = [] \<longleftrightarrow> deadlocked ts = {}" using r by (auto simp: xids_def)
  with r deadlocked_iff_cycle [of ts] assms show ?thesis by (simp add: graph_wf_def)
qed

theorem reduction_exact_witness:
  "reduce_waitfor_graph_loop [\<lparr>tr_locks = [], tr_xid = 1, tr_others_waiting_on_us = 0, tr_waitfor_count = 1, tr_waitfor = [Some 2]\<rparr>,
     \<lparr>tr_locks = [], tr_xid = 2, tr_others_waiting_on_us = 1, tr_waitfor_count = 0, tr_waitfor = []\<rparr>] = [] \<and>
   acyclic (wait_edges [\<lparr>tr_locks = [], tr_xid = 1, tr_others_waiting_on_us = 0, tr_waitfor_count = 1, tr_waitfor = [Some 2]\<rparr>,
     \<lparr>tr_locks = [], tr_xid = 2, tr_others_waiting_on_us = 1, tr_waitfor_count = 0, tr_waitfor = []\<rparr>])"
  (is "reduce_waitfor_graph_loop ?ts = [] \<and> _")
proof -
  have "graph_wf ?ts"
    by (auto simp: graph_wf_def closed_graph_def waits_def xids_def slots_ok_def waiters_of_def)
  moreover have "reduce_waitfor_graph_loop ?ts = []" by (simp add: dl_eval)
  ultimately show ?thesis using reduction_exact [of ?ts] by blast
qed

text \<open>C13: From well-formed collected locks, \<^verbatim>\<open>find_deadlock\<close> ends the cycle after cancelling nothing if no
  transactions block each other in a circle, and otherwise after cancelling all the waiting locks of
  one transaction that both waits and is waited for.\<close>

theorem cancel_iff_cycle:
  assumes "dl_wf d" "dl_transactions d = []"
  shows "\<exists>as. dl_sent (find_deadlock d) = dl_sent d @ map (cancel_msg d) as @ [(DLM_MSG_DEADLK_CYCLE_END, 0, 0)] \<and>
    (as = [] \<longleftrightarrow> acyclic (blocked_on d)) \<and>
    (as \<noteq> [] \<longrightarrow> (\<exists>x. x \<in> Domain (blocked_on d) \<inter> Range (blocked_on d) \<and>
       set as = {a \<in> set (all_lkbs d). lk_xid d a = x \<and> ungranted d a}))"
  by (rule find_deadlock_sent [OF assms])

theorem cancel_iff_cycle_witness:
  "dl_wf ex_cycle \<and> dl_transactions ex_cycle = [] \<and> \<not> acyclic (blocked_on ex_cycle)"
proof -
  have s: "dl_sent (find_deadlock ex_cycle) = [(DLM_MSG_DEADLK_CANCEL_LOCK, 2, 11), (DLM_MSG_DEADLK_CYCLE_END, 0, 0)]"
    by (simp add: dl_ex_defs dl_eval)
  have "dl_sent ex_cycle = []" by (simp add: dl_ex_defs)
  then have "\<not> acyclic (blocked_on ex_cycle)" using cancel_iff_cycle [of ex_cycle] ex_wf s by auto
  with ex_wf show ?thesis by blast
qed



text \<open>C15: If all nodes of a cycle have the same, positive node ids in it and see all checkpoints ready, then
  exactly one of them resolves deadlocks and ends the cycle, in whatever order each lists the others.\<close>

theorem resolver_unique:
  assumes "ids \<noteq> {}" "\<forall>x \<in> ids. 0 < sint x"
    "\<forall>n \<in> ids. in_cycle_ids (dl_nodes (st n)) = ids \<and> (\<forall>m \<in> set (dl_nodes (st n)). nd_in_cycle m \<longrightarrow> nd_checkpoint_ready m)"
  shows "\<exists>!n. n \<in> ids \<and> dl_sent (run_deadlock n (st n)) \<noteq> dl_sent (st n)"
proof -
  have low: "low_node (dl_nodes (st n)) \<in> ids \<and> (\<forall>x \<in> ids. sint (low_node (dl_nodes (st n))) \<le> sint x)" if "n \<in> ids" for n
    using low_node_min [of "dl_nodes (st n)"] assms that by auto
  have "dl_sent (run_deadlock n (st n)) \<noteq> dl_sent (st n) \<longleftrightarrow> low_node (dl_nodes (st n)) = n" if "n \<in> ids" for n
  proof -
    let ?d = "(st n)\<lparr>dl_all_checkpoints_ready := True, dl_low_nodeid := low_node (dl_nodes (st n))\<rparr>"
    have "\<not> (\<exists>m \<in> set (dl_nodes (st n)). nd_in_cycle m \<and> \<not> nd_checkpoint_ready m)" using assms(3) that by blast
    then have "run_deadlock n (st n) = (if low_node (dl_nodes (st n)) = n then find_deadlock ?d else ?d)"
      unfolding run_deadlock_def Let_def by (simp only: if_False simp_thms)
    then show ?thesis using find_deadlock_sends [of ?d] by (cases "low_node (dl_nodes (st n)) = n") simp_all
  qed
  moreover have "\<exists>!n. n \<in> ids \<and> low_node (dl_nodes (st n)) = n"
  proof -
    obtain k where k: "k \<in> ids" using assms(1) by blast
    define l where "l = low_node (dl_nodes (st k))"
    have l: "l \<in> ids" "\<And>x. x \<in> ids \<Longrightarrow> sint l \<le> sint x" using low [OF k] by (auto simp: l_def)
    have "low_node (dl_nodes (st n)) = l" if "n \<in> ids" for n
    proof -
      have "sint (low_node (dl_nodes (st n))) = sint l" using low [OF that] l by (simp add: order_antisym)
      then show ?thesis by (simp add: signed_word_eqI)
    qed
    with l(1) show ?thesis by metis
  qed
  ultimately show ?thesis by metis
qed

theorem resolver_unique_witness:
  "\<exists>!n. n \<in> {1, 2 :: u32} \<and> dl_sent (run_deadlock n ex_cycle) \<noteq> dl_sent ex_cycle"
proof -
  have ids: "in_cycle_ids (dl_nodes ex_cycle) = {1, 2}" by (simp add: dl_ex_defs)
  have "\<forall>m \<in> set (dl_nodes ex_cycle). nd_checkpoint_ready m" by (simp add: dl_ex_defs)
  with ids show ?thesis using resolver_unique [of "{1, 2 :: u32}" "\<lambda>_. ex_cycle"] by simp
qed


text \<open>When the cancelled transaction is blocked on one lock by two others, only one of the two edges is
  removed, so the cancelled transaction stays in the graph and the resolution is reported as failed,
  against the comment that it now has a zero \<^verbatim>\<open>waitfor_count\<close> and the graph reduces completely.\<close>

theorem cancelled_trans_not_removed:
  "dl_wf ex_two_blockers \<and>
   dl_sent (find_deadlock ex_two_blockers) = [(DLM_MSG_DEADLK_CANCEL_LOCK, 2, 25), (DLM_MSG_DEADLK_CYCLE_END, 0, 0)] \<and>
   map tr_xid (dl_transactions (find_deadlock ex_two_blockers)) = [1, 3, 2]"
proof (intro conjI)
  show "dl_wf ex_two_blockers" by (auto simp: dl_ex_defs dl_wf_def all_lkbs_def)
qed (simp_all add: dl_ex_defs dl_eval)



end
