(* ===== verification/Cman_State.thy ===== *)
theory Cman_State imports Prelude begin

text \<open>
  The state of the membership daemon (\<^verbatim>\<open>cman/daemon/commands.c\<close>) and its membership list: nodes with
  their votes, the quorum calculation, and what is reported when quorum changes. A pointer to a node
  is its address; allocations are taken to succeed.
\<close>

section \<open>Nodes\<close>

datatype nodestate = NODESTATE_JOINING | NODESTATE_MEMBER | NODESTATE_DEAD | NODESTATE_LEAVING | NODESTATE_AISONLY

definition NODE_FLAGS_BEENDOWN :: u32 where "NODE_FLAGS_BEENDOWN = 1"
definition NODE_FLAGS_FENCED :: u32 where "NODE_FLAGS_FENCED = 2"
definition NODE_FLAGS_FENCEDWHILEUP :: u32 where "NODE_FLAGS_FENCEDWHILEUP = 4"
definition NODE_FLAGS_SEESDISALLOWED :: u32 where "NODE_FLAGS_SEESDISALLOWED = 8"
definition NODE_FLAGS_DIRTY :: u32 where "NODE_FLAGS_DIRTY = 16"
definition NODE_FLAGS_REREAD :: u32 where "NODE_FLAGS_REREAD = 32"

lemmas node_flags_defs = NODE_FLAGS_BEENDOWN_def NODE_FLAGS_FENCED_def NODE_FLAGS_FENCEDWHILEUP_def
  NODE_FLAGS_SEESDISALLOWED_def NODE_FLAGS_DIRTY_def NODE_FLAGS_REREAD_def

definition has_flag :: "u32 \<Rightarrow> u32 \<Rightarrow> bool" where
  "has_flag flags f \<longleftrightarrow> flags AND f \<noteq> 0"

definition PORT_BITS_SIZE :: nat where "PORT_BITS_SIZE = 32"

text \<open>A null \<^verbatim>\<open>fence_agent\<close> is \<open>None\<close>; times are in seconds.\<close>

record cluster_node =
  cn_addr :: nat
  cn_name :: string
  cn_us :: bool
  cn_node_id :: u32
  cn_flags :: u32
  cn_state :: nodestate
  cn_fence_time :: u64
  cn_fence_agent :: "string option"
  cn_cman_join_time :: u64
  cn_last_hello :: int
  cn_votes :: u32
  cn_expected_votes :: u32
  cn_leave_reason :: u32
  cn_incarnation :: u64
  cn_port_bits :: "u8 list"

definition zero_node :: cluster_node where
  "zero_node = \<lparr>cn_addr = 0, cn_name = [], cn_us = False, cn_node_id = 0, cn_flags = 0, cn_state = NODESTATE_JOINING,
     cn_fence_time = 0, cn_fence_agent = None, cn_cman_join_time = 0, cn_last_hello = 0, cn_votes = 0,
     cn_expected_votes = 0, cn_leave_reason = 0, cn_incarnation = 0, cn_port_bits = replicate PORT_BITS_SIZE 0\<rparr>"

section \<open>Messages and effects\<close>

record cl_transmsg =
  tm_first_trans :: bool
  tm_cluster_id :: u16
  tm_votes :: u32
  tm_expected_votes :: u32
  tm_major_version :: u32
  tm_minor_version :: u32
  tm_patch_version :: u32
  tm_config_version :: u32
  tm_flags :: u32
  tm_fence_time :: u64
  tm_join_time :: u64
  tm_clustername :: string
  tm_fence_agent :: string

datatype reconfig_param = RECONFIG_PARAM_EXPECTED_VOTES | RECONFIG_PARAM_NODE_VOTES | RECONFIG_PARAM_CONFIG_VERSION

datatype cman_msg =
    CLUSTER_MSG_PORTOPENED u8
  | CLUSTER_MSG_PORTCLOSED u8
  | CLUSTER_MSG_BARRIER int string
  | CLUSTER_MSG_TRANSITION cl_transmsg
  | CLUSTER_MSG_KILLNODE u16 u32
  | CLUSTER_MSG_LEAVE u16
  | CLUSTER_MSG_RECONFIGURE reconfig_param u32 u32
  | CLUSTER_MSG_PORTENQ
  | CLUSTER_MSG_PORTSTATUS "u8 list"
  | CLUSTER_MSG_FENCESTATUS bool u32 u64 string

definition CLUSTER_KILL_REJECTED :: u16 where "CLUSTER_KILL_REJECTED = 1"
definition CLUSTER_KILL_CMANTOOL :: u16 where "CLUSTER_KILL_CMANTOOL = 2"
definition CLUSTER_KILL_REJOIN :: u16 where "CLUSTER_KILL_REJOIN = 3"

definition CLUSTER_LEAVEFLAG_DOWN :: u32 where "CLUSTER_LEAVEFLAG_DOWN = 0"
definition CLUSTER_LEAVEFLAG_KILLED :: u32 where "CLUSTER_LEAVEFLAG_KILLED = 1"
definition CLUSTER_LEAVEFLAG_REMOVED :: u32 where "CLUSTER_LEAVEFLAG_REMOVED = 3"
definition CLUSTER_LEAVEFLAG_FORCE :: u32 where "CLUSTER_LEAVEFLAG_FORCE = 16"

datatype cman_event =
    EVENT_REASON_PORTCLOSED | EVENT_REASON_STATECHANGE | EVENT_REASON_PORTOPENED
  | EVENT_REASON_TRY_SHUTDOWN | EVENT_REASON_CONFIG_UPDATE

datatype shutdown_answer = SHUTDOWN_REPLY_UNK | SHUTDOWN_REPLY_YES | SHUTDOWN_REPLY_NO

record connection =
  con_port :: nat
  con_shutdown_reply :: shutdown_answer
  con_events :: bool
  con_confchg :: bool

text \<open>
  What the daemon does to its surroundings, in order: messages to a node (0 for all), events to one
  client or to all listeners, replies to a client, the membership and quorum reported to corosync, the
  end of the process, and a null pointer that is followed, after which nothing is defined.
\<close>

datatype cman_effect =
    Send u32 cman_msg
  | Notify "nat option" cman_event int
  | Status_return nat int
  | Report_quorum "u32 list" bool
  | Start_timer nat
  | Delete_timer nat
  | Shutdown_request
  | Exit int
  | Null_deref

datatype barrier_state = BARRIER_STATE_WAITING | BARRIER_STATE_INACTIVE | BARRIER_STATE_COMPLETE

record cl_barrier =
  br_name :: string
  br_flags :: u32
  br_state :: barrier_state
  br_expected_nodes :: u32
  br_got_nodes :: u32
  br_waitsent :: bool
  br_phase :: nat
  br_endreason :: int
  br_client_complete :: bool
  br_timeout :: u64
  br_con :: "nat option"

section \<open>The state\<close>

text \<open>\<open>cm_us\<close> is the address of our own node. A timer is named by the number of its callback below.\<close>

record cman =
  cm_members :: "cluster_node list"
  cm_next :: nat
  cm_us :: nat
  cm_cluster_members :: int
  cm_member :: bool
  cm_config_version :: u32
  cm_wanted_config_version :: u32
  cm_config_error :: int
  cm_ccsd_timer_active :: bool
  cm_local_first_trans :: bool
  cm_quorum :: u32
  cm_quorate :: bool
  cm_two_node :: bool
  cm_enable_disallowed :: bool
  cm_startup_config_timeout :: u64
  cm_quorumdev_poll :: int
  cm_quorum_device :: "cluster_node option"
  cm_cluster_name :: string
  cm_cluster_id :: u16
  cm_nodename :: string
  cm_wanted_nodeid :: u32
  cm_join_time :: u64
  cm_ais_running :: bool
  cm_use_count :: int
  cm_quit_threads :: bool
  cm_incarnation :: u64
  cm_num_ais_nodes :: int
  cm_first_trans :: bool
  cm_clients :: "nat list"
  cm_con :: "nat \<Rightarrow> connection"
  cm_port_array :: "nat \<Rightarrow> nat option"
  cm_shutdown_con :: "nat option"
  cm_shutdown_flags :: u32
  cm_shutdown_yes :: int
  cm_shutdown_no :: int
  cm_shutdown_expected :: int
  cm_shutdown_timer :: bool
  cm_barriers :: "cl_barrier list"
  cm_effects :: "cman_effect list"

text \<open>The values the variables have when the daemon starts; a null pointer is address 0.\<close>

definition cman0 :: cman where
  "cman0 = \<lparr>cm_members = [], cm_next = 1, cm_us = 0, cm_cluster_members = 0, cm_member = False, cm_config_version = 0,
     cm_wanted_config_version = 0, cm_config_error = 0, cm_ccsd_timer_active = False, cm_local_first_trans = False,
     cm_quorum = 0, cm_quorate = False, cm_two_node = False, cm_enable_disallowed = False, cm_startup_config_timeout = 0,
     cm_quorumdev_poll = 10000, cm_quorum_device = None, cm_cluster_name = [], cm_cluster_id = 0, cm_nodename = [],
     cm_wanted_nodeid = 0, cm_join_time = 0, cm_ais_running = False, cm_use_count = 0, cm_quit_threads = False,
     cm_incarnation = 0, cm_num_ais_nodes = 0, cm_first_trans = True, cm_clients = [],
     cm_con = (\<lambda>_. \<lparr>con_port = 0, con_shutdown_reply = SHUTDOWN_REPLY_UNK, con_events = False, con_confchg = False\<rparr>),
     cm_port_array = (\<lambda>_. None), cm_shutdown_con = None, cm_shutdown_flags = 0, cm_shutdown_yes = 0, cm_shutdown_no = 0,
     cm_shutdown_expected = 0, cm_shutdown_timer = False, cm_barriers = [], cm_effects = []\<rparr>"

definition effect :: "cman_effect \<Rightarrow> cman \<Rightarrow> cman" where
  "effect e s = s\<lparr>cm_effects := cm_effects s @ [e]\<rparr>"

definition upd_node :: "nat \<Rightarrow> (cluster_node \<Rightarrow> cluster_node) \<Rightarrow> cman \<Rightarrow> cman" where
  "upd_node a f s = s\<lparr>cm_members := map (\<lambda>n. if cn_addr n = a then f n else n) (cm_members s)\<rparr>"

text \<open>Following a pointer into the list.\<close>

definition node_at :: "nat \<Rightarrow> cman \<Rightarrow> cluster_node" where
  "node_at a s = (case find (\<lambda>n. cn_addr n = a) (cm_members s) of Some n \<Rightarrow> n | None \<Rightarrow> zero_node)"

abbreviation us_node :: "cman \<Rightarrow> cluster_node" where
  "us_node s \<equiv> node_at (cm_us s) s"

definition find_node_by_nodeid :: "u32 \<Rightarrow> cman \<Rightarrow> nat option" where
  "find_node_by_nodeid nodeid s = map_option cn_addr (find (\<lambda>n. cn_node_id n = nodeid) (cm_members s))"

definition find_node_by_name :: "string \<Rightarrow> cman \<Rightarrow> nat option" where
  "find_node_by_name name s = map_option cn_addr (find (\<lambda>n. cn_name n = name) (cm_members s))"

definition get_highest_nodeid :: "cman \<Rightarrow> u32" where
  "get_highest_nodeid s =
     foldl (\<lambda>highest n. if cn_node_id n > highest then cn_node_id n else highest) 0 (cm_members s)"

definition get_node_count :: "cman \<Rightarrow> int" where
  "get_node_count s = int (length (cm_members s))"

definition set_port_bit :: "u8 \<Rightarrow> cluster_node \<Rightarrow> cluster_node" where
  "set_port_bit port n = n\<lparr>cn_port_bits :=
     (cn_port_bits n)[unat (port div 8) := cn_port_bits n ! unat (port div 8) OR push_bit (unat (port mod 8)) 1]\<rparr>"

definition clear_port_bit :: "u8 \<Rightarrow> cluster_node \<Rightarrow> cluster_node" where
  "clear_port_bit port n = n\<lparr>cn_port_bits :=
     (cn_port_bits n)[unat (port div 8) := cn_port_bits n ! unat (port div 8) AND NOT (push_bit (unat (port mod 8)) 1)]\<rparr>"

definition get_port_bit :: "cluster_node \<Rightarrow> u8 \<Rightarrow> bool" where
  "get_port_bit n port \<longleftrightarrow> cn_port_bits n ! unat (port div 8) AND push_bit (unat (port mod 8)) 1 \<noteq> 0"

definition have_disallowed :: "cman \<Rightarrow> bool" where
  "have_disallowed s \<longleftrightarrow> cm_enable_disallowed s \<and> (\<exists>n \<in> set (cm_members s). cn_state n = NODESTATE_AISONLY)"

text \<open>Insertion before the first node with a greater id.\<close>

fun node_add_ordered :: "cluster_node \<Rightarrow> cluster_node list \<Rightarrow> cluster_node list" where
  "node_add_ordered new [] = [new]"
| "node_add_ordered new (n # ns) =
     (if cn_node_id new < cn_node_id n then new # n # ns else n # node_add_ordered new ns)"

text \<open>The part of \<^verbatim>\<open>add_new_node\<close> that fills in an old or new node.\<close>

definition fill_node :: "string \<Rightarrow> u32 \<Rightarrow> u32 \<Rightarrow> u32 \<Rightarrow> cluster_node \<Rightarrow> cluster_node" where
  "fill_node name nodeid votes expected_votes n =
     n\<lparr>cn_node_id := (if cn_node_id n = 0 then nodeid else cn_node_id n),
       cn_votes := (if sint votes \<ge> 0 then votes else cn_votes n),
       cn_expected_votes := (if expected_votes \<noteq> 0 then expected_votes else cn_expected_votes n),
       cn_name := name, cn_flags := cn_flags n OR NODE_FLAGS_REREAD\<rparr>"

definition add_new_node :: "string \<Rightarrow> u32 \<Rightarrow> u32 \<Rightarrow> u32 \<Rightarrow> nodestate \<Rightarrow> cman \<Rightarrow> nat \<times> cman" where
  "add_new_node name nodeid votes expected_votes state s =
     (case (if nodeid \<noteq> 0 then find_node_by_nodeid nodeid s else None) of
        Some a \<Rightarrow> (a, upd_node a (fill_node name nodeid votes expected_votes) s)
      | None \<Rightarrow>
          (let a = cm_next s;
               new = zero_node\<lparr>cn_addr := a, cn_state := state,
                       cn_incarnation := (if state = NODESTATE_MEMBER then cm_incarnation s else 0)\<rparr>
           in (a, s\<lparr>cm_members := node_add_ordered (fill_node name nodeid votes expected_votes new) (cm_members s),
                    cm_next := a + 1\<rparr>)))"

section \<open>Quorum\<close>

definition send_kill :: "u32 \<Rightarrow> u16 \<Rightarrow> cman \<Rightarrow> cman" where
  "send_kill nodeid reason = effect (Send nodeid (CLUSTER_MSG_KILLNODE reason nodeid))"

definition members_of :: "cluster_node list \<Rightarrow> cluster_node list" where
  "members_of ns = filter (\<lambda>n. cn_state n = NODESTATE_MEMBER) ns"

definition quorum_device_votes :: "cman \<Rightarrow> u32" where
  "quorum_device_votes s =
     (case cm_quorum_device s of
        Some d \<Rightarrow> if cn_state d = NODESTATE_MEMBER then cn_votes d else 0 | None \<Rightarrow> 0)"

definition total_votes :: "cman \<Rightarrow> u32" where
  "total_votes s = sum_list (map cn_votes (members_of (cm_members s))) + quorum_device_votes s"

text \<open>
  The new quorum, the votes present, and the state, in which a maximum given by the caller has
  replaced the expected votes of every member.
\<close>

definition calculate_quorum :: "bool \<Rightarrow> u32 \<Rightarrow> cman \<Rightarrow> u32 \<times> u32 \<times> cman" where
  "calculate_quorum allow_decrease max_expected s =
     (let members = members_of (cm_members s);
          s' = (if max_expected \<noteq> 0
                then s\<lparr>cm_members := map (\<lambda>n. if cn_state n = NODESTATE_MEMBER
                                             then n\<lparr>cn_expected_votes := max_expected\<rparr> else n) (cm_members s)\<rparr>
                else s);
          highest0 = (if max_expected \<noteq> 0 then 0 else foldl max 0 (map cn_expected_votes members));
          highest = (if sint max_expected > 0 then max_expected else highest0);
          votes = total_votes s;
          q1 = (highest + 2) div 2;
          q2 = (votes + 2) div 2;
          newquorum = max q1 q2;
          newquorum2 = (if allow_decrease then newquorum else max (cm_quorum s) newquorum);
          newquorum3 = (if cm_two_node s \<and> length members \<le> 2 then 1 else newquorum2)
      in (newquorum3, votes, s'))"

definition set_quorate :: "u32 \<Rightarrow> cman \<Rightarrow> cman" where
  "set_quorate votes s =
     (let quorate = (\<not> (sint (cm_quorum s) > sint votes \<or> cm_config_error s \<noteq> 0));
          s1 = (if \<not> cm_quorate s \<and> quorate
                then foldl (\<lambda>s n. if cn_state n = NODESTATE_AISONLY then send_kill (cn_node_id n) CLUSTER_KILL_REJOIN s else s)
                       s (cm_members s)
                else s)
      in effect (Report_quorum (map cn_node_id (members_of (cm_members s))) quorate) (s1\<lparr>cm_quorate := quorate\<rparr>))"

definition notify_listeners :: "nat option \<Rightarrow> cman_event \<Rightarrow> int \<Rightarrow> cman \<Rightarrow> cman" where
  "notify_listeners con ev arg = effect (Notify con ev arg)"

definition recalculate_quorum :: "bool \<Rightarrow> bool \<Rightarrow> cman \<Rightarrow> cman" where
  "recalculate_quorum allow_decrease by_current_nodes s =
     (case calculate_quorum allow_decrease (if by_current_nodes then word_of_int (cm_cluster_members s) else 0) s of
        (q, votes, s1) \<Rightarrow>
          (let s2 = set_quorate votes (s1\<lparr>cm_quorum := q\<rparr>) in
           notify_listeners None EVENT_REASON_STATECHANGE (if cm_quorate s2 then 1 else 0) s2))"

definition send_reconfigure :: "u32 \<Rightarrow> reconfig_param \<Rightarrow> u32 \<Rightarrow> cman \<Rightarrow> cman" where
  "send_reconfigure nodeid param value = effect (Send 0 (CLUSTER_MSG_RECONFIGURE param nodeid value))"

end
