(* ===== verification/Cman_Barrier.thy ===== *)
theory Cman_Barrier imports Cman_State begin

text \<open>
  Barriers (\<^verbatim>\<open>cman/daemon/barrier.c\<close>). A barrier is found by its name, which registration keeps
  unique, so the name stands for the pointer.
\<close>

definition BARRIER_WAIT :: int where "BARRIER_WAIT = 4"
definition BARRIER_COMPLETE :: int where "BARRIER_COMPLETE = 5"
definition BARRIER_ATTR_AUTODELETE :: u32 where "BARRIER_ATTR_AUTODELETE = 1"
definition BARRIER_ATTR_MULTISTEP :: u32 where "BARRIER_ATTR_MULTISTEP = 2"
definition MAX_BARRIER_NAME_LEN :: nat where "MAX_BARRIER_NAME_LEN = 33"

text \<open>The timer of a barrier is numbered 4; the other timers are those of \<^verbatim>\<open>commands.c\<close>.\<close>

definition find_barrier :: "string \<Rightarrow> cman \<Rightarrow> cl_barrier option" where
  "find_barrier name s = find (\<lambda>b. br_name b = name) (cm_barriers s)"

definition upd_barrier :: "string \<Rightarrow> (cl_barrier \<Rightarrow> cl_barrier) \<Rightarrow> cman \<Rightarrow> cman" where
  "upd_barrier name f s = s\<lparr>cm_barriers := update_first (\<lambda>b. br_name b = name) f (cm_barriers s)\<rparr>"

definition send_barrier_complete_msg :: "cl_barrier \<Rightarrow> cman \<Rightarrow> cl_barrier \<times> cman" where
  "send_barrier_complete_msg b s =
     (let (b1, s1) = (if br_timeout b \<noteq> 0 then (b\<lparr>br_timeout := 0\<rparr>, effect (Delete_timer 4) s) else (b, s))
      in if br_client_complete b1 then (b1, s1)
         else (b1\<lparr>br_client_complete := True\<rparr>,
               case br_con b1 of Some con \<Rightarrow> effect (Status_return con (br_endreason b1)) s1 | None \<Rightarrow> s1))"

definition check_barrier_complete_phase1 :: "cl_barrier \<Rightarrow> cman \<Rightarrow> cl_barrier \<times> cman" where
  "check_barrier_complete_phase1 b s =
     (if br_got_nodes b = (if br_expected_nodes b \<noteq> 0 then br_expected_nodes b else word_of_int (cm_cluster_members s))
      then (b\<lparr>br_phase := 2\<rparr>, effect (Send 0 (CLUSTER_MSG_BARRIER BARRIER_COMPLETE (br_name b))) s)
      else (b, s))"

text \<open>The barrier, unless it was deleted.\<close>

definition barrier_complete_phase2 :: "cl_barrier \<Rightarrow> int \<Rightarrow> cman \<Rightarrow> cl_barrier option \<times> cman" where
  "barrier_complete_phase2 b status s =
     (let b1 = b\<lparr>br_endreason := status\<rparr>;
          (b2, s2) = (if br_state b1 = BARRIER_STATE_WAITING then send_barrier_complete_msg b1 s else (b1, s));
          b3 = b2\<lparr>br_state := BARRIER_STATE_COMPLETE\<rparr>
      in (if br_flags b3 AND BARRIER_ATTR_AUTODELETE \<noteq> 0 then None else Some b3, s2))"

definition put_barrier :: "string \<Rightarrow> cl_barrier option \<Rightarrow> cman \<Rightarrow> cman" where
  "put_barrier name ob s =
     (case ob of
        Some b \<Rightarrow> upd_barrier name (\<lambda>_. b) s
      | None \<Rightarrow> s\<lparr>cm_barriers := delete_first (\<lambda>b. br_name b = name) (cm_barriers s)\<rparr>)"

definition barrier_timer_fn :: "string \<Rightarrow> cman \<Rightarrow> cman" where
  "barrier_timer_fn name s =
     (case find_barrier name s of
        None \<Rightarrow> s
      | Some b \<Rightarrow> (case barrier_complete_phase2 (b\<lparr>br_phase := 0\<rparr>) (- ETIMEDOUT) s of (ob, s1) \<Rightarrow> put_barrier name ob s1))"

definition alloc_barrier :: "string \<Rightarrow> u32 \<Rightarrow> cl_barrier" where
  "alloc_barrier name nodes =
     \<lparr>br_name = name, br_flags = 0, br_state = BARRIER_STATE_INACTIVE, br_expected_nodes = nodes, br_got_nodes = 0,
      br_waitsent = False, br_phase = 0, br_endreason = 0, br_client_complete = False, br_timeout = 0, br_con = None\<rparr>"

definition process_barrier_msg :: "int \<Rightarrow> string \<Rightarrow> cman \<Rightarrow> cman" where
  "process_barrier_msg subcmd name s =
     (if \<not> cm_member s then s
      else
        (case find_barrier name s of
           None \<Rightarrow> s
         | Some b \<Rightarrow>
             if subcmd = BARRIER_WAIT then
               (let b1 = (if br_phase b = 0 then b\<lparr>br_phase := 1\<rparr> else b) in
                if br_phase b1 = 1
                then (case check_barrier_complete_phase1 (b1\<lparr>br_got_nodes := br_got_nodes b1 + 1\<rparr>) s of
                        (b2, s2) \<Rightarrow> put_barrier name (Some b2) s2)
                else put_barrier name (Some b1) s)
             else if subcmd = BARRIER_COMPLETE then
               (case barrier_complete_phase2 b 0 s of (ob, s2) \<Rightarrow> put_barrier name ob s2)
             else s))"

definition barrier_register :: "nat \<Rightarrow> string \<Rightarrow> u32 \<Rightarrow> u32 \<Rightarrow> cman \<Rightarrow> int \<times> cman" where
  "barrier_register con name flags nodes s =
     (if \<not> cm_member s then (- ENOTCONN, s)
      else if length name > MAX_BARRIER_NAME_LEN - 1 then (- EINVAL, s)
      else if flags AND BARRIER_ATTR_MULTISTEP \<noteq> 0 then (- EINVAL, s)
      else
        (case find_barrier name s of
           Some b \<Rightarrow>
             if nodes \<noteq> br_expected_nodes b then (- EINVAL, s)
             else (0, upd_barrier name (\<lambda>b. b\<lparr>br_con := Some con\<rparr>) s)
         | None \<Rightarrow>
             (0, s\<lparr>cm_barriers := cm_barriers s @ [(alloc_barrier name nodes)\<lparr>br_flags := flags, br_con := Some con\<rparr>]\<rparr>)))"

text \<open>\<open>status\<close> is what handing a message to totem answers.\<close>

definition barrier_setattr_enabled :: "cl_barrier \<Rightarrow> u64 \<Rightarrow> int \<Rightarrow> cman \<Rightarrow> int \<times> cman" where
  "barrier_setattr_enabled b arg status s =
     (if arg = 0 then (- EINVAL, s)
      else
        (let b1 = (if br_waitsent b then b else b\<lparr>br_waitsent := True, br_phase := 1\<rparr>);
             s1 = (if br_waitsent b then s
                   else
                     (let t = upd_barrier (br_name b) (\<lambda>_. b1) s;
                          t1 = (if br_timeout b \<noteq> 0 then effect (Start_timer 4) t else t)
                      in effect (Send 0 (CLUSTER_MSG_BARRIER BARRIER_WAIT (br_name b))) t1))
         in if \<not> br_waitsent b \<and> status < 0 then (status, s1)
            else if br_state b1 = BARRIER_STATE_COMPLETE then (br_endreason b1, s1)
            else (0, s1)))"

datatype barrier_attr = BARRIER_SETATTR_AUTODELETE | BARRIER_SETATTR_MULTISTEP | BARRIER_SETATTR_ENABLED
  | BARRIER_SETATTR_NODES | BARRIER_SETATTR_CALLBACK | BARRIER_SETATTR_TIMEOUT

definition barrier_setattr :: "string \<Rightarrow> barrier_attr \<Rightarrow> u64 \<Rightarrow> int \<Rightarrow> cman \<Rightarrow> int \<times> cman" where
  "barrier_setattr name attr arg status s =
     (case find_barrier name s of
        None \<Rightarrow> (- ENOENT, s)
      | Some b \<Rightarrow>
          if br_state b = BARRIER_STATE_COMPLETE then (0, s)
          else
            (case attr of
               BARRIER_SETATTR_AUTODELETE \<Rightarrow>
                 (0, upd_barrier name (\<lambda>b. b\<lparr>br_flags := (if arg \<noteq> 0 then br_flags b OR BARRIER_ATTR_AUTODELETE
                                                       else br_flags b AND NOT BARRIER_ATTR_AUTODELETE)\<rparr>) s)
             | BARRIER_SETATTR_TIMEOUT \<Rightarrow>
                 if br_state b = BARRIER_STATE_WAITING \<or> br_waitsent b then (- EINVAL, s)
                 else (0, upd_barrier name (\<lambda>b. b\<lparr>br_timeout := arg\<rparr>) s)
             | BARRIER_SETATTR_MULTISTEP \<Rightarrow> (- EINVAL, s)
             | BARRIER_SETATTR_ENABLED \<Rightarrow> barrier_setattr_enabled b arg status s
             | BARRIER_SETATTR_NODES \<Rightarrow>
                 if br_state b = BARRIER_STATE_WAITING \<or> br_waitsent b then (- EINVAL, s)
                 else (0, upd_barrier name (\<lambda>b. b\<lparr>br_expected_nodes := ucast arg\<rparr>) s)
             | BARRIER_SETATTR_CALLBACK \<Rightarrow> (0, s)))"

definition barrier_delete :: "string \<Rightarrow> cman \<Rightarrow> int \<times> cman" where
  "barrier_delete name s =
     (case find_barrier name s of None \<Rightarrow> (- ENOENT, s) | Some _ \<Rightarrow> (0, put_barrier name None s))"

definition barrier_wait :: "string \<Rightarrow> int \<Rightarrow> cman \<Rightarrow> int \<times> cman" where
  "barrier_wait name status s =
     (let s1 = snd (barrier_setattr name BARRIER_SETATTR_ENABLED 1 status s) in
      case find_barrier name s1 of
        None \<Rightarrow> (- ENOENT, s1)
      | Some b \<Rightarrow>
          if br_state b = BARRIER_STATE_COMPLETE
          then (case send_barrier_complete_msg b s1 of (b1, s2) \<Rightarrow> (- EWOULDBLOCK, put_barrier name (Some b1) s2))
          else (- EWOULDBLOCK, upd_barrier name (\<lambda>b. b\<lparr>br_state := BARRIER_STATE_WAITING\<rparr>) s1))"

text \<open>Nothing in the sources calls this function.\<close>

fun check_barrier_loop :: "cl_barrier list \<Rightarrow> cman \<Rightarrow> cl_barrier list \<times> cman" where
  "check_barrier_loop [] s = ([], s)"
| "check_barrier_loop (b # bs) s =
     (let (b1, s1) = (if br_waitsent b \<and> br_state b = BARRIER_STATE_WAITING
                      then send_barrier_complete_msg (b\<lparr>br_endreason := (if br_expected_nodes b = 0 then 0 else ESRCH)\<rparr>) s
                      else (b, s));
          (bs1, s2) = check_barrier_loop bs s1
      in (b1 # bs1, s2))"

definition check_barrier_returns :: "cman \<Rightarrow> cman" where
  "check_barrier_returns s = (case check_barrier_loop (cm_barriers s) s of (bs, s1) \<Rightarrow> s1\<lparr>cm_barriers := bs\<rparr>)"

datatype barrier_cmd =
    BARRIER_CMD_REGISTER string u32 u32
  | BARRIER_CMD_CHANGE string barrier_attr u64
  | BARRIER_CMD_WAIT string
  | BARRIER_CMD_DELETE string
  | BARRIER_CMD_other

definition do_cmd_barrier :: "nat \<Rightarrow> barrier_cmd \<Rightarrow> int \<Rightarrow> cman \<Rightarrow> int \<times> cman" where
  "do_cmd_barrier con info status s =
     (if \<not> cm_member s then (- ENOENT, s)
      else
        (case info of
           BARRIER_CMD_REGISTER name flags arg \<Rightarrow> barrier_register con name flags arg s
         | BARRIER_CMD_CHANGE name attr arg \<Rightarrow> barrier_setattr name attr arg status s
         | BARRIER_CMD_WAIT name \<Rightarrow> barrier_wait name status s
         | BARRIER_CMD_DELETE name \<Rightarrow> barrier_delete name s
         | BARRIER_CMD_other \<Rightarrow> (- EINVAL, s)))"

definition remove_barriers :: "nat \<Rightarrow> cman \<Rightarrow> cman" where
  "remove_barriers con s = s\<lparr>cm_barriers := filter (\<lambda>b. br_con b \<noteq> Some con) (cm_barriers s)\<rparr>"

end
