(* ===== verification/Cman_Ops.thy ===== *)
theory Cman_Ops imports Cman_Barrier begin

text \<open>
  The commands and messages of the membership daemon (\<^verbatim>\<open>cman/daemon/commands.c\<close>), reading the node list
  from the configuration (\<^verbatim>\<open>cman/daemon/cmanconfig.c\<close>) and the membership changes that corosync reports
  (\<^verbatim>\<open>cman/daemon/ais.c\<close>). The clock is an argument; the object database of corosync is a parsed
  configuration and the result of reloading it.
\<close>

section \<open>Configuration\<close>

definition override_expected :: "u32 \<Rightarrow> cman \<Rightarrow> cman" where
  "override_expected newexp s = s\<lparr>cm_members := map (\<lambda>n.
     if cn_state n = NODESTATE_MEMBER \<and> cn_expected_votes n > newexp then n\<lparr>cn_expected_votes := newexp\<rparr> else n) (cm_members s)\<rparr>"

definition clear_reread_flags :: "cman \<Rightarrow> cman" where
  "clear_reread_flags s = s\<lparr>cm_members := map (\<lambda>n. n\<lparr>cn_flags := cn_flags n AND NOT NODE_FLAGS_REREAD\<rparr>) (cm_members s)\<rparr>"

definition remove_unread_nodes :: "cman \<Rightarrow> cman" where
  "remove_unread_nodes s = s\<lparr>cm_members :=
     filter (\<lambda>n. \<not> (\<not> has_flag (cn_flags n) NODE_FLAGS_REREAD \<and> cn_state n = NODESTATE_DEAD)) (cm_members s)\<rparr>"

definition add_ccs_node :: "string \<Rightarrow> u32 \<Rightarrow> u32 \<Rightarrow> u32 \<Rightarrow> cman \<Rightarrow> cman" where
  "add_ccs_node name nodeid votes expected_votes s = snd (add_new_node name nodeid votes expected_votes NODESTATE_DEAD s)"

text \<open>
  The part of the object database that \<^verbatim>\<open>read_cman_nodes\<close> reads: the version, the \<^verbatim>\<open>cman\<close> section if there
  is one (expected votes and two-node mode), and per node its name if it has one, its id and votes.
\<close>

record cman_config =
  cc_version :: u32
  cc_cman :: "(u32 \<times> bool) option"
  cc_nodes :: "(string option \<times> u32 \<times> u32) list"

text \<open>The loop over the nodes: \<open>None\<close> for the total if a node id is missing.\<close>

fun read_nodes_loop :: "bool \<Rightarrow> u32 \<Rightarrow> (string option \<times> u32 \<times> u32) list \<Rightarrow> u32 \<Rightarrow> cman \<Rightarrow> u32 option \<times> cman" where
  "read_nodes_loop check expected [] votes s = (Some votes, s)"
| "read_nodes_loop check expected ((None, _, _) # ns) votes s = read_nodes_loop check expected ns votes s"
| "read_nodes_loop check expected ((Some name, nodeid, v) # ns) votes s =
     (if check \<and> nodeid = 0 then (None, s)
      else read_nodes_loop check expected ns (votes + v) (add_ccs_node name nodeid v expected s))"

definition read_cman_nodes :: "cman_config \<Rightarrow> bool \<Rightarrow> cman \<Rightarrow> int \<times> cman" where
  "read_cman_nodes conf check s =
     (let expected = (case cc_cman conf of Some (e, _) \<Rightarrow> e | None \<Rightarrow> 0);
          s1 = s\<lparr>cm_config_version := cc_version conf,
                 cm_two_node := (case cc_cman conf of Some (_, t) \<Rightarrow> t | None \<Rightarrow> cm_two_node s)\<rparr>
      in case read_nodes_loop check expected (cc_nodes conf) 0 (clear_reread_flags s1) of
           (None, s2) \<Rightarrow> (- EINVAL, s2)
         | (Some votes, s2) \<Rightarrow>
             (0, remove_unread_nodes (override_expected (if expected = 0 then votes else expected) s2)))"

text \<open>
  \<^verbatim>\<open>reload_config\<close>; \<open>rc\<close> is what corosync answers to the reload, \<open>conf\<close> the configuration that is then in
  the database. Timer 1 is the one that polls the configuration.
\<close>

definition reload_config :: "u32 \<Rightarrow> bool \<Rightarrow> int \<Rightarrow> cman_config \<Rightarrow> cman \<Rightarrow> int \<times> cman" where
  "reload_config new_version should_broadcast rc conf s =
     (if cm_config_version s = new_version then (0, s)
      else if sint new_version > 0 \<and> new_version < cm_config_version s then (-1, s)
      else
        (let s1 = s\<lparr>cm_wanted_config_version := new_version\<rparr>;
             (err, s2) = (if rc \<noteq> 0 then (rc, s1) else read_cman_nodes conf False s1);
             s3 = s2\<lparr>cm_config_error := err\<rparr>
         in if err \<noteq> 0 then
              (if should_broadcast then (-2, s3\<lparr>cm_config_error := 0\<rparr>)
               else if cm_ccsd_timer_active s3 then (err, s3)
               else (err, effect (Start_timer 1) (s3\<lparr>cm_ccsd_timer_active := True\<rparr>)))
            else
              (let s4 = (if should_broadcast
                         then send_reconfigure (cn_node_id (us_node s3)) RECONFIG_PARAM_CONFIG_VERSION (cm_config_version s3) s3
                         else s3);
                   s5 = recalculate_quorum True False s4
               in (0, notify_listeners None EVENT_REASON_CONFIG_UPDATE (sint (cm_config_version s5)) s5))))"

definition ccsd_timer_fn :: "int \<Rightarrow> cman_config \<Rightarrow> u64 \<Rightarrow> cman \<Rightarrow> cman" where
  "ccsd_timer_fn rc conf now s =
     (case reload_config (cm_wanted_config_version s) False rc conf (s\<lparr>cm_ccsd_timer_active := False\<rparr>) of
        (err, s1) \<Rightarrow>
          if err = 0 \<and> cm_config_version s1 \<ge> cm_wanted_config_version s1 then s1\<lparr>cm_config_error := 0\<rparr>
          else if cm_local_first_trans s1 \<and> now > cm_join_time s1 + cm_startup_config_timeout s1
            then effect Shutdown_request s1
          else s1)"

section \<open>Joining\<close>

definition CNXMAN_MAJOR_VERSION :: u32 where "CNXMAN_MAJOR_VERSION = 6"
definition CNXMAN_MINOR_VERSION :: u32 where "CNXMAN_MINOR_VERSION = 2"
definition CNXMAN_PATCH_VERSION :: u32 where "CNXMAN_PATCH_VERSION = 0"
definition MAX_CLUSTER_NAME_LEN :: nat where "MAX_CLUSTER_NAME_LEN = 16"
definition MAX_CLUSTER_MEMBER_NAME_LEN :: nat where "MAX_CLUSTER_MEMBER_NAME_LEN = 255"
definition MAX_FENCE_AGENT_NAME_LEN :: nat where "MAX_FENCE_AGENT_NAME_LEN = 255"

definition cman_set_nodename :: "string \<Rightarrow> cman \<Rightarrow> int \<times> cman" where
  "cman_set_nodename name s =
     (if cm_ais_running s then (- EALREADY, s) else (0, s\<lparr>cm_nodename := take MAX_CLUSTER_MEMBER_NAME_LEN name\<rparr>))"

definition cman_set_nodeid :: "u32 \<Rightarrow> cman \<Rightarrow> int \<times> cman" where
  "cman_set_nodeid nodeid s = (if cm_ais_running s then (- EALREADY, s) else (0, s\<lparr>cm_wanted_nodeid := nodeid\<rparr>))"

text \<open>\<open>uname\<close> is the name the system has.\<close>

definition cman_join_cluster ::
  "string \<Rightarrow> u16 \<Rightarrow> bool \<Rightarrow> u32 \<Rightarrow> u32 \<Rightarrow> string \<Rightarrow> u64 \<Rightarrow> cman \<Rightarrow> int \<times> cman" where
  "cman_join_cluster name cl_id two_node_flag votes expected_votes uname now s =
     (if cm_ais_running s then (- EALREADY, s)
      else if length name > MAX_CLUSTER_NAME_LEN then (- EINVAL, s)
      else
        (let s1 = s\<lparr>cm_cluster_id := cl_id, cm_cluster_name := take MAX_CLUSTER_NAME_LEN name, cm_two_node := two_node_flag,
                    cm_quit_threads := False, cm_ais_running := True,
                    cm_nodename := (if cm_nodename s = [] then uname else cm_nodename s), cm_join_time := now\<rparr>
         in case add_new_node (cm_nodename s1) (cm_wanted_nodeid s1) votes expected_votes NODESTATE_DEAD s1 of
              (a, s2) \<Rightarrow> (0, upd_node a (\<lambda>n. (set_port_bit 0 n)\<lparr>cn_us := True\<rparr>) (s2\<lparr>cm_us := a\<rparr>))))"

section \<open>Commands\<close>

definition do_cmd_set_version :: "u32 \<times> u32 \<times> u32 \<Rightarrow> u32 \<Rightarrow> int \<Rightarrow> cman_config \<Rightarrow> cman \<Rightarrow> int \<times> cman" where
  "do_cmd_set_version version config rc conf s =
     (if \<not> cm_member s then (- ENOENT, s)
      else if version \<noteq> (CNXMAN_MAJOR_VERSION, CNXMAN_MINOR_VERSION, CNXMAN_PATCH_VERSION) then (- EINVAL, s)
      else reload_config config True rc conf s)"

definition do_cmd_set_expected :: "u32 \<Rightarrow> cman \<Rightarrow> int \<times> cman" where
  "do_cmd_set_expected newexp s =
     (if \<not> cm_member s then (- ENOENT, s)
      else if \<exists>n \<in> set (cm_members s). cn_state n = NODESTATE_AISONLY then (- EINVAL, s)
      else
        (case calculate_quorum True newexp s of (newquorum, votes, s1) \<Rightarrow>
           if newquorum < votes div 2 \<or> newquorum > votes then (- EINVAL, s1)
           else (0, send_reconfigure (cn_node_id (us_node s1)) RECONFIG_PARAM_EXPECTED_VOTES newexp
                      (override_expected newexp s1))))"

definition send_leave :: "u32 \<Rightarrow> cman \<Rightarrow> cman" where
  "send_leave reason = effect (Send 0 (CLUSTER_MSG_LEAVE (ucast reason)))"

definition do_cmd_kill_node :: "u32 \<Rightarrow> cman \<Rightarrow> int \<times> cman" where
  "do_cmd_kill_node nodeid s =
     (if \<not> cm_member s then (- ENOENT, s)
      else
        (case find_node_by_nodeid nodeid s of
           None \<Rightarrow> (- EINVAL, s)
         | Some a \<Rightarrow>
             if cn_state (node_at a s) \<noteq> NODESTATE_MEMBER \<and> cn_state (node_at a s) \<noteq> NODESTATE_AISONLY then (- EINVAL, s)
             else (0, send_kill nodeid CLUSTER_KILL_CMANTOOL
                        (upd_node a (\<lambda>n. n\<lparr>cn_leave_reason := CLUSTER_LEAVEFLAG_KILLED, cn_state := NODESTATE_LEAVING\<rparr>) s))))"

definition send_port_enquire :: "u32 \<Rightarrow> cman \<Rightarrow> cman" where
  "send_port_enquire nodeid = effect (Send nodeid CLUSTER_MSG_PORTENQ)"

definition do_cmd_islistening :: "u32 \<Rightarrow> u8 \<Rightarrow> cman \<Rightarrow> int \<times> cman" where
  "do_cmd_islistening nodeid0 port s =
     (if \<not> cm_member s then (- ENOENT, s)
      else
        (let nodeid = (if nodeid0 = 0 then cn_node_id (us_node s) else nodeid0) in
         case find_node_by_nodeid nodeid s of
           None \<Rightarrow> (- ENOENT, s)
         | Some a \<Rightarrow>
             (let n = node_at a s in
              if cn_state n \<noteq> NODESTATE_MEMBER then (- ENOTCONN, s)
              else if cn_us n then (if cm_port_array s (unat port) \<noteq> None then 1 else 0, s)
              else if \<not> get_port_bit n 0 then (- EBUSY, send_port_enquire (cn_node_id n) s)
              else (if get_port_bit n port then 1 else 0, s))))"

definition do_cmd_set_votes :: "u32 \<Rightarrow> u32 \<Rightarrow> cman \<Rightarrow> int \<times> cman" where
  "do_cmd_set_votes nodeid0 newvotes s =
     (if \<not> cm_member s then (- ENOTCONN, s)
      else
        (let nodeid = (if nodeid0 = 0 then cn_node_id (us_node s) else nodeid0) in
         case find_node_by_nodeid nodeid s of
           None \<Rightarrow> (- ENOENT, s)
         | Some a \<Rightarrow>
             (let saved_votes = cn_votes (node_at a s);
                  s1 = upd_node a (\<lambda>n. n\<lparr>cn_votes := newvotes\<rparr>) s
              in case calculate_quorum True 0 s1 of (newquorum, votes, s2) \<Rightarrow>
                   if newquorum < votes div 2 \<or> newquorum > votes
                   then (- EINVAL, upd_node a (\<lambda>n. n\<lparr>cn_votes := saved_votes\<rparr>) s2)
                   else (0, send_reconfigure nodeid RECONFIG_PARAM_NODE_VOTES newvotes (recalculate_quorum True False s2)))))"

definition upd_con :: "nat \<Rightarrow> (connection \<Rightarrow> connection) \<Rightarrow> cman \<Rightarrow> cman" where
  "upd_con c f s = s\<lparr>cm_con := (cm_con s)(c := f (cm_con s c))\<rparr>"

definition send_port_open_msg :: "u8 \<Rightarrow> cman \<Rightarrow> cman" where
  "send_port_open_msg port = effect (Send 0 (CLUSTER_MSG_PORTOPENED port))"

definition send_port_close_msg :: "u8 \<Rightarrow> cman \<Rightarrow> cman" where
  "send_port_close_msg port = effect (Send 0 (CLUSTER_MSG_PORTCLOSED port))"

definition do_cmd_bind :: "nat \<Rightarrow> u32 \<Rightarrow> cman \<Rightarrow> int \<times> cman" where
  "do_cmd_bind con port s =
     (if port = 0 \<or> port > 255 then (- EINVAL, s)
      else if cm_port_array s (unat port) \<noteq> None then (- EADDRINUSE, s)
      else
        (let s1 = upd_con con (\<lambda>c. c\<lparr>con_port := unat port\<rparr>) (s\<lparr>cm_port_array := (cm_port_array s)(unat port := Some con)\<rparr>)
         in (0, send_port_open_msg (ucast port) (upd_node (cm_us s1) (set_port_bit (ucast port)) s1))))"

definition do_cmd_leave_cluster :: "u32 \<Rightarrow> cman \<Rightarrow> int \<times> cman" where
  "do_cmd_leave_cluster leave_flags s =
     (if \<not> cm_ais_running s then (- ENOTCONN, s)
      else if leave_flags \<noteq> CLUSTER_LEAVEFLAG_FORCE \<and> cm_use_count s \<noteq> 0 then (- ENOTCONN, s)
      else
        (let s1 = upd_node (cm_us s) (\<lambda>n. n\<lparr>cn_leave_reason := leave_flags\<rparr>) (s\<lparr>cm_quit_threads := True\<rparr>) in
         if \<not> cm_member s1 then (0, effect (Exit 0) s1)
         else (0, (send_leave leave_flags s1)\<lparr>cm_use_count := 0\<rparr>)))"

section \<open>Shutdown\<close>

definition SHUTDOWN_ANYWAY :: u32 where "SHUTDOWN_ANYWAY = 1"
definition SHUTDOWN_REMOVE :: u32 where "SHUTDOWN_REMOVE = 2"

text \<open>Timer 3 is the one that ends the wait for replies.\<close>

definition check_shutdown_status :: "cman \<Rightarrow> cman" where
  "check_shutdown_status s =
     (if cm_shutdown_yes s + cm_shutdown_no s \<ge> cm_shutdown_expected s then
        (let s1 = (if cm_shutdown_timer s then effect (Delete_timer 3) s else s) in
         if cm_shutdown_yes s1 \<ge> cm_shutdown_expected s1 \<or> has_flag (cm_shutdown_flags s1) SHUTDOWN_ANYWAY
         then send_leave (if has_flag (cm_shutdown_flags s1) SHUTDOWN_REMOVE
                          then CLUSTER_LEAVEFLAG_REMOVED else CLUSTER_LEAVEFLAG_DOWN) (s1\<lparr>cm_quit_threads := True\<rparr>)
         else (case cm_shutdown_con s1 of
                 Some c \<Rightarrow> (effect (Status_return c (- EBUSY)) s1)\<lparr>cm_shutdown_con := None\<rparr>
               | None \<Rightarrow> effect Null_deref s1))
      else s)"

definition shutdown_timer_fn :: "cman \<Rightarrow> cman" where
  "shutdown_timer_fn s = check_shutdown_status (s\<lparr>cm_shutdown_no := cm_shutdown_expected s\<rparr>)"

definition do_cmd_shutdown_reply :: "nat \<Rightarrow> int \<Rightarrow> cman \<Rightarrow> int \<times> cman" where
  "do_cmd_shutdown_reply con response s =
     (if cm_shutdown_con s = None then (- EWOULDBLOCK, s)
      else
        (- EWOULDBLOCK, check_shutdown_status
           (if response \<noteq> 0
            then upd_con con (\<lambda>c. c\<lparr>con_shutdown_reply := SHUTDOWN_REPLY_YES\<rparr>) (s\<lparr>cm_shutdown_yes := cm_shutdown_yes s + 1\<rparr>)
            else upd_con con (\<lambda>c. c\<lparr>con_shutdown_reply := SHUTDOWN_REPLY_NO\<rparr>) (s\<lparr>cm_shutdown_no := cm_shutdown_no s + 1\<rparr>))))"

text \<open>Counts the listeners and forgets what they replied before (\<^verbatim>\<open>cman/daemon/daemon.c\<close>).\<close>

definition num_listeners :: "cman \<Rightarrow> int \<times> cman" where
  "num_listeners s =
     (int (length (filter (\<lambda>c. con_events (cm_con s c)) (cm_clients s))),
      foldl (\<lambda>s c. upd_con c (\<lambda>k. k\<lparr>con_shutdown_reply := SHUTDOWN_REPLY_UNK\<rparr>) s) s (cm_clients s))"

definition do_cmd_try_shutdown :: "nat \<Rightarrow> u32 \<Rightarrow> cman \<Rightarrow> int \<times> cman" where
  "do_cmd_try_shutdown con flags s =
     (if cm_shutdown_con s \<noteq> None \<or> cm_quit_threads s then (- EALREADY, s)
      else
        (case num_listeners (s\<lparr>cm_shutdown_con := Some con, cm_shutdown_flags := flags, cm_shutdown_yes := 0,
                               cm_shutdown_no := 0\<rparr>) of
           (k, s1) \<Rightarrow>
             (let s2 = s1\<lparr>cm_shutdown_expected := k\<rparr> in
              if k = 0 then (0, check_shutdown_status (s2\<lparr>cm_shutdown_timer := False\<rparr>))
              else (- EWOULDBLOCK,
                    notify_listeners None EVENT_REASON_TRY_SHUTDOWN (uint flags)
                      (effect (Start_timer 3) (s2\<lparr>cm_shutdown_timer := True\<rparr>))))))"

definition unbind_con :: "nat \<Rightarrow> cman \<Rightarrow> cman" where
  "unbind_con con s =
     (let port = con_port (cm_con s con);
          s1 = (if port \<noteq> 0
                then upd_con con (\<lambda>c. c\<lparr>con_port := 0\<rparr>)
                       (upd_node (cm_us s) (clear_port_bit (word_of_nat port))
                         (send_port_close_msg (word_of_nat port)
                           (s\<lparr>cm_port_array := (cm_port_array s)(port := None)\<rparr>)))
                else s);
          s2 = (if cm_shutdown_con s1 \<noteq> None \<and> con_events (cm_con s1 con) then
                  (let r = con_shutdown_reply (cm_con s1 con);
                       t = s1\<lparr>cm_shutdown_yes := cm_shutdown_yes s1 - (if r = SHUTDOWN_REPLY_YES then 1 else 0) + 1,
                              cm_shutdown_no := cm_shutdown_no s1 - (if r = SHUTDOWN_REPLY_NO then 1 else 0)\<rparr>
                   in check_shutdown_status (upd_con con (\<lambda>c. c\<lparr>con_shutdown_reply := SHUTDOWN_REPLY_YES\<rparr>) t))
                else s1)
      in if cm_shutdown_con s2 = Some con then s2\<lparr>cm_shutdown_con := None\<rparr> else s2)"

section \<open>Quorum device\<close>

text \<open>Timer 2 is the one that watches the quorum device.\<close>

definition do_cmd_register_quorum_device :: "string \<Rightarrow> u32 \<Rightarrow> cman \<Rightarrow> int \<times> cman" where
  "do_cmd_register_quorum_device name votes s =
     (if \<not> cm_ais_running s then (- ENOTCONN, s)
      else if \<not> cm_member s then (- ENOENT, s)
      else if length name > MAX_CLUSTER_MEMBER_NAME_LEN then (- EINVAL, s)
      else if (case cm_quorum_device s of Some d \<Rightarrow> cn_name d \<noteq> name | None \<Rightarrow> False) then (- EBUSY, s)
      else if find_node_by_name name s \<noteq> None then (- EALREADY, s)
      else
        (let d = (case cm_quorum_device s of
                    Some d \<Rightarrow> d | None \<Rightarrow> zero_node\<lparr>cn_name := name, cn_state := NODESTATE_DEAD\<rparr>);
             oldvotes = cn_votes d;
             s1 = s\<lparr>cm_quorum_device := Some (d\<lparr>cn_votes := votes\<rparr>)\<rparr>
         in (0, if cn_state d = NODESTATE_MEMBER \<and> oldvotes \<noteq> votes then recalculate_quorum True False s1 else s1)))"

definition do_cmd_unregister_quorum_device :: "cman \<Rightarrow> int \<times> cman" where
  "do_cmd_unregister_quorum_device s =
     (case cm_quorum_device s of
        None \<Rightarrow> (- EINVAL, s)
      | Some d \<Rightarrow> if cn_state d = NODESTATE_MEMBER then (- EBUSY, s) else (0, s\<lparr>cm_quorum_device := None\<rparr>))"

definition set_device_state :: "nodestate \<Rightarrow> cman \<Rightarrow> cman" where
  "set_device_state st s = s\<lparr>cm_quorum_device := map_option (\<lambda>d. d\<lparr>cn_state := st\<rparr>) (cm_quorum_device s)\<rparr>"

definition quorum_device_timer_fn :: "int \<Rightarrow> cman \<Rightarrow> cman" where
  "quorum_device_timer_fn now s =
     (case cm_quorum_device s of
        None \<Rightarrow> s
      | Some d \<Rightarrow>
          if cn_state d = NODESTATE_DEAD then s
          else if cn_last_hello d + cm_quorumdev_poll s div 1000 < now
            then recalculate_quorum False False (set_device_state NODESTATE_DEAD s)
          else effect (Start_timer 2) s)"

definition do_cmd_poll_quorum_device :: "int \<Rightarrow> int \<Rightarrow> cman \<Rightarrow> int \<times> cman" where
  "do_cmd_poll_quorum_device yesno now s =
     (case cm_quorum_device s of
        None \<Rightarrow> (- EINVAL, s)
      | Some d \<Rightarrow>
          if yesno \<noteq> 0 then
            (let s1 = s\<lparr>cm_quorum_device := Some (d\<lparr>cn_last_hello := now\<rparr>)\<rparr> in
             if cn_state d = NODESTATE_DEAD
             then (0, effect (Start_timer 2) (recalculate_quorum False False (set_device_state NODESTATE_MEMBER s1)))
             else (0, s1))
          else if cn_state d = NODESTATE_MEMBER
            then (0, effect (Delete_timer 2) (recalculate_quorum False False (set_device_state NODESTATE_DEAD s)))
          else (0, s))"

section \<open>Fencing information\<close>

definition mark_fenced :: "cluster_node \<Rightarrow> cluster_node" where
  "mark_fenced n = n\<lparr>cn_flags := cn_flags n OR NODE_FLAGS_FENCED OR
     (if cn_state n = NODESTATE_MEMBER then NODE_FLAGS_FENCEDWHILEUP else 0)\<rparr>"

definition do_cmd_update_fence_info :: "u32 \<Rightarrow> u64 \<Rightarrow> string \<Rightarrow> cman \<Rightarrow> int \<times> cman" where
  "do_cmd_update_fence_info nodeid fence_time agent s =
     (case find_node_by_nodeid nodeid s of
        None \<Rightarrow> (- EINVAL, s)
      | Some a \<Rightarrow>
          if length agent \<ge> MAX_FENCE_AGENT_NAME_LEN then (- EINVAL, s)
          else (0, effect (Send 0 (CLUSTER_MSG_FENCESTATUS True nodeid fence_time agent)) (upd_node a mark_fenced s)))"

definition do_fence_msg :: "bool \<Rightarrow> u32 \<Rightarrow> u64 \<Rightarrow> string \<Rightarrow> cman \<Rightarrow> cman" where
  "do_fence_msg fenced nodeid timesec agent s =
     (case find_node_by_nodeid nodeid s of
        None \<Rightarrow> s
      | Some a \<Rightarrow>
          upd_node a (\<lambda>n. let n1 = n\<lparr>cn_fence_time := timesec, cn_fence_agent := Some agent\<rparr>
                          in if fenced then mark_fenced n1 else n1) s)"

section \<open>Nodes coming and going\<close>

text \<open>\<open>emergency\<close> is the name made up for a node that is not in the configuration.\<close>

definition add_ais_node :: "string \<Rightarrow> u32 \<Rightarrow> u64 \<Rightarrow> int \<Rightarrow> cman \<Rightarrow> cman" where
  "add_ais_node emergency nodeid incar total_members s =
     (let (a, s1) = (case find_node_by_nodeid nodeid s of
                       Some a \<Rightarrow> (a, s)
                     | None \<Rightarrow>
                         if total_members = 1 then (cm_us s, s)
                         else add_new_node emergency nodeid 1 (word_of_int total_members) NODESTATE_DEAD s)
      in if cn_state (node_at a s1) = NODESTATE_DEAD \<or> cn_state (node_at a s1) = NODESTATE_LEAVING
         then recalculate_quorum False False
                (upd_node a (\<lambda>n. n\<lparr>cn_incarnation := incar, cn_state := NODESTATE_MEMBER, cn_leave_reason := 0\<rparr>)
                  (s1\<lparr>cm_cluster_members := cm_cluster_members s1 + 1\<rparr>))
         else s1)"

definition del_ais_node :: "u32 \<Rightarrow> u64 \<Rightarrow> cman \<Rightarrow> cman" where
  "del_ais_node nodeid now s =
     (case find_node_by_nodeid nodeid s of
        None \<Rightarrow> s
      | Some a \<Rightarrow>
          (let n = node_at a s;
               f1 = (if \<not> has_flag (cn_flags n) NODE_FLAGS_FENCEDWHILEUP \<or> now - cn_fence_time n > 120
                     then cn_flags n AND NOT NODE_FLAGS_FENCED else cn_flags n);
               f2 = (f1 AND NOT NODE_FLAGS_FENCEDWHILEUP) OR NODE_FLAGS_BEENDOWN;
               s1 = upd_node a (\<lambda>n. n\<lparr>cn_flags := f2\<rparr>) s;
               clear_ports = (\<lambda>n. n\<lparr>cn_state := NODESTATE_DEAD, cn_port_bits := replicate PORT_BITS_SIZE 0\<rparr>)
           in case cn_state n of
                NODESTATE_MEMBER \<Rightarrow>
                  recalculate_quorum False False
                    (upd_node a clear_ports (s1\<lparr>cm_cluster_members := cm_cluster_members s1 - 1\<rparr>))
              | NODESTATE_AISONLY \<Rightarrow> upd_node a (\<lambda>n. n\<lparr>cn_state := NODESTATE_DEAD\<rparr>) s1
              | NODESTATE_LEAVING \<Rightarrow>
                  (let s2 = upd_node a clear_ports (s1\<lparr>cm_cluster_members := cm_cluster_members s1 - 1\<rparr>)
                   in if cn_leave_reason n = CLUSTER_LEAVEFLAG_REMOVED then recalculate_quorum True True s2
                      else recalculate_quorum False False s2)
              | NODESTATE_JOINING \<Rightarrow> s1
              | NODESTATE_DEAD \<Rightarrow> s1))"

definition valid_transition_msg ::
  "u32 \<Rightarrow> cl_transmsg \<Rightarrow> int \<Rightarrow> cman_config \<Rightarrow> u64 \<Rightarrow> cman \<Rightarrow> bool \<times> cman" where
  "valid_transition_msg nodeid msg rc conf now s =
     (if tm_clustername msg \<noteq> cm_cluster_name s then (False, s)
      else if tm_cluster_id msg \<noteq> cm_cluster_id s then (False, s)
      else if tm_major_version msg \<noteq> CNXMAN_MAJOR_VERSION then (False, s)
      else
        (let s1 = (if cm_local_first_trans s \<and> now > cm_join_time s + cm_startup_config_timeout s
                   then s\<lparr>cm_local_first_trans := False\<rparr> else s);
             (err, s2) = (if tm_config_version msg > cm_config_version s1
                          then reload_config (tm_config_version msg) False rc conf s1 else (0, s1))
         in if err \<noteq> 0 \<and> tm_config_version msg \<noteq> cm_config_version s2 then (False, s2)
            else (True, if tm_config_version msg = cm_config_version s2 \<and> nodeid \<noteq> cn_node_id (us_node s2)
                        then s2\<lparr>cm_local_first_trans := False\<rparr> else s2)))"

text \<open>
  The message has 16 bytes for the cluster's name, and the name of the fence agent follows it: a name
  of 16 characters is not terminated, and is read as running into the agent's.
\<close>

definition CLUSTERNAME_BYTES :: nat where "CLUSTERNAME_BYTES = 16"

definition transition_msg :: "bool \<Rightarrow> cman \<Rightarrow> cl_transmsg" where
  "transition_msg first s =
     (let us = us_node s; agent = (case cn_fence_agent us of Some ag \<Rightarrow> ag | None \<Rightarrow> [])
      in \<lparr>tm_first_trans = first, tm_cluster_id = cm_cluster_id s, tm_votes = cn_votes us,
          tm_expected_votes = cn_expected_votes us, tm_major_version = CNXMAN_MAJOR_VERSION,
          tm_minor_version = CNXMAN_MINOR_VERSION, tm_patch_version = CNXMAN_PATCH_VERSION,
          tm_config_version = cm_config_version s,
          tm_flags = (if have_disallowed s then cn_flags us OR NODE_FLAGS_SEESDISALLOWED else cn_flags us),
          tm_fence_time = cn_fence_time us, tm_join_time = cm_join_time s,
          tm_clustername = (if length (cm_cluster_name s) < CLUSTERNAME_BYTES then cm_cluster_name s
                            else cm_cluster_name s @ agent),
          tm_fence_agent = agent\<rparr>)"

definition send_transition_msg :: "bool \<Rightarrow> cman \<Rightarrow> cman" where
  "send_transition_msg first s =
     (let s1 = s\<lparr>cm_member := True, cm_local_first_trans := first\<rparr>
      in effect (Send 0 (CLUSTER_MSG_TRANSITION (transition_msg first s1))) s1)"

definition do_reconfigure_msg :: "reconfig_param \<Rightarrow> u32 \<Rightarrow> u32 \<Rightarrow> int \<Rightarrow> cman_config \<Rightarrow> cman \<Rightarrow> cman" where
  "do_reconfigure_msg param nodeid value rc conf s =
     (case find_node_by_nodeid nodeid s of
        None \<Rightarrow> s
      | Some a \<Rightarrow>
          (let s1 = s\<lparr>cm_local_first_trans := False\<rparr> in
           case param of
             RECONFIG_PARAM_EXPECTED_VOTES \<Rightarrow>
               recalculate_quorum True False
                 (override_expected value (upd_node a (\<lambda>n. n\<lparr>cn_expected_votes := value\<rparr>) s1))
           | RECONFIG_PARAM_NODE_VOTES \<Rightarrow>
               recalculate_quorum True False (upd_node a (\<lambda>n. n\<lparr>cn_votes := value\<rparr>) s1)
           | RECONFIG_PARAM_CONFIG_VERSION \<Rightarrow> snd (reload_config value False rc conf s1)))"

text \<open>
  A transition message. \<open>emergency\<close>, \<open>rc\<close> and \<open>conf\<close> are passed on. A node that is turned away becomes
  \<^verbatim>\<open>AISONLY\<close>, and is also told to die if the cluster is quorate.
\<close>

definition turn_away :: "nat \<Rightarrow> u32 \<Rightarrow> cman \<Rightarrow> cman" where
  "turn_away a nodeid s =
     (if cn_state (node_at a s) = NODESTATE_AISONLY then s
      else
        (let s1 = upd_node a (\<lambda>n. n\<lparr>cn_state := NODESTATE_AISONLY\<rparr>) s in
         if cm_quorate s then send_kill nodeid CLUSTER_KILL_REJOIN s1 else s1))"

text \<open>Whether the sender has state that cannot be merged with ours, or is an old node that rejoins.\<close>

definition stateful_rejoin :: "cl_transmsg \<Rightarrow> cluster_node \<Rightarrow> cluster_node \<Rightarrow> bool" where
  "stateful_rejoin msg n us \<longleftrightarrow>
     has_flag (tm_flags msg) NODE_FLAGS_DIRTY \<and> has_flag (cn_flags n) NODE_FLAGS_BEENDOWN \<or>
     has_flag (tm_flags msg) NODE_FLAGS_DIRTY \<and> tm_first_trans msg \<and> \<not> cn_us n \<and> has_flag (cn_flags us) NODE_FLAGS_DIRTY"

definition old_rejoin :: "cl_transmsg \<Rightarrow> cluster_node \<Rightarrow> bool" where
  "old_rejoin msg n \<longleftrightarrow> tm_minor_version msg = 0 \<and> tm_join_time msg = cn_cman_join_time n \<and>
     has_flag (cn_flags n) NODE_FLAGS_BEENDOWN"

text \<open>The second half of \<^verbatim>\<open>do_process_transition\<close>, for a node that was let in.\<close>

definition accept_transition :: "nat \<Rightarrow> u32 \<Rightarrow> cl_transmsg \<Rightarrow> u32 \<Rightarrow> nodestate \<Rightarrow> cman \<Rightarrow> cman" where
  "accept_transition a nodeid msg old_expected old_state s =
     (let s1 = (if cm_enable_disallowed s \<and> tm_first_trans msg \<and> \<not> cn_us (node_at a s) \<and> have_disallowed s
                then upd_node a (\<lambda>n. n\<lparr>cn_state := NODESTATE_AISONLY\<rparr>) s else s);
          s2 = upd_node a (\<lambda>n. n\<lparr>cn_flags := tm_flags msg, cn_expected_votes := tm_expected_votes msg\<rparr>) s1;
          s3 = upd_node (cm_us s2) (\<lambda>n. n\<lparr>cn_expected_votes := max (cn_expected_votes n) (tm_expected_votes msg)\<rparr>) s2;
          s4 = (if old_state \<noteq> cn_state (node_at a s3) \<or> old_expected \<noteq> cn_expected_votes (node_at a s3)
                then recalculate_quorum False False s3 else s3);
          n4 = node_at a s4;
          s5 = (case cn_fence_agent n4 of
                  Some ag \<Rightarrow>
                    if tm_fence_agent msg \<noteq> [] \<and> ag \<noteq> tm_fence_agent msg
                    then upd_node a (\<lambda>n. n\<lparr>cn_fence_agent := Some (tm_fence_agent msg), cn_fence_time := tm_fence_time msg\<rparr>) s4
                    else s4
                | None \<Rightarrow> s4);
          n5 = node_at a s5
      in case cn_fence_agent n5 of
           Some ag \<Rightarrow>
             if cn_fence_time n5 \<noteq> 0 \<and> tm_fence_time msg = 0 \<and> tm_fence_agent msg = []
             then effect (Send nodeid (CLUSTER_MSG_FENCESTATUS False nodeid (cn_fence_time n5) ag)) s5 else s5
         | None \<Rightarrow> s5)"

definition do_process_transition ::
  "string \<Rightarrow> u32 \<Rightarrow> cl_transmsg \<Rightarrow> int \<Rightarrow> cman_config \<Rightarrow> u64 \<Rightarrow> cman \<Rightarrow> cman" where
  "do_process_transition emergency nodeid msg0 rc conf now s0 =
     (case valid_transition_msg nodeid msg0 rc conf now s0 of
        (False, s) \<Rightarrow> s
      | (True, s) \<Rightarrow>
          if cm_enable_disallowed s \<and> cm_local_first_trans s \<and> has_flag (tm_flags msg0) NODE_FLAGS_SEESDISALLOWED \<and>
             \<not> have_disallowed s
          then effect (Exit 2) s
          else
            (let msg = msg0\<lparr>tm_flags := tm_flags msg0 AND NOT NODE_FLAGS_SEESDISALLOWED\<rparr>;
                 s1 = (if find_node_by_nodeid nodeid s = None
                       then add_ais_node emergency nodeid (cm_incarnation s) (cm_num_ais_nodes s) s else s)
             in case find_node_by_nodeid nodeid s1 of
                  None \<Rightarrow> effect (Exit 134) s1
                | Some a \<Rightarrow>
                    (let n = node_at a s1 in
                     if cm_enable_disallowed s1 \<and> stateful_rejoin msg n (us_node s1) then turn_away a nodeid s1
                     else if cm_enable_disallowed s1 \<and> old_rejoin msg n then turn_away a nodeid s1
                     else
                       (let s2 = (if cm_enable_disallowed s1
                                  then upd_node a (\<lambda>n. n\<lparr>cn_cman_join_time := tm_join_time msg\<rparr>) s1 else s1);
                            s3 = add_ais_node emergency nodeid (cm_incarnation s2) (cm_num_ais_nodes s2) s2
                        in accept_transition a nodeid msg (cn_expected_votes n) (cn_state n) s3))))"

section \<open>Messages\<close>

definition post_port_event :: "cman_event \<Rightarrow> u8 \<Rightarrow> u32 \<Rightarrow> cman \<Rightarrow> cman" where
  "post_port_event reason port nodeid s =
     (case cm_port_array s (unat port) of
        Some con \<Rightarrow> notify_listeners (Some con) reason (sint nodeid) s | None \<Rightarrow> s)"

definition upd_sender :: "u32 \<Rightarrow> (cluster_node \<Rightarrow> cluster_node) \<Rightarrow> cman \<Rightarrow> cman" where
  "upd_sender nodeid f s = (case find_node_by_nodeid nodeid s of Some a \<Rightarrow> upd_node a f s | None \<Rightarrow> s)"

definition process_leave :: "u32 \<Rightarrow> u16 \<Rightarrow> cman \<Rightarrow> cman" where
  "process_leave nodeid reason s =
     (case find_node_by_nodeid nodeid s of
        None \<Rightarrow> s
      | Some a \<Rightarrow>
          (let s1 = (if cn_node_id (node_at a s) = cn_node_id (us_node s)
                     then effect Shutdown_request
                            (case cm_shutdown_con s of Some c \<Rightarrow> effect (Status_return c 0) s | None \<Rightarrow> s)
                     else s)
           in upd_node a (\<lambda>n. n\<lparr>cn_leave_reason := ucast reason,
                cn_state := (if cn_state n = NODESTATE_MEMBER \<or> cn_state n = NODESTATE_AISONLY
                             then NODESTATE_LEAVING else cn_state n)\<rparr>) s1))"

definition process_internal_message ::
  "string \<Rightarrow> u32 \<Rightarrow> cman_msg \<Rightarrow> int \<Rightarrow> cman_config \<Rightarrow> u64 \<Rightarrow> cman \<Rightarrow> cman" where
  "process_internal_message emergency nodeid msg rc conf now s =
     (case msg of
        CLUSTER_MSG_PORTOPENED port \<Rightarrow>
          post_port_event EVENT_REASON_PORTOPENED port nodeid (upd_sender nodeid (set_port_bit port) s)
      | CLUSTER_MSG_PORTCLOSED port \<Rightarrow>
          post_port_event EVENT_REASON_PORTCLOSED port nodeid (upd_sender nodeid (clear_port_bit port) s)
      | CLUSTER_MSG_PORTENQ \<Rightarrow> effect (Send 0 (CLUSTER_MSG_PORTSTATUS (cn_port_bits (us_node s)))) s
      | CLUSTER_MSG_PORTSTATUS bits \<Rightarrow>
          if nodeid \<noteq> cn_node_id (us_node s) then upd_sender nodeid (\<lambda>n. n\<lparr>cn_port_bits := bits\<rparr>) s else s
      | CLUSTER_MSG_TRANSITION tm \<Rightarrow> do_process_transition emergency nodeid tm rc conf now s
      | CLUSTER_MSG_KILLNODE reason target \<Rightarrow> if target = cm_wanted_nodeid s then effect (Exit 1) s else s
      | CLUSTER_MSG_LEAVE reason \<Rightarrow> process_leave nodeid reason s
      | CLUSTER_MSG_BARRIER subcmd name \<Rightarrow>
          if find_node_by_nodeid nodeid s \<noteq> None then process_barrier_msg subcmd name s else s
      | CLUSTER_MSG_RECONFIGURE param target value \<Rightarrow> do_reconfigure_msg param target value rc conf s
      | CLUSTER_MSG_FENCESTATUS fenced target timesec agent \<Rightarrow> do_fence_msg fenced target timesec agent s)"

text \<open>
  \<^verbatim>\<open>cman_confchg_fn\<close>: nodes that left are removed; a regular configuration is followed by a transition
  message. The message to the clients is left out.
\<close>

definition cman_confchg_fn :: "bool \<Rightarrow> u32 list \<Rightarrow> u32 list \<Rightarrow> u64 \<Rightarrow> u64 \<Rightarrow> cman \<Rightarrow> cman" where
  "cman_confchg_fn regular member_list left_list seq now s =
     (let s1 = foldl (\<lambda>s n. del_ais_node n now s)
                 (s\<lparr>cm_incarnation := seq, cm_num_ais_nodes := int (length member_list)\<rparr>) left_list
      in if regular
         then (let s2 = send_transition_msg (cm_first_trans s1) s1
               in if length member_list > 1 then s2\<lparr>cm_first_trans := False\<rparr> else s2)
         else s1)"

text \<open>\<^verbatim>\<open>cman_deliver_fn\<close> and \<^verbatim>\<open>send_to_userport\<close> for port 0: messages for us or for all.\<close>

definition cman_deliver_fn ::
  "string \<Rightarrow> u32 \<Rightarrow> u32 \<Rightarrow> cman_msg \<Rightarrow> int \<Rightarrow> cman_config \<Rightarrow> u64 \<Rightarrow> cman \<Rightarrow> cman" where
  "cman_deliver_fn emergency srcid tgtid msg rc conf now s =
     (if tgtid = cn_node_id (us_node s) \<or> tgtid = 0 then process_internal_message emergency srcid msg rc conf now s else s)"

section \<open>Dispatch of commands\<close>

datatype cman_cmd =
    CMAN_CMD_NOTIFY
  | CMAN_CMD_REMOVENOTIFY
  | CMAN_CMD_SET_DIRTY
  | CMAN_CMD_START_CONFCHG
  | CMAN_CMD_STOP_CONFCHG
  | CMAN_CMD_SET_VERSION "u32 \<times> u32 \<times> u32" u32
  | CMAN_CMD_BIND u32
  | CMAN_CMD_GETNODECOUNT
  | CMAN_CMD_ISQUORATE
  | CMAN_CMD_ISACTIVE
  | CMAN_CMD_SETEXPECTED_VOTES u32
  | CMAN_CMD_SET_VOTES u32 u32
  | CMAN_CMD_ISLISTENING u32 u8
  | CMAN_CMD_KILLNODE u32
  | CMAN_CMD_BARRIER barrier_cmd
  | CMAN_CMD_LEAVE_CLUSTER u32
  | CMAN_CMD_TRY_SHUTDOWN u32
  | CMAN_CMD_SHUTDOWN_REPLY int
  | CMAN_CMD_REG_QUORUMDEV string u32
  | CMAN_CMD_UNREG_QUORUMDEV
  | CMAN_CMD_POLL_QUORUMDEV int
  | CMAN_CMD_UPDATE_FENCE_INFO u32 u64 string

text \<open>The commands that change state or answer with a number; \<open>status\<close> is what totem answers.\<close>

definition process_command :: "nat \<Rightarrow> cman_cmd \<Rightarrow> int \<Rightarrow> int \<Rightarrow> cman_config \<Rightarrow> int \<Rightarrow> cman \<Rightarrow> int \<times> cman" where
  "process_command con cmd status rc conf now s =
     (case cmd of
        CMAN_CMD_NOTIFY \<Rightarrow>
          (let s1 = upd_con con (\<lambda>c. c\<lparr>con_events := True\<rparr>) s in
           (0, if cm_shutdown_con s1 \<noteq> None
               then (notify_listeners (Some con) EVENT_REASON_TRY_SHUTDOWN (uint (cm_shutdown_flags s1)) s1)
                      \<lparr>cm_shutdown_expected := cm_shutdown_expected s1 + 1\<rparr>
               else s1))
      | CMAN_CMD_REMOVENOTIFY \<Rightarrow> (0, upd_con con (\<lambda>c. c\<lparr>con_events := False\<rparr>) s)
      | CMAN_CMD_SET_DIRTY \<Rightarrow> (0, upd_node (cm_us s) (\<lambda>n. n\<lparr>cn_flags := cn_flags n OR NODE_FLAGS_DIRTY\<rparr>) s)
      | CMAN_CMD_START_CONFCHG \<Rightarrow> (0, upd_con con (\<lambda>c. c\<lparr>con_confchg := True\<rparr>) s)
      | CMAN_CMD_STOP_CONFCHG \<Rightarrow> (0, upd_con con (\<lambda>c. c\<lparr>con_confchg := False\<rparr>) s)
      | CMAN_CMD_SET_VERSION version config \<Rightarrow> do_cmd_set_version version config rc conf s
      | CMAN_CMD_BIND port \<Rightarrow> do_cmd_bind con port s
      | CMAN_CMD_GETNODECOUNT \<Rightarrow> (get_node_count s, s)
      | CMAN_CMD_ISQUORATE \<Rightarrow> (if cm_quorate s then 1 else 0, s)
      | CMAN_CMD_ISACTIVE \<Rightarrow> (if cm_ais_running s then 1 else 0, s)
      | CMAN_CMD_SETEXPECTED_VOTES newexp \<Rightarrow> do_cmd_set_expected newexp s
      | CMAN_CMD_SET_VOTES nodeid votes \<Rightarrow> do_cmd_set_votes nodeid votes s
      | CMAN_CMD_ISLISTENING nodeid port \<Rightarrow> do_cmd_islistening nodeid port s
      | CMAN_CMD_KILLNODE nodeid \<Rightarrow> do_cmd_kill_node nodeid s
      | CMAN_CMD_BARRIER info \<Rightarrow> do_cmd_barrier con info status s
      | CMAN_CMD_LEAVE_CLUSTER flags \<Rightarrow> do_cmd_leave_cluster flags s
      | CMAN_CMD_TRY_SHUTDOWN flags \<Rightarrow> do_cmd_try_shutdown con flags s
      | CMAN_CMD_SHUTDOWN_REPLY response \<Rightarrow> do_cmd_shutdown_reply con response s
      | CMAN_CMD_REG_QUORUMDEV name votes \<Rightarrow> do_cmd_register_quorum_device name votes s
      | CMAN_CMD_UNREG_QUORUMDEV \<Rightarrow> do_cmd_unregister_quorum_device s
      | CMAN_CMD_POLL_QUORUMDEV yesno \<Rightarrow> do_cmd_poll_quorum_device yesno now s
      | CMAN_CMD_UPDATE_FENCE_INFO nodeid fence_time agent \<Rightarrow> do_cmd_update_fence_info nodeid fence_time agent s)"

text \<open>A client goes away (\<^verbatim>\<open>remove_client\<close> in \<^verbatim>\<open>cman/daemon/daemon.c\<close>).\<close>

definition remove_client :: "nat \<Rightarrow> cman \<Rightarrow> cman" where
  "remove_client con s = remove_barriers con (unbind_con con (s\<lparr>cm_clients := filter (\<lambda>c. c \<noteq> con) (cm_clients s)\<rparr>))"

end
