(* ===== verification/Cman_Inv.thy ===== *)
theory Cman_Inv imports Cman_Ops begin

text \<open>
  Which nodes are known: an invariant that depends only on the addresses and ids of the nodes, and
  that survives adding a node and forgetting the nodes that left the configuration, survives every
  command, message and membership change. It is interpreted on the order of the list.
\<close>

section \<open>Identities\<close>

definition ident :: "cluster_node \<Rightarrow> nat \<times> u32" where
  "ident n = (cn_addr n, cn_node_id n)"

definition idents :: "cman \<Rightarrow> (nat \<times> u32) list \<times> nat" where
  "idents s = (map ident (cm_members s), cm_next s)"

named_theorems ident_simps \<open>operations that keep the identities of the nodes\<close>

lemma idents_upd_node [ident_simps]: "(\<And>n. ident (f n) = ident n) \<Longrightarrow> idents (upd_node a f s) = idents s"
  by (simp add: idents_def upd_node_def)

lemma idents_effect [ident_simps]: "idents (effect e s) = idents s"
  by (simp add: idents_def effect_def)

lemma idents_fields [ident_simps]:
  "idents (s\<lparr>cm_us := v1\<rparr>) = idents s" "idents (s\<lparr>cm_cluster_members := v2\<rparr>) = idents s"
  "idents (s\<lparr>cm_member := v3\<rparr>) = idents s" "idents (s\<lparr>cm_config_version := v4\<rparr>) = idents s"
  "idents (s\<lparr>cm_wanted_config_version := v5\<rparr>) = idents s" "idents (s\<lparr>cm_config_error := v6\<rparr>) = idents s"
  "idents (s\<lparr>cm_ccsd_timer_active := v7\<rparr>) = idents s" "idents (s\<lparr>cm_local_first_trans := v8\<rparr>) = idents s"
  "idents (s\<lparr>cm_quorum := v9\<rparr>) = idents s" "idents (s\<lparr>cm_quorate := v10\<rparr>) = idents s"
  "idents (s\<lparr>cm_two_node := v11\<rparr>) = idents s" "idents (s\<lparr>cm_quorum_device := v12\<rparr>) = idents s"
  "idents (s\<lparr>cm_cluster_name := v13\<rparr>) = idents s" "idents (s\<lparr>cm_cluster_id := v14\<rparr>) = idents s"
  "idents (s\<lparr>cm_nodename := v15\<rparr>) = idents s" "idents (s\<lparr>cm_wanted_nodeid := v16\<rparr>) = idents s"
  "idents (s\<lparr>cm_join_time := v17\<rparr>) = idents s" "idents (s\<lparr>cm_ais_running := v18\<rparr>) = idents s"
  "idents (s\<lparr>cm_use_count := v19\<rparr>) = idents s" "idents (s\<lparr>cm_quit_threads := v20\<rparr>) = idents s"
  "idents (s\<lparr>cm_incarnation := v21\<rparr>) = idents s" "idents (s\<lparr>cm_num_ais_nodes := v22\<rparr>) = idents s"
  "idents (s\<lparr>cm_first_trans := v23\<rparr>) = idents s" "idents (s\<lparr>cm_clients := v24\<rparr>) = idents s"
  "idents (s\<lparr>cm_con := v25\<rparr>) = idents s" "idents (s\<lparr>cm_port_array := v26\<rparr>) = idents s"
  "idents (s\<lparr>cm_shutdown_con := v27\<rparr>) = idents s" "idents (s\<lparr>cm_shutdown_flags := v28\<rparr>) = idents s"
  "idents (s\<lparr>cm_shutdown_yes := v29\<rparr>) = idents s" "idents (s\<lparr>cm_shutdown_no := v30\<rparr>) = idents s"
  "idents (s\<lparr>cm_shutdown_expected := v31\<rparr>) = idents s" "idents (s\<lparr>cm_shutdown_timer := v32\<rparr>) = idents s"
  "idents (s\<lparr>cm_barriers := v33\<rparr>) = idents s"
  by (simp_all add: idents_def)

lemma idents_map [ident_simps]:
  "(\<And>n. ident (f n) = ident n) \<Longrightarrow> idents (s\<lparr>cm_members := map f (cm_members s)\<rparr>) = idents s"
  by (simp add: idents_def)

lemma ident_fields [simp]:
  "ident (n\<lparr>cn_flags := a1\<rparr>) = ident n" "ident (n\<lparr>cn_state := a2\<rparr>) = ident n" "ident (n\<lparr>cn_us := a3\<rparr>) = ident n"
  "ident (n\<lparr>cn_votes := a4\<rparr>) = ident n" "ident (n\<lparr>cn_expected_votes := a5\<rparr>) = ident n"
  "ident (n\<lparr>cn_leave_reason := a6\<rparr>) = ident n" "ident (n\<lparr>cn_incarnation := a7\<rparr>) = ident n"
  "ident (n\<lparr>cn_port_bits := a8\<rparr>) = ident n" "ident (n\<lparr>cn_fence_time := a9\<rparr>) = ident n"
  "ident (n\<lparr>cn_fence_agent := a10\<rparr>) = ident n" "ident (n\<lparr>cn_cman_join_time := a11\<rparr>) = ident n"
  "ident (n\<lparr>cn_last_hello := a12\<rparr>) = ident n" "ident (n\<lparr>cn_name := a13\<rparr>) = ident n"
  "ident (set_port_bit p n) = ident n" "ident (clear_port_bit p n) = ident n" "ident (mark_fenced n) = ident n"
  by (simp_all add: ident_def set_port_bit_def clear_port_bit_def mark_fenced_def)

lemma idents_foldl: "(\<And>s x. idents (f s x) = idents s) \<Longrightarrow> idents (foldl f s xs) = idents s"
  by (induction xs arbitrary: s) simp_all

lemma idents_set_quorate [ident_simps]: "idents (set_quorate v s) = idents s"
  by (simp add: set_quorate_def Let_def send_kill_def ident_simps idents_foldl)

lemma idents_calculate_quorum: "calculate_quorum a m s = (q, v, s') \<Longrightarrow> idents s' = idents s"
  by (auto simp: calculate_quorum_def Let_def ident_simps split: if_splits)

lemma idents_recalculate_quorum [ident_simps]: "idents (recalculate_quorum a b s) = idents s"
  by (auto simp: recalculate_quorum_def Let_def notify_listeners_def ident_simps split: prod.splits dest: idents_calculate_quorum)

lemma idents_small [ident_simps]:
  "idents (notify_listeners oc ev x s) = idents s" "idents (send_reconfigure i rp v s) = idents s"
  "idents (send_kill i r s) = idents s" "idents (send_leave l s) = idents s"
  "idents (override_expected e s) = idents s" "idents (clear_reread_flags s) = idents s"
  "idents (send_port_enquire i s) = idents s" "idents (send_port_open_msg p s) = idents s"
  "idents (send_port_close_msg p s) = idents s" "idents (upd_con c g s) = idents s"
  "idents (set_device_state st s) = idents s" "idents (post_port_event ev p i s) = idents s"
  by (simp_all add: notify_listeners_def send_reconfigure_def send_kill_def send_leave_def override_expected_def
      clear_reread_flags_def send_port_enquire_def send_port_open_msg_def send_port_close_msg_def upd_con_def
      set_device_state_def post_port_event_def ident_simps split: option.split)

lemma idents_check_shutdown_status [ident_simps]: "idents (check_shutdown_status s) = idents s"
  by (simp add: check_shutdown_status_def Let_def ident_simps split: option.split)

lemma idents_send_transition_msg [ident_simps]: "idents (send_transition_msg f s) = idents s"
  by (simp add: send_transition_msg_def Let_def ident_simps)

lemma idents_Let: "(\<And>x. idents x = idents s \<Longrightarrow> idents (f x) = idents t) \<Longrightarrow> idents e = idents s \<Longrightarrow> idents (Let e f) = idents t"
  by (simp add: Let_def)

lemma idents_Let_same: "(\<And>x. idents (f x) = idents t) \<Longrightarrow> idents (Let e f) = idents t"
  by (simp add: Let_def)

lemma idents_accept_transition: "idents (accept_transition a n msg oe os s) = idents s"
  unfolding accept_transition_def
  by (rule idents_Let [where s = s], rule idents_Let [where s = s], rule idents_Let [where s = s],
      rule idents_Let [where s = s], rule idents_Let_same, rule idents_Let [where s = s], rule idents_Let_same)
     (simp_all add: ident_simps split: option.split)

section \<open>Barriers leave the nodes alone\<close>

lemma idents_upd_barrier [ident_simps]: "idents (upd_barrier n f s) = idents s" "idents (put_barrier n ob s) = idents s"
  by (auto simp: upd_barrier_def put_barrier_def ident_simps split: option.split)

lemma idents_send_barrier: "send_barrier_complete_msg b s = (b', s') \<Longrightarrow> idents s' = idents s"
  by (auto simp: send_barrier_complete_msg_def Let_def ident_simps split: if_splits option.splits)

lemma idents_phase2: "barrier_complete_phase2 b st s = (ob, s') \<Longrightarrow> idents s' = idents s"
  by (auto simp: barrier_complete_phase2_def Let_def dest: idents_send_barrier split: if_splits prod.splits)

lemma idents_phase1: "check_barrier_complete_phase1 b s = (b', s') \<Longrightarrow> idents s' = idents s"
  by (auto simp: check_barrier_complete_phase1_def ident_simps split: if_splits)

lemma idents_process_barrier_msg [ident_simps]: "idents (process_barrier_msg c n s) = idents s"
  by (auto simp: process_barrier_msg_def Let_def ident_simps dest: idents_phase1 idents_phase2
      split: option.split prod.split)

lemma idents_setattr_enabled: "barrier_setattr_enabled b arg st s = (rv, s') \<Longrightarrow> idents s' = idents s"
  by (auto simp: barrier_setattr_enabled_def Let_def ident_simps split: if_splits)

lemma idents_setattr: "barrier_setattr n at arg st s = (rv, s') \<Longrightarrow> idents s' = idents s"
  by (auto simp: barrier_setattr_def ident_simps dest: idents_setattr_enabled
      split: option.splits if_splits barrier_attr.splits)

lemma idents_barrier_wait: "barrier_wait n st s = (rv, s') \<Longrightarrow> idents s' = idents s"
proof -
  have "idents (snd (barrier_setattr n BARRIER_SETATTR_ENABLED 1 st s)) = idents s"
    using idents_setattr by (metis prod.collapse)
  then show "barrier_wait n st s = (rv, s') \<Longrightarrow> ?thesis"
    by (auto simp: barrier_wait_def Let_def ident_simps dest: idents_send_barrier split: option.splits if_splits prod.splits)
qed

lemma idents_do_cmd_barrier: "do_cmd_barrier c info st s = (rv, s') \<Longrightarrow> idents s' = idents s"
  by (auto simp: do_cmd_barrier_def barrier_register_def barrier_delete_def ident_simps
      dest: idents_setattr idents_barrier_wait split: if_splits barrier_cmd.splits option.splits)

lemma idents_remove_barriers [ident_simps]: "idents (remove_barriers c s) = idents s"
  by (simp add: remove_barriers_def ident_simps)

section \<open>The interface\<close>

locale node_list_invariant =
  fixes I :: "cman \<Rightarrow> bool"
  assumes same: "I s \<Longrightarrow> idents s' = idents s \<Longrightarrow> I s'"
    and add: "I s \<Longrightarrow> I (snd (add_new_node name nodeid votes expected st s))"
    and remove: "I s \<Longrightarrow> I (remove_unread_nodes s)"
begin

lemma keep: "idents s' = idents s \<Longrightarrow> I s' = I s"
  using same by metis

lemma add_eq: "add_new_node name nodeid votes expected st s = (a, s') \<Longrightarrow> I s \<Longrightarrow> I s'"
  using add by (metis snd_conv)

lemma read_nodes_loop_keeps: "I s \<Longrightarrow> I (snd (read_nodes_loop check expected ns votes s))"
  by (induction check expected ns votes s rule: read_nodes_loop.induct) (auto simp: add_ccs_node_def add)

lemma read_cman_nodes_keeps: "read_cman_nodes conf check s = (err, s') \<Longrightarrow> I s \<Longrightarrow> I s'"
proof -
  assume r: "read_cman_nodes conf check s = (err, s')" and i: "I s"
  let ?e = "case cc_cman conf of Some (e, _) \<Rightarrow> e | None \<Rightarrow> 0"
  let ?s1 = "clear_reread_flags (s\<lparr>cm_config_version := cc_version conf,
      cm_two_node := (case cc_cman conf of Some (_, t) \<Rightarrow> t | None \<Rightarrow> cm_two_node s)\<rparr>)"
  have "I ?s1" using i keep [of ?s1 s] by (simp add: ident_simps)
  then have l: "I (snd (read_nodes_loop check ?e (cc_nodes conf) 0 ?s1))" by (rule read_nodes_loop_keeps)
  have "I (override_expected x t)" if "I t" for x t using that keep [of "override_expected x t" t] by (simp add: ident_simps)
  with r l show "I s'" by (auto simp: read_cman_nodes_def Let_def remove split: prod.splits option.splits)
qed

lemma reload_config_keeps: "reload_config v b rc conf s = (err, s') \<Longrightarrow> I s \<Longrightarrow> I s'"
proof -
  assume r: "reload_config v b rc conf s = (err, s')" and i: "I s"
  obtain e2 s2 where s2: "(if rc \<noteq> 0 then (rc, s\<lparr>cm_wanted_config_version := v\<rparr>)
      else read_cman_nodes conf False (s\<lparr>cm_wanted_config_version := v\<rparr>)) = (e2, s2)" by fastforce
  have i1: "I (s\<lparr>cm_wanted_config_version := v\<rparr>)"
    using i keep [of "s\<lparr>cm_wanted_config_version := v\<rparr>" s] by (simp add: ident_simps)
  have i2: "I s2" using s2 i1 read_cman_nodes_keeps by (auto split: if_splits)
  have "s' = s \<or> idents s' = idents s2"
    using r s2 by (auto simp: reload_config_def Let_def ident_simps split: if_splits)
  with i i2 keep show "I s'" by blast
qed

lemma ccsd_timer_fn_keeps: "I s \<Longrightarrow> I (ccsd_timer_fn rc conf now s)"
proof -
  assume i: "I s"
  let ?s0 = "s\<lparr>cm_ccsd_timer_active := False\<rparr>"
  obtain err s1 where r: "reload_config (cm_wanted_config_version s) False rc conf ?s0 = (err, s1)" by fastforce
  have "I s1" using reload_config_keeps [OF r] i keep [of ?s0 s] by (simp add: ident_simps)
  moreover have "idents (ccsd_timer_fn rc conf now s) = idents s1"
    by (simp add: ccsd_timer_fn_def r ident_simps)
  ultimately show ?thesis using keep by blast
qed

lemma add_ais_node_keeps: "I s \<Longrightarrow> I (add_ais_node em nodeid incar tot s)"
proof -
  assume i: "I s"
  obtain a s1 where s1: "(case find_node_by_nodeid nodeid s of Some a \<Rightarrow> (a, s)
     | None \<Rightarrow> if tot = 1 then (cm_us s, s) else add_new_node em nodeid 1 (word_of_int tot) NODESTATE_DEAD s) = (a, s1)"
    by fastforce
  have "I s1" using s1 i add_eq by (auto split: option.splits if_splits)
  moreover have "idents (add_ais_node em nodeid incar tot s) = idents s1"
    by (simp add: add_ais_node_def s1 ident_simps)
  ultimately show ?thesis using keep by blast
qed

lemma del_ais_node_keeps: "I s \<Longrightarrow> I (del_ais_node nodeid now s)"
proof -
  have "idents (del_ais_node nodeid now s) = idents s"
    by (simp add: del_ais_node_def Let_def ident_simps split: option.split nodestate.split)
  then show "I s \<Longrightarrow> ?thesis" using keep by blast
qed

lemma confchg_keeps: "I s \<Longrightarrow> I (cman_confchg_fn regular members left seq now s)"
proof -
  assume i: "I s"
  let ?s0 = "s\<lparr>cm_incarnation := seq, cm_num_ais_nodes := int (length members)\<rparr>"
  have "I (foldl (\<lambda>s n. del_ais_node n now s) t ns)" if "I t" for t ns
    using that by (induction ns arbitrary: t) (simp_all add: del_ais_node_keeps)
  then have "I (foldl (\<lambda>s n. del_ais_node n now s) ?s0 left)" using i keep [of ?s0 s] by (simp add: ident_simps)
  moreover have "idents (cman_confchg_fn regular members left seq now s) =
      idents (foldl (\<lambda>s n. del_ais_node n now s) ?s0 left)"
    by (simp add: cman_confchg_fn_def Let_def ident_simps)
  ultimately show ?thesis using keep by blast
qed

lemma valid_transition_msg_keeps: "valid_transition_msg n msg rc conf now s = (ok, s') \<Longrightarrow> I s \<Longrightarrow> I s'"
proof -
  assume r: "valid_transition_msg n msg rc conf now s = (ok, s')" and i: "I s"
  let ?s1 = "if cm_local_first_trans s \<and> now > cm_join_time s + cm_startup_config_timeout s
                   then s\<lparr>cm_local_first_trans := False\<rparr> else s"
  obtain err s2 where s2: "(if tm_config_version msg > cm_config_version ?s1
      then reload_config (tm_config_version msg) False rc conf ?s1 else (0, ?s1)) = (err, s2)" by fastforce
  have "I ?s1" using i keep [of ?s1 s] by (simp add: ident_simps)
  then have "I s2" using s2 reload_config_keeps by (metis prod.inject)
  moreover have "s' = s \<or> idents s' = idents s2"
    using r s2 by (auto simp: valid_transition_msg_def Let_def ident_simps split: if_splits)
  ultimately show "I s'" using i keep by blast
qed

lemma accept_transition_keeps: "I (accept_transition a n msg oe os s) = I s"
  by (rule keep) (rule idents_accept_transition)

lemma turn_away_keeps: "I (turn_away a n s) = I s"
  by (rule keep) (simp add: turn_away_def Let_def ident_simps)

lemma transition_keeps: "I s \<Longrightarrow> I (do_process_transition em n msg rc conf now s)"
proof -
  assume i: "I s"
  obtain ok s1 where v: "valid_transition_msg n msg rc conf now s = (ok, s1)" by fastforce
  have i1: "I s1" by (rule valid_transition_msg_keeps [OF v i])
  have e: "I (effect x t) = I t" for x t by (rule keep) (simp add: ident_simps)
  have u: "I (upd_node a (\<lambda>n. n\<lparr>cn_cman_join_time := j\<rparr>) t) = I t" for a j t by (rule keep) (simp add: ident_simps)
  show ?thesis
    using i1 add_ais_node_keeps unfolding do_process_transition_def v
    by (auto simp: Let_def e u accept_transition_keeps turn_away_keeps split: bool.split option.split)
qed

lemma reconfigure_keeps: "I s \<Longrightarrow> I (do_reconfigure_msg p n v rc conf s)"
proof -
  assume i: "I s"
  let ?s1 = "s\<lparr>cm_local_first_trans := False\<rparr>"
  have i1: "I ?s1" using i keep [of ?s1 s] by (simp add: ident_simps)
  then have "I (snd (reload_config v False rc conf ?s1))" using reload_config_keeps by (metis prod.collapse)
  moreover have "I (recalculate_quorum True False (override_expected v (upd_node a (\<lambda>n. n\<lparr>cn_expected_votes := v\<rparr>) ?s1)))"
    "I (recalculate_quorum True False (upd_node a (\<lambda>n. n\<lparr>cn_votes := v\<rparr>) ?s1))" for a
    using i1 by (subst keep [of _ ?s1]; simp add: ident_simps)+
  ultimately show ?thesis using i by (simp add: do_reconfigure_msg_def Let_def split: option.split reconfig_param.split)
qed

lemma message_keeps: "I s \<Longrightarrow> I (process_internal_message em n msg rc conf now s)"
proof -
  assume i: "I s"
  have u: "I (upd_sender n f s)" if "\<And>x. ident (f x) = ident x" for f
    using that i keep [of "upd_sender n f s" s] by (simp add: upd_sender_def ident_simps split: option.split)
  have p: "I (post_port_event ev q n t) = I t" for ev q t by (rule keep) (simp add: ident_simps)
  have e: "I (effect x s)" for x using i keep [of "effect x s" s] by (simp add: ident_simps)
  have b: "I (process_barrier_msg c m s)" for c m using i keep [of "process_barrier_msg c m s" s] by (simp add: ident_simps)
  have l: "I (process_leave n r s)" for r
    using i keep [of "process_leave n r s" s] by (simp add: process_leave_def Let_def ident_simps split: option.split)
  have f: "I (do_fence_msg fe t ti ag s)" for fe t ti ag
    using i keep [of "do_fence_msg fe t ti ag s" s] by (simp add: do_fence_msg_def Let_def ident_simps split: option.split)
  show ?thesis
    using i by (cases msg) (simp_all add: process_internal_message_def u p e b l f transition_keeps reconfigure_keeps)
qed

lemma deliver_keeps: "I s \<Longrightarrow> I (cman_deliver_fn em src tgt msg rc conf now s)"
  by (simp add: cman_deliver_fn_def message_keeps)

lemma join_keeps: "I s \<Longrightarrow> I (snd (cman_join_cluster name cl tn v e un now s))"
proof -
  assume i: "I s"
  define s1 where "s1 = s\<lparr>cm_cluster_id := cl, cm_cluster_name := take MAX_CLUSTER_NAME_LEN name, cm_two_node := tn,
      cm_quit_threads := False, cm_ais_running := True,
      cm_nodename := (if cm_nodename s = [] then un else cm_nodename s), cm_join_time := now\<rparr>"
  have i1: "I s1" using i by (subst keep [of _ s]) (simp_all add: s1_def ident_simps)
  obtain a s2 where s2: "add_new_node (cm_nodename s1) (cm_wanted_nodeid s1) v e NODESTATE_DEAD s1 = (a, s2)" by fastforce
  have "snd (cman_join_cluster name cl tn v e un now s) \<in>
      {s, upd_node a (\<lambda>n. (set_port_bit 0 n)\<lparr>cn_us := True\<rparr>) (s2\<lparr>cm_us := a\<rparr>)}"
    unfolding cman_join_cluster_def Let_def s1_def [symmetric] s2 by simp
  moreover have "I (upd_node a (\<lambda>n. (set_port_bit 0 n)\<lparr>cn_us := True\<rparr>) (s2\<lparr>cm_us := a\<rparr>)) = I s2"
    by (rule keep) (simp add: ident_simps)
  ultimately show ?thesis using i add_eq [OF s2 i1] by auto
qed

lemma unbind_keeps: "I (unbind_con c s) = I s"
proof (rule keep)
  show "idents (unbind_con c s) = idents s"
    unfolding unbind_con_def
    by (rule idents_Let_same, rule idents_Let [where s = s], rule idents_Let [where s = s])
       (simp_all add: ident_simps Let_def)
qed

lemma remove_client_keeps: "I s \<Longrightarrow> I (remove_client c s)"
proof -
  assume i: "I s"
  let ?s0 = "s\<lparr>cm_clients := filter (\<lambda>x. x \<noteq> c) (cm_clients s)\<rparr>"
  have "I (remove_client c s) = I (unbind_con c ?s0)"
    unfolding remove_client_def by (rule keep) (simp add: ident_simps)
  with i show ?thesis using keep [of ?s0 s] by (simp add: unbind_keeps ident_simps)
qed

lemma set_expected_keeps: "do_cmd_set_expected e s = (rv, s') \<Longrightarrow> idents s' = idents s"
  by (auto simp: do_cmd_set_expected_def ident_simps dest: idents_calculate_quorum split: if_splits prod.splits)

lemma set_votes_keeps:
  assumes "do_cmd_set_votes n v s = (rv, s')"
  shows "idents s' = idents s"
proof -
  have "idents s2 = idents s" if "calculate_quorum True 0 (upd_node a (\<lambda>n. n\<lparr>cn_votes := v\<rparr>) s) = (q, t, s2)" for a q t s2
    using idents_calculate_quorum [OF that] by (simp add: ident_simps)
  with assms show ?thesis
    by (auto simp: do_cmd_set_votes_def Let_def ident_simps split: if_splits prod.splits option.splits)
qed

lemma num_listeners_keeps: "num_listeners s = (k, s') \<Longrightarrow> idents s' = idents s"
  by (auto simp: num_listeners_def ident_simps intro: idents_foldl)

lemma try_shutdown_keeps: "do_cmd_try_shutdown c f s = (rv, s') \<Longrightarrow> idents s' = idents s"
  by (auto simp: do_cmd_try_shutdown_def Let_def ident_simps dest!: num_listeners_keeps split: if_splits prod.splits)

lemma device_keeps:
  "do_cmd_register_quorum_device name v s = (rv, s') \<Longrightarrow> idents s' = idents s"
  "do_cmd_unregister_quorum_device s = (rv, s') \<Longrightarrow> idents s' = idents s"
  "do_cmd_poll_quorum_device y now s = (rv, s') \<Longrightarrow> idents s' = idents s"
  by (auto simp: do_cmd_register_quorum_device_def do_cmd_unregister_quorum_device_def do_cmd_poll_quorum_device_def
      Let_def ident_simps split: if_splits option.splits)

lemma device_timer_keeps: "I (quorum_device_timer_fn now s) = I s"
  by (rule keep) (simp add: quorum_device_timer_fn_def Let_def ident_simps split: option.split)

lemma small_cmds_keep:
  "do_cmd_bind c p s = (rv, s') \<Longrightarrow> idents s' = idents s"
  "do_cmd_islistening n q s = (rv, s') \<Longrightarrow> idents s' = idents s"
  "do_cmd_kill_node n s = (rv, s') \<Longrightarrow> idents s' = idents s"
  "do_cmd_leave_cluster l s = (rv, s') \<Longrightarrow> idents s' = idents s"
  "do_cmd_shutdown_reply c x s = (rv, s') \<Longrightarrow> idents s' = idents s"
  "do_cmd_update_fence_info n ft ag s = (rv, s') \<Longrightarrow> idents s' = idents s"
  by (auto simp: do_cmd_bind_def do_cmd_islistening_def do_cmd_kill_node_def do_cmd_leave_cluster_def
      do_cmd_shutdown_reply_def do_cmd_update_fence_info_def Let_def ident_simps split: if_splits option.splits)

lemma command_keeps: "process_command con cmd status rc conf now s = (rv, s') \<Longrightarrow> I s \<Longrightarrow> I s'"
proof -
  assume r: "process_command con cmd status rc conf now s = (rv, s')" and i: "I s"
  have "I s' \<or> idents s' = idents s"
  proof (cases cmd)
    case (CMAN_CMD_SET_VERSION x y)
    with r i reload_config_keeps show ?thesis
      by (auto simp: process_command_def do_cmd_set_version_def split: if_splits)
  qed (use r in \<open>auto simp: process_command_def Let_def ident_simps
        dest: set_expected_keeps set_votes_keeps try_shutdown_keeps device_keeps small_cmds_keep idents_do_cmd_barrier
        split: if_splits\<close>)
  with i keep show "I s'" by blast
qed

end

section \<open>The order of the list\<close>

text \<open>
  The list is sorted by node id, a node id other than 0 occurs once, and addresses are distinct.
\<close>

definition ordered :: "cman \<Rightarrow> bool" where
  "ordered s \<longleftrightarrow> sorted (map cn_node_id (cm_members s)) \<and>
     distinct (filter (\<lambda>i. i \<noteq> 0) (map cn_node_id (cm_members s))) \<and>
     distinct (map cn_addr (cm_members s)) \<and> (\<forall>n \<in> set (cm_members s). cn_addr n < cm_next s)"

lemma ordered_same: "ordered s \<Longrightarrow> idents s' = idents s \<Longrightarrow> ordered s'"
proof -
  assume o: "ordered s" and e: "idents s' = idents s"
  have "map cn_node_id (cm_members t) = map snd (fst (idents t))" "map cn_addr (cm_members t) = map fst (fst (idents t))" for t
    by (simp_all add: idents_def ident_def o_def)
  then have "map cn_node_id (cm_members s') = map cn_node_id (cm_members s)" "map cn_addr (cm_members s') = map cn_addr (cm_members s)"
    using e by simp_all
  moreover have "cm_next s' = cm_next s" using e by (simp add: idents_def)
  moreover have "(\<forall>n \<in> set (cm_members t). cn_addr n < k) \<longleftrightarrow> (\<forall>a \<in> set (map cn_addr (cm_members t)). a < k)" for t k by simp
  ultimately show ?thesis using o unfolding ordered_def by metis
qed

lemma set_node_add_ordered [simp]: "set (node_add_ordered n ns) = insert n (set ns)"
  by (induction n ns rule: node_add_ordered.induct) auto

lemma sorted_node_add_ordered:
  "sorted (map cn_node_id ns) \<Longrightarrow> sorted (map cn_node_id (node_add_ordered n ns))"
  by (induction n ns rule: node_add_ordered.induct) (auto simp: less_imp_le)

lemma mset_node_add_ordered: "distinct (map f (node_add_ordered n ns)) \<longleftrightarrow> f n \<notin> f ` set ns \<and> distinct (map f ns)"
  by (induction n ns rule: node_add_ordered.induct) auto

lemma distinct_ids_node_add_ordered:
  "distinct (filter (\<lambda>i. i \<noteq> 0) (map cn_node_id (node_add_ordered n ns))) \<longleftrightarrow>
     (cn_node_id n = 0 \<or> cn_node_id n \<notin> cn_node_id ` set ns) \<and> distinct (filter (\<lambda>i. i \<noteq> 0) (map cn_node_id ns))"
  by (induction n ns rule: node_add_ordered.induct) auto

lemma fill_node_simps [simp]:
  "cn_addr (fill_node nm i v e n) = cn_addr n"
  "cn_node_id (fill_node nm i v e n) = (if cn_node_id n = 0 then i else cn_node_id n)"
  by (simp_all add: fill_node_def)

lemma find_node_Some:
  "find_node_by_nodeid i s = Some a \<Longrightarrow> \<exists>n \<in> set (cm_members s). cn_addr n = a \<and> cn_node_id n = i"
  by (auto simp: find_node_by_nodeid_def find_Some_iff)

lemma find_node_None: "find_node_by_nodeid i s = None \<longleftrightarrow> i \<notin> cn_node_id ` set (cm_members s)"
  by (auto simp: find_node_by_nodeid_def find_None_iff)

lemma ordered_add:
  assumes "ordered s"
  shows "ordered (snd (add_new_node name nodeid votes expected st s))"
proof (cases "if nodeid \<noteq> 0 then find_node_by_nodeid nodeid s else None")
  case (Some a)
  then have f: "nodeid \<noteq> 0" "find_node_by_nodeid nodeid s = Some a" by (auto split: if_splits)
  obtain m where m: "m \<in> set (cm_members s)" "cn_addr m = a" "cn_node_id m = nodeid" using find_node_Some [OF f(2)] by blast
  have "cn_node_id n = nodeid" if "n \<in> set (cm_members s)" "cn_addr n = a" for n
    using assms that m unfolding ordered_def distinct_map inj_on_def by metis
  then have "ident (if cn_addr n = a then fill_node name nodeid votes expected n else n) = ident n" if "n \<in> set (cm_members s)" for n
    using that f(1) by (simp add: ident_def)
  then have "idents (upd_node a (fill_node name nodeid votes expected) s) = idents s"
    by (simp add: idents_def upd_node_def)
  with assms ordered_same show ?thesis by (simp add: add_new_node_def f)
next
  case None
  then have "nodeid = 0 \<or> nodeid \<notin> cn_node_id ` set (cm_members s)" by (simp add: find_node_None split: if_splits)
  moreover have "cm_next s \<notin> cn_addr ` set (cm_members s)" using assms by (auto simp: ordered_def)
  ultimately show ?thesis
    using assms None unfolding add_new_node_def Let_def None
    by (auto simp: ordered_def sorted_node_add_ordered mset_node_add_ordered distinct_ids_node_add_ordered zero_node_def less_Suc_eq
        simp del: filter_map)
qed

lemma distinct_ids_filter:
  "distinct (filter P (map f xs)) \<Longrightarrow> distinct (filter P (map f (filter Q xs)))"
  by (induction xs) (auto simp: filter_map)

lemma ordered_remove: "ordered s \<Longrightarrow> ordered (remove_unread_nodes s)"
  unfolding ordered_def remove_unread_nodes_def
  by (intro conjI) (simp_all add: sorted_filter distinct_ids_filter distinct_map_filter)

interpretation nli: node_list_invariant ordered
  by unfold_locales (fact ordered_same ordered_add ordered_remove)+

end
