(* ===== verification/Cman_Quorum.thy ===== *)
theory Cman_Quorum imports Cman_Inv begin

text \<open>
  What the quorum calculation decides, as arithmetic on numbers that do not wrap: the votes that are
  present and the votes that the members expect. A cluster is quorate if it has more than half of the
  votes that a member expects, and two sides that share the expected votes cannot both have them.
\<close>

section \<open>Votes as numbers\<close>

definition votes_present :: "cman \<Rightarrow> nat" where
  "votes_present s = sum_list (map (\<lambda>n. unat (cn_votes n)) (members_of (cm_members s))) + unat (quorum_device_votes s)"

definition votes_expected :: "cman \<Rightarrow> nat" where
  "votes_expected s = foldr max (map (\<lambda>n. unat (cn_expected_votes n)) (members_of (cm_members s))) 0"

text \<open>Numbers of votes that are no larger than a signed integer holds.\<close>

definition votes_bounded :: "cman \<Rightarrow> bool" where
  "votes_bounded s \<longleftrightarrow> votes_present s < 2 ^ 31 \<and> votes_expected s < 2 ^ 31 \<and> unat (cm_quorum s) < 2 ^ 31"

text \<open>Two-node mode is in force.\<close>

definition two_node_rule :: "cman \<Rightarrow> bool" where
  "two_node_rule s \<longleftrightarrow> cm_two_node s \<and> length (members_of (cm_members s)) \<le> 2"

lemma unat_sum_list:
  fixes ws :: "'a::len word list"
  assumes "sum_list (map unat ws) < 2 ^ LENGTH('a)"
  shows "unat (sum_list ws) = sum_list (map unat ws)"
  using assms
proof (induction ws)
  case (Cons w ws)
  then have "unat (sum_list ws) = sum_list (map unat ws)" by simp
  moreover from Cons.prems have "unat w + sum_list (map unat ws) < 2 ^ LENGTH('a)" by simp
  ultimately show ?case by (simp add: unat_word_ariths)
qed simp

lemma unat_total_votes:
  assumes "votes_present s < 2 ^ 32"
  shows "unat (total_votes s) = votes_present s"
proof -
  let ?vs = "map cn_votes (members_of (cm_members s)) @ [quorum_device_votes s]"
  have "sum_list (map unat ?vs) = votes_present s" by (simp add: votes_present_def o_def)
  then show ?thesis using unat_sum_list [of ?vs] assms by (simp add: total_votes_def)
qed

lemma unat_foldl_max:
  fixes w :: "'a::len word"
  shows "unat (foldl max w ws) = max (unat w) (foldr max (map unat ws) 0)"
  by (induction ws arbitrary: w) (auto simp: max_def word_le_nat_alt)

lemma unat_highest: "unat (foldl max 0 (map cn_expected_votes (members_of (cm_members s)))) = votes_expected s"
  by (simp add: unat_foldl_max votes_expected_def o_def)

lemma unat_half:
  fixes w :: u32
  shows "unat w < 2 ^ 31 \<Longrightarrow> unat ((w + 2) div 2) = (unat w + 2) div 2"
  by (simp add: unat_div unat_word_ariths)

lemma unat_max: "unat (max a b) = max (unat a) (unat (b :: 'a::len word))"
  by (auto simp: max_def word_le_nat_alt)

lemma int_less_31: "n < 2 ^ 31 \<Longrightarrow> int n < 2 ^ 31"
  by simp

lemma sint_unat:
  fixes w :: u32
  assumes "unat w < 2 ^ 31"
  shows "sint w = int (unat w)"
proof -
  have e: "uint w = int (unat w)" by (rule uint_nat)
  have u: "uint w < 2 ^ 31" unfolding e by (rule int_less_31 [OF assms])
  have "- (2 ^ 31) \<le> uint w" using uint_ge_0 [of w] by (rule order_trans [rotated]) simp
  then have "signed_take_bit 31 (uint w) = uint w" using u by (rule signed_take_bit_int_eq_self)
  then show ?thesis by (simp add: sint_uint)
qed

section \<open>The result of the calculation\<close>

text \<open>The quorum that the votes give, before the one in force is looked at.\<close>

definition fair_quorum :: "cman \<Rightarrow> nat" where
  "fair_quorum s = max ((votes_expected s + 2) div 2) ((votes_present s + 2) div 2)"

lemma calculate_quorum_fair:
  assumes "votes_bounded s" "calculate_quorum ad 0 s = (q, v, s')" "\<not> two_node_rule s"
  shows "unat q = (if ad then fair_quorum s else max (unat (cm_quorum s)) (fair_quorum s))"
    and "v = total_votes s" and "s' = s"
  using assms unat_half [of "total_votes s"] unat_half [of "foldl max 0 (map cn_expected_votes (members_of (cm_members s)))"]
    unat_total_votes [of s] unat_highest [of s]
  by (auto simp: calculate_quorum_def Let_def votes_bounded_def two_node_rule_def fair_quorum_def unat_max)

lemma fair_quorum_met: "fair_quorum s \<le> votes_present s \<longleftrightarrow> votes_expected s < 2 * votes_present s"
  by (auto simp: fair_quorum_def)

lemma kill_loop:
  "\<exists>es. foldl (\<lambda>s n. if cn_state n = NODESTATE_AISONLY then send_kill (cn_node_id n) CLUSTER_KILL_REJOIN s else s) s ns =
     s\<lparr>cm_effects := es\<rparr>"
proof (induction ns arbitrary: s)
  case Nil
  have "s = s\<lparr>cm_effects := cm_effects s\<rparr>" by simp
  then show ?case by (metis foldl_Nil)
next
  case (Cons n ns)
  let ?t = "if cn_state n = NODESTATE_AISONLY then send_kill (cn_node_id n) CLUSTER_KILL_REJOIN s else s"
  have "?t\<lparr>cm_effects := es\<rparr> = s\<lparr>cm_effects := es\<rparr>" for es by (simp add: send_kill_def effect_def)
  with Cons.IH [of ?t] show ?case by simp
qed

lemma set_quorate_state:
  "\<exists>es. set_quorate v s = s\<lparr>cm_quorate := (sint (cm_quorum s) \<le> sint v \<and> cm_config_error s = 0), cm_effects := es\<rparr>"
proof -
  define b where "b \<longleftrightarrow> sint (cm_quorum s) \<le> sint v \<and> cm_config_error s = 0"
  then have b: "(\<not> (sint (cm_quorum s) > sint v \<or> cm_config_error s \<noteq> 0)) = b" by auto
  obtain es where k: "(if \<not> cm_quorate s \<and> b
      then foldl (\<lambda>s n. if cn_state n = NODESTATE_AISONLY then send_kill (cn_node_id n) CLUSTER_KILL_REJOIN s else s)
             s (cm_members s)
      else s) = s\<lparr>cm_effects := es\<rparr>"
    using kill_loop [of s "cm_members s"] by (cases "\<not> cm_quorate s \<and> b") (auto intro: that [of "cm_effects s"])
  show ?thesis unfolding set_quorate_def Let_def b k b_def [symmetric] by (auto simp: effect_def)
qed

lemma recalculate_quorum_state:
  assumes "calculate_quorum ad (if b then word_of_int (cm_cluster_members s) else 0) s = (q, v, s1)"
  shows "\<exists>es. recalculate_quorum ad b s =
    s1\<lparr>cm_quorum := q, cm_quorate := (sint q \<le> sint v \<and> cm_config_error s1 = 0), cm_effects := es\<rparr>"
proof -
  obtain es where "set_quorate v (s1\<lparr>cm_quorum := q\<rparr>) =
      s1\<lparr>cm_quorum := q, cm_quorate := (sint q \<le> sint v \<and> cm_config_error s1 = 0), cm_effects := es\<rparr>"
    using set_quorate_state [of v "s1\<lparr>cm_quorum := q\<rparr>"] by auto
  then show ?thesis
    unfolding recalculate_quorum_def assms prod.case Let_def by (auto simp: notify_listeners_def effect_def)
qed

text \<open>Quorate exactly when more than half of the expected votes are present, and as many as the quorum in force.\<close>

lemma recalculate_quorate:
  assumes "votes_bounded s" "\<not> two_node_rule s"
  shows "cm_quorate (recalculate_quorum ad False s) \<longleftrightarrow>
    cm_config_error s = 0 \<and> votes_expected s < 2 * votes_present s \<and> (ad \<or> unat (cm_quorum s) \<le> votes_present s)"
    and "unat (cm_quorum (recalculate_quorum ad False s)) =
      (if ad then fair_quorum s else max (unat (cm_quorum s)) (fair_quorum s))"
proof -
  obtain q v s1 where c: "calculate_quorum ad 0 s = (q, v, s1)" by (metis prod_cases3)
  note f = calculate_quorum_fair [OF assms(1) c assms(2)]
  have "unat v = votes_present s" using assms(1) f(2) unat_total_votes [of s] by (simp add: votes_bounded_def)
  moreover have "unat q < 2 ^ 31" "unat v < 2 ^ 31"
    using f(1) assms(1) calculation by (auto simp: votes_bounded_def fair_quorum_def)
  ultimately have "sint q \<le> sint v \<longleftrightarrow> unat q \<le> votes_present s" by (simp only: sint_unat of_nat_le_iff)
  moreover obtain es where "recalculate_quorum ad False s =
      s1\<lparr>cm_quorum := q, cm_quorate := (sint q \<le> sint v \<and> cm_config_error s1 = 0), cm_effects := es\<rparr>"
    using recalculate_quorum_state [of ad False s q v s1] c by auto
  ultimately show "cm_quorate (recalculate_quorum ad False s) \<longleftrightarrow>
      cm_config_error s = 0 \<and> votes_expected s < 2 * votes_present s \<and> (ad \<or> unat (cm_quorum s) \<le> votes_present s)"
    and "unat (cm_quorum (recalculate_quorum ad False s)) =
      (if ad then fair_quorum s else max (unat (cm_quorum s)) (fair_quorum s))"
    using f(1,3) fair_quorum_met [of s] by auto
qed

section \<open>Losing members\<close>

lemma calculate_quorum_0: "calculate_quorum ad 0 s = (q, v, s1) \<Longrightarrow> s1 = s \<and> v = total_votes s"
  by (auto simp: calculate_quorum_def Let_def)

lemma recalculate_quorum_plain:
  obtains q b es where "recalculate_quorum ad False s = s\<lparr>cm_quorum := q, cm_quorate := b, cm_effects := es\<rparr>"
proof -
  obtain q v s1 where c: "calculate_quorum ad 0 s = (q, v, s1)" by (metis prod_cases3)
  then have "s1 = s" using calculate_quorum_0 by blast
  with c show ?thesis using recalculate_quorum_state [of ad False s q v s1] that by auto
qed

lemma recalculate_quorum_mono:
  assumes "\<not> cm_two_node s"
  shows "cm_quorum s \<le> cm_quorum (recalculate_quorum False b s)"
proof -
  obtain q v s1 where c: "calculate_quorum False (if b then word_of_int (cm_cluster_members s) else 0) s = (q, v, s1)" by (metis prod_cases3)
  then have "cm_quorum s \<le> q" using assms by (auto simp: calculate_quorum_def Let_def)
  moreover obtain es where "recalculate_quorum False b s =
      s1\<lparr>cm_quorum := q, cm_quorate := (sint q \<le> sint v \<and> cm_config_error s1 = 0), cm_effects := es\<rparr>"
    using recalculate_quorum_state [OF c] by blast
  ultimately show ?thesis by simp
qed

text \<open>No member is on its way out at the wish of an administrator.\<close>

definition none_removed :: "cman \<Rightarrow> bool" where
  "none_removed s \<longleftrightarrow> (\<forall>n \<in> set (cm_members s). cn_state n = NODESTATE_LEAVING \<longrightarrow> cn_leave_reason n \<noteq> CLUSTER_LEAVEFLAG_REMOVED)"

lemma none_removed_recalculate: "none_removed (recalculate_quorum ad False s) = none_removed s"
  by (rule recalculate_quorum_plain [of ad s]) (simp add: none_removed_def)

lemma two_node_recalculate: "cm_two_node (recalculate_quorum ad False s) = cm_two_node s"
  by (rule recalculate_quorum_plain [of ad s]) simp

text \<open>A change that makes a node dead or leaves its state and reason alone.\<close>

definition only_kills :: "(cluster_node \<Rightarrow> cluster_node) \<Rightarrow> bool" where
  "only_kills f \<longleftrightarrow> (\<forall>n. cn_state (f n) = NODESTATE_DEAD \<or> cn_state (f n) = cn_state n \<and> cn_leave_reason (f n) = cn_leave_reason n)"

lemma none_removed_upd:
  assumes "none_removed s" "only_kills f"
  shows "none_removed (upd_node a f s)"
  unfolding none_removed_def
proof (intro ballI impI)
  fix m assume m: "m \<in> set (cm_members (upd_node a f s))" "cn_state m = NODESTATE_LEAVING"
  then obtain n where n: "n \<in> set (cm_members s)" "m = (if cn_addr n = a then f n else n)" by (auto simp: upd_node_def)
  have "cn_state (f n) = NODESTATE_DEAD \<or> cn_state (f n) = cn_state n \<and> cn_leave_reason (f n) = cn_leave_reason n"
    using assms(2) by (simp add: only_kills_def)
  with m(2) n assms(1) show "cn_leave_reason m \<noteq> CLUSTER_LEAVEFLAG_REMOVED"
    by (auto simp: none_removed_def split: if_splits)
qed

lemma upd_node_fields [simp]:
  "cm_quorum (upd_node a f s) = cm_quorum s" "cm_two_node (upd_node a f s) = cm_two_node s"
  "cm_cluster_members (upd_node a f s) = cm_cluster_members s" "cm_effects (upd_node a f s) = cm_effects s"
  by (simp_all add: upd_node_def)

lemma node_at_mem:
  assumes "n \<in> set (cm_members s)" "cn_addr n = a"
  shows "node_at a s \<in> set (cm_members s) \<and> cn_addr (node_at a s) = a"
proof -
  have "find (\<lambda>n. cn_addr n = a) (cm_members s) \<noteq> None" using assms by (auto simp: find_None_iff)
  then obtain m where "find (\<lambda>n. cn_addr n = a) (cm_members s) = Some m" by blast
  moreover from this have "m \<in> set (cm_members s) \<and> cn_addr m = a" by (auto simp: find_Some_iff)
  ultimately show ?thesis by (simp add: node_at_def)
qed

lemma find_node_at: "find_node_by_nodeid i s = Some a \<Longrightarrow> node_at a s \<in> set (cm_members s)"
  using find_node_Some node_at_mem by metis

definition calm :: "u32 \<Rightarrow> cman \<Rightarrow> bool" where
  "calm q s \<longleftrightarrow> none_removed s \<and> \<not> cm_two_node s \<and> q \<le> cm_quorum s"

lemma calm_recalculate: "calm q s \<Longrightarrow> calm q (recalculate_quorum False False s)"
  using recalculate_quorum_mono [of s False]
  by (auto simp: calm_def none_removed_recalculate two_node_recalculate)

lemma calm_upd: "calm q s \<Longrightarrow> only_kills f \<Longrightarrow> calm q (upd_node a f s)"
  by (simp add: calm_def none_removed_upd)

lemma calm_count [simp]: "calm q (s\<lparr>cm_cluster_members := k\<rparr>) = calm q s"
  by (simp add: calm_def none_removed_def)

lemma calm_del: 
  assumes "calm q s"
  shows "calm q (del_ais_node i now s)"
proof (cases "find_node_by_nodeid i s")
  case (Some a)
  have "cn_state (node_at a s) = NODESTATE_LEAVING \<Longrightarrow> cn_leave_reason (node_at a s) \<noteq> CLUSTER_LEAVEFLAG_REMOVED"
    using assms find_node_at [OF Some] by (simp add: calm_def none_removed_def)
  then show ?thesis
    unfolding del_ais_node_def Let_def Some option.case
    by (cases "cn_state (node_at a s)") (simp_all add: calm_upd calm_recalculate assms only_kills_def)
qed (simp add: del_ais_node_def assms)

lemma calm_confchg:
  assumes "calm q s"
  shows "calm q (cman_confchg_fn regular ms left seq now s)"
proof -
  have "calm q (foldl (\<lambda>s n. del_ais_node n now s) t left)" if "calm q t" for t
    using that by (induction left arbitrary: t) (simp_all add: calm_del)
  moreover have "calm q (s\<lparr>cm_incarnation := seq, cm_num_ais_nodes := int (length ms)\<rparr>)"
    using assms by (simp add: calm_def none_removed_def)
  ultimately have "calm q (foldl (\<lambda>s n. del_ais_node n now s) (s\<lparr>cm_incarnation := seq, cm_num_ais_nodes := int (length ms)\<rparr>) left)" .
  then show ?thesis
    unfolding cman_confchg_fn_def by (simp add: Let_def send_transition_msg_def effect_def calm_def none_removed_def)
qed

section \<open>Setting votes\<close>

lemma upd_node_undo:
  assumes "ordered s"
  shows "upd_node a (\<lambda>n. n\<lparr>cn_votes := cn_votes (node_at a s)\<rparr>) (upd_node a (\<lambda>n. n\<lparr>cn_votes := v\<rparr>) s) = s"
proof -
  have "node_at a s = n" if "n \<in> set (cm_members s)" "cn_addr n = a" for n
    using node_at_mem [OF that] assms that unfolding ordered_def distinct_map inj_on_def by metis
  then have "map (\<lambda>n. if cn_addr n = a then n\<lparr>cn_votes := cn_votes (node_at a s)\<rparr> else n)
      (map (\<lambda>n. if cn_addr n = a then n\<lparr>cn_votes := v\<rparr> else n) (cm_members s)) = cm_members s"
    unfolding map_map by (intro map_idI) auto
  then show ?thesis by (simp only: upd_node_def) simp
qed

lemma unat_le_sint:
  fixes q :: u32
  assumes "q \<le> v" "unat v < 2 ^ 31"
  shows "sint q \<le> sint v"
proof -
  have "unat q \<le> unat v" using assms(1) by (simp add: word_le_nat_alt)
  moreover from this have "unat q < 2 ^ 31" using assms(2) by simp
  ultimately show ?thesis using assms(2) by (simp only: sint_unat of_nat_le_iff)
qed
end
