(* ===== verification/Cman_Runs.thy ===== *)
theory Cman_Runs imports Cman_Quorum begin

text \<open>
  The events of the membership daemon as a step relation, the states it reaches, the order of its node
  list in all of them, and the count of the messages that a barrier waits for.
\<close>

section \<open>Runs of the daemon\<close>

text \<open>
  One event: a message or a membership change that corosync delivers, a command or the departure of a
  client, or a timer.
\<close>

inductive cman_step :: "cman \<Rightarrow> cman \<Rightarrow> bool" where
  deliver: "cman_step s (cman_deliver_fn emergency src tgt msg rc conf now s)"
| confchg: "cman_step s (cman_confchg_fn regular members left seq now s)"
| command: "process_command con cmd status rc conf t s = (rv, s') \<Longrightarrow> cman_step s s'"
| gone: "cman_step s (remove_client con s)"
| ccsd_timer: "cman_step s (ccsd_timer_fn rc conf now s)"
| shutdown_timer: "cman_step s (shutdown_timer_fn s)"
| device_timer: "cman_step s (quorum_device_timer_fn t s)"
| barrier_timer: "cman_step s (barrier_timer_fn name s)"

text \<open>The states after reading the configuration and joining, and after any number of events.\<close>

inductive cman_reach :: "cman \<Rightarrow> bool" where
  start: "read_cman_nodes conf check cman0 = (err, s) \<Longrightarrow>
    cman_reach (snd (cman_join_cluster name cl tn votes expected uname now (s\<lparr>cm_nodename := nn, cm_wanted_nodeid := ni\<rparr>)))"
| step: "cman_reach s \<Longrightarrow> cman_step s s' \<Longrightarrow> cman_reach s'"

lemma idents_barrier_timer: "idents (barrier_timer_fn name s) = idents s"
  by (auto simp: barrier_timer_fn_def ident_simps dest: idents_phase2 split: option.split prod.split)

lemma ordered_step: "cman_step s s' \<Longrightarrow> ordered s \<Longrightarrow> ordered s'"
proof (induction rule: cman_step.induct)
  case (shutdown_timer s)
  then show ?case by (subst nli.keep [of _ s]) (simp_all add: shutdown_timer_fn_def ident_simps)
next
  case (barrier_timer s name)
  then show ?case by (simp add: nli.keep [OF idents_barrier_timer])
qed (simp_all add: nli.deliver_keeps nli.confchg_keeps nli.command_keeps nli.remove_client_keeps nli.ccsd_timer_fn_keeps
      nli.device_timer_keeps)

lemma ordered_reach: "cman_reach s \<Longrightarrow> ordered s"
proof (induction rule: cman_reach.induct)
  case (start conf check err s)
  have "ordered cman0" by (simp add: ordered_def cman0_def)
  then have "ordered s" using start nli.read_cman_nodes_keeps by blast
  then have "ordered (s\<lparr>cm_nodename := nn, cm_wanted_nodeid := ni\<rparr>)" for nn ni by (simp add: ordered_def)
  then show ?case by (rule nli.join_keeps)
qed (rule ordered_step)

section \<open>Barriers\<close>

lemma find_upd_barrier:
  "find_barrier name s = Some b \<Longrightarrow> br_name b' = name \<Longrightarrow> find_barrier name (upd_barrier name (\<lambda>_. b') s) = Some b'"
  by (simp add: find_barrier_def upd_barrier_def find_update_first)

text \<open>The state of a barrier that has had \<open>j\<close> wait messages, \<open>k\<close> being expected.\<close>

definition barrier_counted :: "string \<Rightarrow> u32 \<Rightarrow> nat \<Rightarrow> cman_effect list \<Rightarrow> cman \<Rightarrow> bool" where
  "barrier_counted name k j es s \<longleftrightarrow> cm_member s \<and>
     (\<exists>b. find_barrier name s = Some b \<and> br_name b = name \<and> br_expected_nodes b = k \<and>
        (if j < unat k then br_phase b \<le> 1 \<and> br_got_nodes b = word_of_nat j else br_phase b = 2)) \<and>
     cm_effects s = es @ (if j < unat k then [] else [Send 0 (CLUSTER_MSG_BARRIER BARRIER_COMPLETE name)])"

lemma barrier_counted_Suc:
  assumes "barrier_counted name k j es s" "k \<noteq> 0"
  shows "barrier_counted name k (Suc j) es (process_barrier_msg BARRIER_WAIT name s)"
proof -
  obtain b where b: "cm_member s" "find_barrier name s = Some b" "br_name b = name" "br_expected_nodes b = k"
    "if j < unat k then br_phase b \<le> 1 \<and> br_got_nodes b = word_of_nat j else br_phase b = 2"
    "cm_effects s = es @ (if j < unat k then [] else [Send 0 (CLUSTER_MSG_BARRIER BARRIER_COMPLETE name)])"
    using assms(1) by (auto simp: barrier_counted_def)
  show ?thesis
  proof (cases "j < unat k")
    case True
    define B where "B = (if br_phase b = 0 then b\<lparr>br_phase := 1\<rparr> else b)\<lparr>br_got_nodes := br_got_nodes b + 1\<rparr>"
    have ph: "br_phase b = 0 \<or> br_phase b = 1" and got: "br_got_nodes b + 1 = word_of_nat (Suc j)"
      using b(5) True by auto
    have "unat (word_of_nat (Suc j) :: u32) = Suc j"
    proof -
      have "unat k < 2 ^ 32" using unsigned_less [where 'b = 32 and w = k and 'a = nat] by simp
      with True have "Suc j < 2 ^ 32" by simp
      then show ?thesis unfolding unat_of_nat by simp
    qed
    then have k: "word_of_nat (Suc j) = k \<longleftrightarrow> \<not> Suc j < unat k" using True by (metis Suc_lessI less_irrefl word_unat_eq_iff)
    have B: "br_name B = name" "br_expected_nodes B = k" "br_phase B = 1" "br_got_nodes B = word_of_nat (Suc j)"
      using ph got b(3,4) by (auto simp: B_def)
    have "process_barrier_msg BARRIER_WAIT name s =
        (case check_barrier_complete_phase1 B s of (b2, s2) \<Rightarrow> put_barrier name (Some b2) s2)"
      unfolding process_barrier_msg_def b(2) Let_def B_def using b(1) ph by (cases "br_phase b = 0") auto
    moreover have "find_barrier name (upd_barrier name (\<lambda>_. b') (s\<lparr>cm_effects := es'\<rparr>)) = Some b'" if "br_name b' = name" for b' es'
      using find_upd_barrier [OF _ that, of "s\<lparr>cm_effects := es'\<rparr>" b] b(2) by (simp add: find_barrier_def)
    ultimately show ?thesis using b(1,6) B True k assms(2) find_upd_barrier [OF b(2)]
      by (auto simp: barrier_counted_def check_barrier_complete_phase1_def put_barrier_def upd_barrier_def effect_def)
  next
    case False
    then show ?thesis using b find_upd_barrier [OF b(2,3)]
      by (auto simp: process_barrier_msg_def barrier_counted_def put_barrier_def upd_barrier_def)
  qed
qed

end
