(* ===== verification/Cman_Props.thy ===== *)
theory Cman_Props imports Cman_Runs begin

text \<open>
  The properties of the membership and quorum daemon, each with an instance where it has hypotheses.
\<close>

section \<open>States the instances use\<close>

definition ex_node :: "nat \<Rightarrow> nodestate \<Rightarrow> u32 \<Rightarrow> u32 \<Rightarrow> cluster_node" where
  "ex_node i st v e = zero_node\<lparr>cn_addr := i, cn_node_id := word_of_nat i, cn_state := st, cn_votes := v, cn_expected_votes := e\<rparr>"

text \<open>Three members of one vote each, seen by node 1; with nodes 2 and 3 gone; and seen by node 2, with node 1 gone.\<close>

definition ex_three :: cman where
  "ex_three = cman0\<lparr>cm_members := [ex_node 1 NODESTATE_MEMBER 1 3, ex_node 2 NODESTATE_MEMBER 1 3, ex_node 3 NODESTATE_MEMBER 1 3],
     cm_next := 4, cm_us := 1, cm_cluster_members := 3, cm_member := True, cm_quorum := 2, cm_quorate := True,
     cm_ais_running := True, cm_wanted_nodeid := 1\<rparr>"

definition ex_alone :: cman where
  "ex_alone = ex_three\<lparr>cm_members := [ex_node 1 NODESTATE_MEMBER 1 3, ex_node 2 NODESTATE_DEAD 1 3, ex_node 3 NODESTATE_DEAD 1 3]\<rparr>"

definition ex_pair :: cman where
  "ex_pair = ex_three\<lparr>cm_members := [ex_node 1 NODESTATE_DEAD 1 3, ex_node 2 NODESTATE_MEMBER 1 3, ex_node 3 NODESTATE_MEMBER 1 3]\<rparr>"

lemmas cman_ex_defs = ex_three_def ex_alone_def ex_pair_def ex_node_def cman0_def zero_node_def members_of_def
  votes_present_def votes_expected_def quorum_device_votes_def

section \<open>Quorum\<close>

text \<open>C19: Two sides of a partition are never both quorate after they count their votes: if the votes on the
  two sides, quorum devices included, are together no more than \<open>e\<close>, and each side has a member that expects
  \<open>e\<close> votes, then at most one side is quorate, whatever quorum was in force before.\<close>

theorem no_split_brain:
  assumes "votes_bounded s" "votes_bounded t" "\<not> two_node_rule s" "\<not> two_node_rule t"
    and "votes_present s + votes_present t \<le> e" "e \<le> votes_expected s" "e \<le> votes_expected t"
  shows "\<not> (cm_quorate (recalculate_quorum ad False s) \<and> cm_quorate (recalculate_quorum ad' False t))"
  using assms(5-7) by (simp add: recalculate_quorate [OF assms(1,3)] recalculate_quorate [OF assms(2,4)])

theorem no_split_brain_witness:
  "\<not> (cm_quorate (recalculate_quorum False False ex_alone) \<and> cm_quorate (recalculate_quorum False False ex_pair))"
  by (rule no_split_brain [of _ _ 3]) (simp_all add: votes_bounded_def two_node_rule_def cman_ex_defs)

text \<open>C20: Outside two-node mode the recalculation makes the node quorate exactly when the configuration is
  in order, more than half of the votes that some member expects are present, and, unless quorum may
  decrease, at least as many as the quorum in force.\<close>

theorem quorate_iff:
  assumes "votes_bounded s" "\<not> two_node_rule s"
  shows "cm_quorate (recalculate_quorum allow_decrease False s) \<longleftrightarrow>
    cm_config_error s = 0 \<and> votes_expected s < 2 * votes_present s \<and>
    (allow_decrease \<or> unat (cm_quorum s) \<le> votes_present s)"
  by (rule recalculate_quorate(1) [OF assms])

theorem quorate_iff_witness:
  "cm_quorate (recalculate_quorum False False ex_three) \<longleftrightarrow>
    cm_config_error ex_three = 0 \<and> votes_expected ex_three < 2 * votes_present ex_three \<and>
    (False \<or> unat (cm_quorum ex_three) \<le> votes_present ex_three)"
  by (rule quorate_iff) (simp_all add: votes_bounded_def two_node_rule_def cman_ex_defs)

text \<open>C21: Losing nodes never lowers quorum: unless a member had been told to leave for good, a membership
  change that corosync reports leaves the quorum at least as it was, outside two-node mode.\<close>

theorem membership_change_keeps_quorum:
  assumes "none_removed s" "\<not> cm_two_node s"
  shows "cm_quorum s \<le> cm_quorum (cman_confchg_fn regular members left seq now s)"
  using calm_confchg [of "cm_quorum s" s] assms by (simp add: calm_def)

theorem membership_change_keeps_quorum_witness:
  "cm_quorum ex_three \<le> cm_quorum (cman_confchg_fn True [1] [2, 3] 7 100 ex_three)"
  by (rule membership_change_keeps_quorum) (simp_all add: none_removed_def cman_ex_defs)

text \<open>C22: In every state the daemon reaches, the node list is sorted by node id, no node id other than 0
  occurs twice, and no two nodes share an address.\<close>

theorem node_list_ordered:
  assumes "cman_reach s"
  shows "sorted (map cn_node_id (cm_members s)) \<and> distinct (filter (\<lambda>i. i \<noteq> 0) (map cn_node_id (cm_members s))) \<and>
    distinct (map cn_addr (cm_members s))"
  using ordered_reach [OF assms] by (simp add: ordered_def)

definition ex_config :: cman_config where
  "ex_config = \<lparr>cc_version = 1, cc_cman = Some (3, False), cc_nodes = [(Some ''n2'', 2, 1), (Some ''n1'', 1, 1)]\<rparr>"

definition ex_joined :: cman where
  "ex_joined = snd (cman_join_cluster ''c'' 5 False 1 3 ''n1'' 100
     ((snd (read_cman_nodes ex_config True cman0))\<lparr>cm_nodename := ''n1'', cm_wanted_nodeid := 1\<rparr>))"

theorem node_list_ordered_witness:
  "sorted (map cn_node_id (cm_members (cman_confchg_fn True [1, 2] [] 7 100 ex_joined))) \<and>
   distinct (filter (\<lambda>i. i \<noteq> 0) (map cn_node_id (cm_members (cman_confchg_fn True [1, 2] [] 7 100 ex_joined)))) \<and>
   distinct (map cn_addr (cm_members (cman_confchg_fn True [1, 2] [] 7 100 ex_joined)))"
proof (rule node_list_ordered)
  have "cman_reach ex_joined" unfolding ex_joined_def by (rule cman_reach.start) (rule prod.collapse [symmetric])
  then show "cman_reach (cman_confchg_fn True [1, 2] [] 7 100 ex_joined)" using confchg by (rule cman_reach.step)
qed

section \<open>Announcing oneself\<close>



section \<open>Commands\<close>

lemma set_votes_found:
  assumes "ordered s" "calculate_quorum True 0 (upd_node a (\<lambda>n. n\<lparr>cn_votes := newvotes\<rparr>) s) = (q, v, s2)"
    "(if q < v div 2 \<or> q > v then (- EINVAL, upd_node a (\<lambda>n. n\<lparr>cn_votes := cn_votes (node_at a s)\<rparr>) s2)
      else (0, send_reconfigure i RECONFIG_PARAM_NODE_VOTES newvotes (recalculate_quorum True False s2))) = (rv, s')"
  shows "(rv \<noteq> 0 \<longrightarrow> s' = s) \<and> (rv = 0 \<and> unat (total_votes s') < 2 ^ 31 \<and> cm_config_error s' = 0 \<longrightarrow> cm_quorate s')"
proof -
  define s1 where "s1 = upd_node a (\<lambda>n. n\<lparr>cn_votes := newvotes\<rparr>) s"
  have s2: "s2 = s1" and v: "v = total_votes s1" using calculate_quorum_0 [OF assms(2)] by (simp_all add: s1_def)
  note r = assms(3) [unfolded s2]
  obtain es where e: "recalculate_quorum True False s1 =
      s1\<lparr>cm_quorum := q, cm_quorate := (sint q \<le> sint v \<and> cm_config_error s1 = 0), cm_effects := es\<rparr>"
    using recalculate_quorum_state [of True False s1 q v s1] assms(2) s2 by (auto simp: s1_def)
  have t: "total_votes (s1\<lparr>cm_quorum := x, cm_quorate := y, cm_effects := z\<rparr>) = total_votes s1" for x y z
    by (simp add: total_votes_def quorum_device_votes_def)
  show ?thesis
  proof (cases "q < v div 2 \<or> q > v")
    case True
    then show ?thesis using r upd_node_undo [OF assms(1), of a newvotes] by (simp add: s1_def errno_defs)
  next
    case False
    then have "q \<le> v" by auto
    then have "unat v < 2 ^ 31 \<longrightarrow> sint q \<le> sint v" using unat_le_sint by blast
    with False r v show ?thesis by (auto simp: e t send_reconfigure_def effect_def)
  qed
qed

text \<open>C24: Setting a node's votes is all or nothing: a request that is refused leaves the state as it was, and
  one that is accepted leaves the node quorate (if the votes do not exceed a signed integer and the
  configuration is in order).\<close>

theorem set_votes_all_or_nothing:
  assumes "do_cmd_set_votes nodeid newvotes s = (rv, s')" "ordered s"
  shows "(rv \<noteq> 0 \<longrightarrow> s' = s) \<and> (rv = 0 \<and> unat (total_votes s') < 2 ^ 31 \<and> cm_config_error s' = 0 \<longrightarrow> cm_quorate s')"
proof -
  define i where "i = (if nodeid = 0 then cn_node_id (us_node s) else nodeid)"
  note u = assms(1) [unfolded do_cmd_set_votes_def Let_def, folded i_def]
  show ?thesis
  proof (cases "\<not> cm_member s \<or> find_node_by_nodeid i s = None")
    case True
    then show ?thesis using u by (cases "cm_member s") (auto simp: errno_defs)
  next
    case False
    then obtain a where a: "cm_member s" "find_node_by_nodeid i s = Some a" by auto
    obtain q v s2 where c: "calculate_quorum True 0 (upd_node a (\<lambda>n. n\<lparr>cn_votes := newvotes\<rparr>) s) = (q, v, s2)"
      by (metis prod_cases3)
    show ?thesis by (rule set_votes_found [OF assms(2) c, where i = i]) (use u a c in simp)
  qed
qed

theorem set_votes_all_or_nothing_witness:
  "fst (do_cmd_set_votes 1 1 ex_alone) = - EINVAL \<and> snd (do_cmd_set_votes 1 1 ex_alone) = ex_alone"
proof
  show "fst (do_cmd_set_votes 1 1 ex_alone) = - EINVAL"
    by (simp add: do_cmd_set_votes_def find_node_by_nodeid_def calculate_quorum_def total_votes_def upd_node_def Let_def cman_ex_defs)
  then have "fst (do_cmd_set_votes 1 1 ex_alone) \<noteq> 0" by (simp add: errno_defs)
  moreover have "ordered ex_alone" by (simp add: ordered_def cman_ex_defs)
  ultimately show "snd (do_cmd_set_votes 1 1 ex_alone) = ex_alone"
    using set_votes_all_or_nothing [OF prod.collapse [symmetric]] by blast
qed


section \<open>Shutdown\<close>

lemma reset_replies:
  "\<exists>k. foldl (\<lambda>s c. upd_con c (\<lambda>k. k\<lparr>con_shutdown_reply := SHUTDOWN_REPLY_UNK\<rparr>) s) s cs = s\<lparr>cm_con := k\<rparr> \<and>
     (\<forall>c. con_events (k c) = con_events (cm_con s c))"
proof (induction cs arbitrary: s)
  case Nil
  show ?case by (intro exI [of _ "cm_con s"]) simp
next
  case (Cons c cs)
  let ?t = "upd_con c (\<lambda>k. k\<lparr>con_shutdown_reply := SHUTDOWN_REPLY_UNK\<rparr>) s"
  have "?t\<lparr>cm_con := k\<rparr> = s\<lparr>cm_con := k\<rparr>" "con_events (cm_con ?t d) = con_events (cm_con s d)" for k d
    by (simp_all add: upd_con_def)
  with Cons.IH [of ?t] show ?case by simp
qed

lemma try_shutdown_waits:
  assumes "do_cmd_try_shutdown con flags s = (- EWOULDBLOCK, s1)"
  shows "cm_shutdown_con s1 = Some con \<and> cm_shutdown_flags s1 = flags \<and> cm_shutdown_yes s1 = 0 \<and> cm_shutdown_no s1 = 0 \<and>
    cm_shutdown_expected s1 > 0 \<and> (\<forall>c. con_events (cm_con s1 c) = con_events (cm_con s c))"
proof -
  define s0 where "s0 = s\<lparr>cm_shutdown_con := Some con, cm_shutdown_flags := flags, cm_shutdown_yes := 0, cm_shutdown_no := 0\<rparr>"
  obtain k where k: "foldl (\<lambda>s c. upd_con c (\<lambda>k. k\<lparr>con_shutdown_reply := SHUTDOWN_REPLY_UNK\<rparr>) s) s0 (cm_clients s0) = s0\<lparr>cm_con := k\<rparr>"
    "\<forall>c. con_events (k c) = con_events (cm_con s0 c)"
    using reset_replies [of s0 "cm_clients s0"] by blast
  have g: "(cm_shutdown_con s \<noteq> None \<or> cm_quit_threads s) = False"
  proof (rule ccontr)
    assume "\<not> ?thesis"
    then have "do_cmd_try_shutdown con flags s = (- EALREADY, s)" by (simp only: do_cmd_try_shutdown_def) simp
    with assms show False by (simp add: errno_defs)
  qed
  define m where "m = int (length (filter (\<lambda>c. con_events (cm_con s0 c)) (cm_clients s0)))"
  have n: "num_listeners s0 = (m, s0\<lparr>cm_con := k\<rparr>)" by (simp only: num_listeners_def m_def k(1))
  note u = assms [unfolded do_cmd_try_shutdown_def g if_False s0_def [symmetric] n prod.case Let_def]
  have "m \<noteq> 0" using u by (auto simp: errno_defs)
  moreover have "m \<ge> 0" by (simp add: m_def)
  ultimately have "s1 = notify_listeners None EVENT_REASON_TRY_SHUTDOWN (uint flags)
      (effect (Start_timer 3) (s0\<lparr>cm_con := k, cm_shutdown_expected := m, cm_shutdown_timer := True\<rparr>))" "m > 0" using u by auto
  then show ?thesis using k(2) by (simp add: notify_listeners_def effect_def s0_def)
qed

lemma unbind_requester:
  assumes "cm_shutdown_con s = Some con" "\<not> con_events (cm_con s con)"
  shows "cm_shutdown_con (unbind_con con s) = None \<and> cm_shutdown_flags (unbind_con con s) = cm_shutdown_flags s \<and>
    cm_shutdown_yes (unbind_con con s) = cm_shutdown_yes s \<and> cm_shutdown_expected (unbind_con con s) = cm_shutdown_expected s"
proof -
  define v where "v = (if con_port (cm_con s con) \<noteq> 0
    then upd_con con (\<lambda>c. c\<lparr>con_port := 0\<rparr>) (upd_node (cm_us s) (clear_port_bit (word_of_nat (con_port (cm_con s con))))
      (send_port_close_msg (word_of_nat (con_port (cm_con s con))) (s\<lparr>cm_port_array := (cm_port_array s)(con_port (cm_con s con) := None)\<rparr>)))
    else s)"
  have v: "cm_shutdown_con v = Some con" "\<not> con_events (cm_con v con)" "cm_shutdown_flags v = cm_shutdown_flags s"
    "cm_shutdown_yes v = cm_shutdown_yes s" "cm_shutdown_expected v = cm_shutdown_expected s"
    using assms by (simp_all add: v_def upd_con_def upd_node_def send_port_close_msg_def effect_def)
  have "unbind_con con s = v\<lparr>cm_shutdown_con := None\<rparr>"
    unfolding unbind_con_def Let_def v_def [symmetric] using v(1,2) by simp
  with v show ?thesis by simp
qed

text \<open>C26: A client that asks for a shutdown and goes away before the listeners have answered brings the daemon
  down: when the wait ends, the answer goes through a null pointer.\<close>

theorem shutdown_requester_gone:
  assumes "do_cmd_try_shutdown con flags s = (- EWOULDBLOCK, s1)"
    and "\<not> has_flag flags SHUTDOWN_ANYWAY" "\<not> con_events (cm_con s con)"
  shows "Null_deref \<in> set (cm_effects (shutdown_timer_fn (remove_client con s1)))"
proof -
  note w = try_shutdown_waits [OF assms(1)]
  let ?t = "remove_client con s1"
  have "cm_shutdown_con ?t = None \<and> cm_shutdown_flags ?t = flags \<and> cm_shutdown_yes ?t = 0 \<and> cm_shutdown_expected ?t > 0"
    using w assms(3) unbind_requester [of "s1\<lparr>cm_clients := filter (\<lambda>c. c \<noteq> con) (cm_clients s1)\<rparr>" con]
    by (simp add: remove_client_def remove_barriers_def)
  then show ?thesis using assms(2)
    by (simp add: shutdown_timer_fn_def check_shutdown_status_def Let_def effect_def)
qed

definition ex_listener :: cman where
  "ex_listener = ex_three\<lparr>cm_clients := [1, 2, 3], cm_con := (cm_con ex_three)
     (1 := \<lparr>con_port = 0, con_shutdown_reply = SHUTDOWN_REPLY_UNK, con_events = True, con_confchg = False\<rparr>,
      2 := \<lparr>con_port = 0, con_shutdown_reply = SHUTDOWN_REPLY_UNK, con_events = True, con_confchg = False\<rparr>)\<rparr>"

theorem shutdown_requester_gone_witness:
  "Null_deref \<in> set (cm_effects (shutdown_timer_fn (remove_client 3 (snd (do_cmd_try_shutdown 3 0 ex_listener)))))"
  by (rule shutdown_requester_gone [of 3 0 ex_listener])
     (simp_all add: do_cmd_try_shutdown_def num_listeners_def Let_def has_flag_def ex_listener_def cman_ex_defs)

text \<open>C27: One listener can answer for two: when two listeners are asked and one of them says yes twice, the node
  leaves the cluster without having heard from the other.\<close>

theorem shutdown_reply_counted_twice:
  assumes "do_cmd_try_shutdown con flags s = (- EWOULDBLOCK, s1)" "cm_shutdown_expected s1 = 2"
  shows "\<exists>reason. Send 0 (CLUSTER_MSG_LEAVE reason) \<in>
    set (cm_effects (snd (do_cmd_shutdown_reply c 1 (snd (do_cmd_shutdown_reply c 1 s1)))))"
  using try_shutdown_waits [OF assms(1)] assms(2)
  by (auto simp: do_cmd_shutdown_reply_def check_shutdown_status_def send_leave_def effect_def upd_con_def Let_def)

theorem shutdown_reply_counted_twice_witness:
  "\<exists>reason. Send 0 (CLUSTER_MSG_LEAVE reason) \<in>
    set (cm_effects (snd (do_cmd_shutdown_reply 1 1 (snd (do_cmd_shutdown_reply 1 1 (snd (do_cmd_try_shutdown 3 0 ex_listener)))))))"
  by (rule shutdown_reply_counted_twice [of 3 0 ex_listener])
     (simp_all add: do_cmd_try_shutdown_def num_listeners_def notify_listeners_def effect_def upd_con_def Let_def ex_listener_def cman_ex_defs)

section \<open>Barriers\<close>

text \<open>C28: A barrier of \<open>k\<close> nodes that has had no wait message yet is declared complete exactly once, when the
  \<open>k\<close>-th wait message arrives, however many follow.\<close>

theorem barrier_completes_once:
  assumes "cm_member s" "find_barrier name s = Some b" "br_expected_nodes b \<noteq> 0" "br_got_nodes b = 0" "br_phase b \<le> 1"
  shows "cm_effects ((process_barrier_msg BARRIER_WAIT name ^^ j) s) = cm_effects s @
    (if j < unat (br_expected_nodes b) then [] else [Send 0 (CLUSTER_MSG_BARRIER BARRIER_COMPLETE name)])"
proof -
  have "br_name b = name" using assms(2) by (auto simp: find_barrier_def find_Some_iff)
  then have "barrier_counted name (br_expected_nodes b) 0 (cm_effects s) s"
    using assms by (simp add: barrier_counted_def unat_gt_0)
  then have "barrier_counted name (br_expected_nodes b) j (cm_effects s) ((process_barrier_msg BARRIER_WAIT name ^^ j) s)"
    using assms(3) by (induction j) (simp_all add: barrier_counted_Suc)
  then show ?thesis by (simp add: barrier_counted_def)
qed

theorem barrier_completes_once_witness:
  "cm_effects ((process_barrier_msg BARRIER_WAIT ''b'' ^^ 3) (snd (barrier_register 1 ''b'' 0 2 ex_three))) =
     cm_effects (snd (barrier_register 1 ''b'' 0 2 ex_three)) @
     (if 3 < unat (2 :: u32) then [] else [Send 0 (CLUSTER_MSG_BARRIER BARRIER_COMPLETE ''b'')])"
  using barrier_completes_once [of "snd (barrier_register 1 ''b'' 0 2 ex_three)" "''b''"
      "(alloc_barrier ''b'' 2)\<lparr>br_flags := 0, br_con := Some 1\<rparr>" 3]
  by (simp add: barrier_register_def find_barrier_def alloc_barrier_def MAX_BARRIER_NAME_LEN_def cman_ex_defs)

section \<open>The count of members\<close>

text \<open>The nodes that \<^verbatim>\<open>cluster_members\<close> counts: a node that is leaving is counted until it has gone.\<close>

definition counted :: "cman \<Rightarrow> nat" where
  "counted s = length (filter (\<lambda>n. cn_state n = NODESTATE_MEMBER \<or> cn_state n = NODESTATE_LEAVING) (cm_members s))"

lemma counted_upd:
  assumes "ordered s" "n \<in> set (cm_members s)" "cn_addr n = a" "cn_state n = NODESTATE_LEAVING"
    "cn_state (f n) = NODESTATE_MEMBER"
  shows "counted (upd_node a f s) = counted s"
proof -
  have "(\<lambda>m. cn_state m = NODESTATE_MEMBER \<or> cn_state m = NODESTATE_LEAVING) (if cn_addr m = a then f m else m) =
      (cn_state m = NODESTATE_MEMBER \<or> cn_state m = NODESTATE_LEAVING)" if "m \<in> set (cm_members s)" for m
  proof (cases "cn_addr m = a")
    case True
    then have "m = n" using assms(1-3) that unfolding ordered_def distinct_map inj_on_def by metis
    then show ?thesis using assms(3-5) by simp
  qed simp
  then show ?thesis
    unfolding counted_def upd_node_def by (simp add: filter_map o_def cong: filter_cong)
qed

text \<open>A node that is leaving and announces itself again is counted twice: the number of cluster members
  grows by one although no more nodes are in the cluster.\<close>

theorem rejoin_counted_twice:
  assumes "ordered s" "find_node_by_nodeid i s = Some a" "cn_state (node_at a s) = NODESTATE_LEAVING"
  shows "cm_cluster_members (add_ais_node emergency i incar tot s) = cm_cluster_members s + 1 \<and>
    counted (add_ais_node emergency i incar tot s) = counted s"
proof -
  let ?f = "\<lambda>n. n\<lparr>cn_incarnation := incar, cn_state := NODESTATE_MEMBER, cn_leave_reason := 0\<rparr>"
  let ?s = "s\<lparr>cm_cluster_members := cm_cluster_members s + 1\<rparr>"
  have at: "node_at a s \<in> set (cm_members s)" "cn_addr (node_at a s) = a"
    using find_node_Some [OF assms(2)] node_at_mem by metis+
  have "counted (upd_node a ?f ?s) = counted ?s"
    by (rule counted_upd [of _ "node_at a s"]) (use assms at in \<open>simp_all add: ordered_def\<close>)
  then have c: "counted (upd_node a ?f ?s) = counted s" by (simp add: counted_def)
  have "add_ais_node emergency i incar tot s = recalculate_quorum False False (upd_node a ?f ?s)"
    using assms by (simp add: add_ais_node_def)
  moreover obtain q b es where "recalculate_quorum False False (upd_node a ?f ?s) =
      (upd_node a ?f ?s)\<lparr>cm_quorum := q, cm_quorate := b, cm_effects := es\<rparr>" by (rule recalculate_quorum_plain)
  ultimately show ?thesis using c by (simp add: counted_def)
qed

theorem rejoin_counted_twice_witness:
  "cm_cluster_members (add_ais_node ''n2'' 2 9 3 (snd (do_cmd_kill_node 2 ex_three))) = cm_cluster_members (snd (do_cmd_kill_node 2 ex_three)) + 1 \<and>
    counted (add_ais_node ''n2'' 2 9 3 (snd (do_cmd_kill_node 2 ex_three))) = counted (snd (do_cmd_kill_node 2 ex_three))"
  by (rule rejoin_counted_twice [of _ _ 2])
     (simp_all add: do_cmd_kill_node_def ordered_def find_node_by_nodeid_def node_at_def send_kill_def effect_def upd_node_def cman_ex_defs)

end
