(* ===== verification/Cpg_State.thy ===== *)
theory Cpg_State imports Plock_Replica Plock_Ckpt Deadlock begin

text \<open>
  The lockspace membership protocol of the lock daemon (\<^verbatim>\<open>group/dlm_controld/cpg.c\<close>): its data, the
  history of nodes with the conditions a restart waits for, and what the outside is asked and told. A
  lockspace holds the plock state and the deadlock state of the other theories. Allocations are taken
  to succeed in this file.
\<close>

section \<open>Data\<close>

record pversion =
  pv_major :: u16
  pv_minor :: u16
  pv_patch :: u16
  pv_flags :: u16

record protocol =
  pr_daemon_max :: pversion
  pr_kernel_max :: pversion
  pr_daemon_run :: pversion
  pr_kernel_run :: pversion

record member =
  mb_nodeid :: u32
  mb_start :: bool
  mb_added :: bool
  mb_failed :: bool
  mb_disallowed :: bool
  mb_start_flags :: u32

text \<open>\<^verbatim>\<open>struct node\<close>, an entry of the node history.\<close>

record hnode =
  hn_nodeid :: u32
  hn_check_fencing :: bool
  hn_check_quorum :: bool
  hn_check_fs :: bool
  hn_fs_notified :: bool
  hn_add_time :: u64
  hn_fail_time :: u64
  hn_fence_time :: u64
  hn_cluster_add_time :: u64
  hn_cluster_remove_time :: u64
  hn_fence_queries :: u32
  hn_added_seq :: u32
  hn_removed_seq :: u32
  hn_failed_reason :: int
  hn_proto :: protocol

datatype cgst = CGST_WAIT_CONDITIONS | CGST_WAIT_MESSAGES

record change =
  cg_members :: "member list"
  cg_removed :: "member list"
  cg_member_count :: u32
  cg_joined_count :: u32
  cg_remove_count :: u32
  cg_failed_count :: u32
  cg_state :: cgst
  cg_we_joined :: bool
  cg_seq :: u32
  cg_combined_seq :: u32
  cg_create_time :: u64

text \<open>The payload of a start message, in wire order; the ids follow it.\<close>

record ls_info =
  li_ls_info_size :: u32
  li_id_info_size :: u32
  li_id_info_count :: u32
  li_started_count :: u32
  li_member_count :: u32
  li_joined_count :: u32
  li_remove_count :: u32
  li_failed_count :: u32

text \<open>A header, in host order as \<^verbatim>\<open>dlm_header_in\<close> leaves it, and what follows it.\<close>

record dlm_header =
  dh_version :: "u16 \<times> u16 \<times> u16"
  dh_type :: msg_type
  dh_nodeid :: u32
  dh_to_nodeid :: u32
  dh_global_id :: u32
  dh_flags :: u32
  dh_msgdata :: u32
  dh_msgdata2 :: u32

datatype payload = Info ls_info "u32 list" | Request dlm_plock_info | Nothing_more

definition DLM_MFLG_JOINING :: u32 where "DLM_MFLG_JOINING = 1"
definition DLM_MFLG_HAVEPLOCK :: u32 where "DLM_MFLG_HAVEPLOCK = 2"
definition DLM_MFLG_NACK :: u32 where "DLM_MFLG_NACK = 4"
definition DLM_MFLG_PLOCK_SIG :: u32 where "DLM_MFLG_PLOCK_SIG = 8"

lemmas mflg_defs = DLM_MFLG_JOINING_def DLM_MFLG_HAVEPLOCK_def DLM_MFLG_NACK_def DLM_MFLG_PLOCK_SIG_def

definition flag_set :: "u32 \<Rightarrow> u32 \<Rightarrow> bool" where
  "flag_set flags f \<longleftrightarrow> flags AND f \<noteq> 0"

datatype cpg_reason = CPG_REASON_JOIN | CPG_REASON_LEAVE | CPG_REASON_NODEDOWN | CPG_REASON_NODEUP | CPG_REASON_PROCDOWN

fun reason_code :: "cpg_reason \<Rightarrow> int" where
  "reason_code CPG_REASON_JOIN = 1"
| "reason_code CPG_REASON_LEAVE = 2"
| "reason_code CPG_REASON_NODEDOWN = 3"
| "reason_code CPG_REASON_NODEUP = 4"
| "reason_code CPG_REASON_PROCDOWN = 5"

text \<open>The membership fields of \<^verbatim>\<open>struct lockspace\<close>, with the plock and deadlock fields of the other theories.\<close>

record lockspace =
  lo_plock :: plock_ls
  lo_deadlk :: deadlk
  lo_joining :: bool
  lo_leaving :: bool
  lo_kernel_stopped :: bool
  lo_fs_registered :: bool
  lo_change_seq :: u32
  lo_started_count :: u32
  lo_started_change :: "change option"
  lo_changes :: "change list"
  lo_node_history :: "hnode list"
  lo_plock_ckpt_node :: u32
  lo_need_plocks :: bool
  lo_last_plock_sig :: u32

text \<open>Configuration, identity and the protocol version in use.\<close>

record cpg_cfg =
  cf_plock :: plock_cfg
  cf_enable_fencing :: bool
  cf_enable_quorum :: bool
  cf_enable_deadlk :: bool
  cf_daemon_run :: "u16 \<times> u16 \<times> u16"

abbreviation us :: "cpg_cfg \<Rightarrow> u32" where
  "us c \<equiv> our_nodeid (cf_plock c)"

text \<open>
  What the surroundings answer while a handler runs: fenced (\<open>None\<close> for an error, in which case the
  variable for the answer keeps \<open>ev_uninit\<close> or the previous answer), cman, the checkpoint service and
  the kernel's list of locks.
\<close>

record cpg_env =
  ev_fenced :: "u32 \<Rightarrow> u64 option"
  ev_uninit :: u64
  ev_fence_progress :: "int option"
  ev_cluster_member :: "u32 \<Rightarrow> bool"
  ev_quorate :: bool
  ev_unlinked :: bool
  ev_ckpt_handle :: "u64 option"
  ev_ckpt_create :: "string \<Rightarrow> bool"
  ev_sig0 :: u32
  ev_garbage :: "u32 \<Rightarrow> dlm_plock_info"
  ev_ckpt_opened :: bool
  ev_ckpt_items :: "ckpt_item list option"
  ev_debugfs :: "(pack_lock \<times> string \<times> nat) option list option"
  ev_dl_unlinked :: bool
  ev_dl_attempts :: "(ckpt_answer \<times> u64 \<times> (string \<Rightarrow> ckpt_answer)) list"
  ev_dl_items :: "dl_item list option"

text \<open>What is done to the surroundings, in order; the plock code has its own record of the messages it sends.\<close>

datatype cpg_effect =
    Send_info dlm_header ls_info "u32 list"
  | Set_sysfs_control nat
  | Set_sysfs_id u32
  | Set_sysfs_event_done int
  | Set_configfs_members "u32 list" "u32 list"
  | Kick_node u32
  | Close_group
  | Stored_sections "ckpt_section list"
  | Deadlk_sections "dl_section list"
  | Cancel_lock u32

record cpg_io =
  ci_plock :: plock_io
  ci_effects :: "cpg_effect list"
  ci_poll_fencing :: nat
  ci_poll_quorum :: nat
  ci_poll_fs :: nat

definition tell :: "cpg_effect \<Rightarrow> cpg_io \<Rightarrow> cpg_io" where
  "tell e io = io\<lparr>ci_effects := ci_effects io @ [e]\<rparr>"

text \<open>\<^verbatim>\<open>time(NULL)\<close>, as it is stored.\<close>

definition now_of :: "cpg_io \<Rightarrow> u64" where
  "now_of io = word_of_int (tv_sec (io_now (ci_plock io)))"

section \<open>Byte order\<close>

definition ls_info_in :: "bool \<Rightarrow> ls_info \<Rightarrow> ls_info" where
  "ls_info_in be li = \<lparr>li_ls_info_size = le32_to_cpu be (li_ls_info_size li), li_id_info_size = le32_to_cpu be (li_id_info_size li),
     li_id_info_count = le32_to_cpu be (li_id_info_count li), li_started_count = le32_to_cpu be (li_started_count li),
     li_member_count = le32_to_cpu be (li_member_count li), li_joined_count = le32_to_cpu be (li_joined_count li),
     li_remove_count = le32_to_cpu be (li_remove_count li), li_failed_count = le32_to_cpu be (li_failed_count li)\<rparr>"

definition id_info_in :: "bool \<Rightarrow> u32 \<Rightarrow> u32" where
  "id_info_in be nodeid = le32_to_cpu be nodeid"

definition ids_in :: "bool \<Rightarrow> ls_info \<Rightarrow> u32 list \<Rightarrow> u32 list" where
  "ids_in be li ids = map (id_info_in be) (take (unat (li_id_info_count li)) ids)"

section \<open>Node history\<close>

definition find_memb :: "change \<Rightarrow> u32 \<Rightarrow> member option" where
  "find_memb cg nodeid = find (\<lambda>m. mb_nodeid m = nodeid) (cg_members cg)"

definition get_node_history :: "lockspace \<Rightarrow> u32 \<Rightarrow> hnode option" where
  "get_node_history ls nodeid = find (\<lambda>n. hn_nodeid n = nodeid) (lo_node_history ls)"

definition upd_history :: "u32 \<Rightarrow> (hnode \<Rightarrow> hnode) \<Rightarrow> lockspace \<Rightarrow> lockspace" where
  "upd_history nodeid f ls =
     ls\<lparr>lo_node_history := update_first (\<lambda>n. hn_nodeid n = nodeid) f (lo_node_history ls)\<rparr>"

definition zero_pversion :: pversion where
  "zero_pversion = \<lparr>pv_major = 0, pv_minor = 0, pv_patch = 0, pv_flags = 0\<rparr>"

definition zero_protocol :: protocol where
  "zero_protocol = \<lparr>pr_daemon_max = zero_pversion, pr_kernel_max = zero_pversion, pr_daemon_run = zero_pversion,
     pr_kernel_run = zero_pversion\<rparr>"

definition zero_hnode :: "u32 \<Rightarrow> hnode" where
  "zero_hnode nodeid = \<lparr>hn_nodeid = nodeid, hn_check_fencing = False, hn_check_quorum = False, hn_check_fs = False,
     hn_fs_notified = False, hn_add_time = 0, hn_fail_time = 0, hn_fence_time = 0, hn_cluster_add_time = 0,
     hn_cluster_remove_time = 0, hn_fence_queries = 0, hn_added_seq = 0, hn_removed_seq = 0, hn_failed_reason = 0,
     hn_proto = zero_protocol\<rparr>"

definition node_history_init :: "u32 \<Rightarrow> u32 option \<Rightarrow> lockspace \<Rightarrow> lockspace" where
  "node_history_init nodeid seq ls =
     (let ls1 = (if get_node_history ls nodeid = None
                 then ls\<lparr>lo_node_history := lo_node_history ls @ [zero_hnode nodeid]\<rparr> else ls)
      in case seq of None \<Rightarrow> ls1 | Some q \<Rightarrow> upd_history nodeid (\<lambda>n. n\<lparr>hn_added_seq := q\<rparr>) ls1)"

definition node_history_cluster_add :: "u32 \<Rightarrow> u64 \<Rightarrow> lockspace list \<Rightarrow> lockspace list" where
  "node_history_cluster_add nodeid now lss =
     map (\<lambda>ls. upd_history nodeid (\<lambda>n. n\<lparr>hn_cluster_add_time := now\<rparr>) (node_history_init nodeid None ls)) lss"

text \<open>The loop ends at the first lockspace that does not know the node.\<close>

fun node_history_cluster_remove :: "u32 \<Rightarrow> u64 \<Rightarrow> lockspace list \<Rightarrow> lockspace list" where
  "node_history_cluster_remove nodeid now [] = []"
| "node_history_cluster_remove nodeid now (ls # lss) =
     (if get_node_history ls nodeid = None then ls # lss
      else upd_history nodeid (\<lambda>n. n\<lparr>hn_cluster_remove_time := now\<rparr>) ls # node_history_cluster_remove nodeid now lss)"

definition node_history_start :: "u32 \<Rightarrow> u64 \<Rightarrow> lockspace \<Rightarrow> lockspace" where
  "node_history_start nodeid now = upd_history nodeid (\<lambda>n. n\<lparr>hn_add_time := now\<rparr>)"

definition node_history_left :: "u32 \<Rightarrow> u32 \<Rightarrow> lockspace \<Rightarrow> lockspace" where
  "node_history_left nodeid seq = upd_history nodeid (\<lambda>n. n\<lparr>hn_add_time := 0, hn_removed_seq := seq\<rparr>)"

definition node_history_fail :: "cpg_cfg \<Rightarrow> u32 \<Rightarrow> u32 \<Rightarrow> int \<Rightarrow> u64 \<Rightarrow> lockspace \<Rightarrow> lockspace" where
  "node_history_fail c nodeid seq reason now ls =
     upd_history nodeid (\<lambda>n.
       let n1 = (if cf_enable_fencing c \<and> hn_add_time n \<noteq> 0
                 then n\<lparr>hn_check_fencing := True, hn_fence_time := 0, hn_fence_queries := 0, hn_fail_time := now\<rparr> else n);
           n2 = (if cf_enable_quorum c \<and> \<not> cf_enable_fencing c then n1\<lparr>hn_check_quorum := True\<rparr> else n1);
           n3 = (if lo_fs_registered ls then n2\<lparr>hn_check_fs := True\<rparr> else n2)
       in n3\<lparr>hn_removed_seq := seq, hn_failed_reason := reason\<rparr>) ls"

section \<open>Conditions\<close>

text \<open>The loop of \<^verbatim>\<open>check_fencing_done\<close>; \<open>prev\<close> is the variable the answer is read into, and the result counts the nodes to wait for.\<close>

fun check_fencing_loop :: "(u32 \<Rightarrow> u64 option) \<Rightarrow> u64 \<Rightarrow> hnode list \<Rightarrow> nat \<times> hnode list" where
  "check_fencing_loop fenced prev [] = (0, [])"
| "check_fencing_loop fenced prev (n # ns) =
     (if \<not> hn_check_fencing n
      then (case check_fencing_loop fenced prev ns of (k, ns') \<Rightarrow> (k, n # ns'))
      else
        (let t = (case fenced (hn_nodeid n) of Some t \<Rightarrow> t | None \<Rightarrow> prev) in
         case check_fencing_loop fenced t ns of (k, ns') \<Rightarrow>
           if t \<ge> hn_fail_time n
           then (k, n\<lparr>hn_check_fencing := False, hn_add_time := 0, hn_fence_time := t\<rparr> # ns')
           else (k + 1, (if hn_fence_queries n = 0 \<or> hn_fence_time n \<noteq> t
                         then n\<lparr>hn_fence_queries := hn_fence_queries n + 1, hn_fence_time := t\<rparr> else n) # ns')))"

definition check_fencing_done :: "cpg_cfg \<Rightarrow> cpg_env \<Rightarrow> lockspace \<Rightarrow> bool \<times> lockspace" where
  "check_fencing_done c ev ls =
     (if \<not> cf_enable_fencing c then (True, ls)
      else
        (case check_fencing_loop (ev_fenced ev) (ev_uninit ev) (lo_node_history ls) of (k, ns) \<Rightarrow>
           (let ls1 = ls\<lparr>lo_node_history := ns\<rparr> in
            if k \<noteq> 0 then (False, ls1)
            else (case ev_fence_progress ev of None \<Rightarrow> (False, ls1) | Some p \<Rightarrow> (p = 0, ls1)))))"

definition check_quorum_done :: "cpg_cfg \<Rightarrow> cpg_env \<Rightarrow> lockspace \<Rightarrow> bool \<times> lockspace" where
  "check_quorum_done c ev ls =
     (if \<not> cf_enable_quorum c then (True, ls)
      else
        (let waiting = (\<exists>n \<in> set (lo_node_history ls). hn_check_quorum n \<and> ev_cluster_member ev (hn_nodeid n));
             ls1 = ls\<lparr>lo_node_history := map (\<lambda>n. if hn_check_quorum n \<and> \<not> ev_cluster_member ev (hn_nodeid n)
                                                then n\<lparr>hn_check_quorum := False\<rparr> else n) (lo_node_history ls)\<rparr>
         in (\<not> waiting \<and> ev_quorate ev, ls1)))"

definition check_fs_done :: "lockspace \<Rightarrow> bool \<times> lockspace" where
  "check_fs_done ls =
     (if \<not> lo_fs_registered ls then (True, ls)
      else
        (\<not> (\<exists>n \<in> set (lo_node_history ls). hn_check_fs n \<and> \<not> hn_fs_notified n),
         ls\<lparr>lo_node_history := map (\<lambda>n. if hn_check_fs n \<and> hn_fs_notified n then n\<lparr>hn_check_fs := False\<rparr> else n)
                                 (lo_node_history ls)\<rparr>))"

definition wait_conditions_done :: "cpg_cfg \<Rightarrow> cpg_env \<Rightarrow> lockspace \<Rightarrow> cpg_io \<Rightarrow> bool \<times> lockspace \<times> cpg_io" where
  "wait_conditions_done c ev ls io =
     (case check_fencing_done c ev ls of (ok1, ls1) \<Rightarrow>
        if \<not> ok1 then (False, ls1, io\<lparr>ci_poll_fencing := ci_poll_fencing io + 1\<rparr>)
        else
          (case check_quorum_done c ev ls1 of (ok2, ls2) \<Rightarrow>
             if \<not> ok2 then (False, ls2, io\<lparr>ci_poll_quorum := ci_poll_quorum io + 1\<rparr>)
             else
               (case check_fs_done ls2 of (ok3, ls3) \<Rightarrow>
                  if \<not> ok3 then (False, ls3, io\<lparr>ci_poll_fs := ci_poll_fs io + 1\<rparr>) else (True, ls3, io))))"

end
