(* ===== verification/Cpg_Ops.thy ===== *)
theory Cpg_Ops imports Cpg_State begin

text \<open>
  Changes of a lockspace's membership and the messages about them (\<^verbatim>\<open>group/dlm_controld/cpg.c\<close>): starting and
  stopping the kernel's lockspace, matching start messages with changes, the transfer of plock state,
  and the callbacks of the group. Every handler maps the lockspace to its new value; \<open>None\<close> is
  undefined behaviour.
\<close>

section \<open>The kernel's lockspace\<close>

definition format_member_ids :: "change \<Rightarrow> u32 list" where
  "format_member_ids cg = map mb_nodeid (cg_members cg)"

text \<open>\<open>older\<close> are the changes behind the one that is started.\<close>

definition format_renew_ids :: "change \<Rightarrow> change list \<Rightarrow> u32 list" where
  "format_renew_ids startcg older =
     concat (map (\<lambda>m. concat (map (\<lambda>cg. map (\<lambda>_. mb_nodeid m) (filter (\<lambda>l. mb_nodeid m = mb_nodeid l) (cg_removed cg))) older))
       (cg_members startcg))"

definition start_kernel :: "change \<Rightarrow> change list \<Rightarrow> lockspace \<Rightarrow> cpg_io \<Rightarrow> lockspace \<times> cpg_io" where
  "start_kernel cg older ls io =
     (if \<not> lo_kernel_stopped ls then (ls, io)
      else
        (let io1 = (if lo_joining ls then tell (Set_sysfs_id (ls_global_id (lo_plock ls))) io else io);
             io2 = tell (Set_sysfs_control 1) (tell (Set_configfs_members (format_member_ids cg) (format_renew_ids cg older)) io1);
             ls1 = ls\<lparr>lo_kernel_stopped := False\<rparr>
         in if lo_joining ls1 then (ls1\<lparr>lo_joining := False\<rparr>, tell (Set_sysfs_event_done 0) io2) else (ls1, io2)))"

definition stop_kernel :: "lockspace \<Rightarrow> cpg_io \<Rightarrow> lockspace \<times> cpg_io" where
  "stop_kernel ls io =
     (if \<not> lo_kernel_stopped ls then (ls\<lparr>lo_kernel_stopped := True\<rparr>, tell (Set_sysfs_control 0) io) else (ls, io))"

definition wait_messages_done :: "change \<Rightarrow> bool" where
  "wait_messages_done cg \<longleftrightarrow> (\<forall>m \<in> set (cg_members cg). mb_start m)"

definition cleanup_changes :: "change \<Rightarrow> change list \<Rightarrow> lockspace \<Rightarrow> lockspace" where
  "cleanup_changes cg older ls =
     (let n = lo_started_count ls + 1 in
      ls\<lparr>lo_started_change := Some (cg\<lparr>cg_combined_seq := (if older = [] then cg_seq cg else cg_seq (last older))\<rparr>),
         lo_started_count := (if n = 0 then n + 1 else n), lo_changes := []\<rparr>)"

text \<open>The lowest node that has plock state; node ids are compared as signed integers, 0 is none.\<close>

definition low_plock_node :: "member list \<Rightarrow> u32" where
  "low_plock_node ms =
     foldl (\<lambda>low m. if \<not> flag_set (mb_start_flags m) DLM_MFLG_HAVEPLOCK then low
                    else if low = 0 \<or> sint (mb_nodeid m) < sint low then mb_nodeid m else low) 0 ms"

definition set_plock_ckpt_node :: "cpg_cfg \<Rightarrow> change \<Rightarrow> lockspace \<Rightarrow> lockspace" where
  "set_plock_ckpt_node c cg ls =
     (let low = low_plock_node (cg_members cg);
          ls1 = (if lo_plock_ckpt_node ls = us c \<and> low \<noteq> us c
                 then ls\<lparr>lo_plock := close_plock_checkpoint (lo_plock ls)\<rparr> else ls)
      in ls1\<lparr>lo_plock_ckpt_node := low\<rparr>)"

section \<open>Matching messages with changes\<close>

text \<open>The details are in host order here.\<close>

definition match_change :: "cpg_cfg \<Rightarrow> lockspace \<Rightarrow> change \<Rightarrow> dlm_header \<Rightarrow> ls_info \<Rightarrow> u32 list \<Rightarrow> bool" where
  "match_change c ls cg h li ids =
     (if us c \<notin> set ids then False
      else
        (case find_memb cg (dh_nodeid h) of
           None \<Rightarrow> False
         | Some m \<Rightarrow>
             if flag_set (mb_start_flags m) DLM_MFLG_NACK then False
             else if mb_start m \<and> dh_type h = DLM_MSG_START then False
             else
               (case get_node_history ls (dh_nodeid h) of
                  None \<Rightarrow> False
                | Some n \<Rightarrow>
                    if hn_cluster_add_time n > cg_create_time cg then False
                    else if li_member_count li \<noteq> cg_member_count cg \<or> li_joined_count li \<noteq> cg_joined_count cg \<or>
                            li_remove_count li \<noteq> cg_remove_count cg \<or> li_failed_count li \<noteq> cg_failed_count cg then False
                    else (\<forall>i \<in> set ids. find_memb cg i \<noteq> None))))"

text \<open>The position of the oldest change that matches; the newest change is first in the list.\<close>

definition find_change :: "cpg_cfg \<Rightarrow> lockspace \<Rightarrow> dlm_header \<Rightarrow> ls_info \<Rightarrow> u32 list \<Rightarrow> nat option" where
  "find_change c ls h li ids =
     find (\<lambda>i. match_change c ls (lo_changes ls ! i) h li ids) (rev [0..<length (lo_changes ls)])"

definition is_added :: "lockspace \<Rightarrow> u32 \<Rightarrow> bool" where
  "is_added ls nodeid \<longleftrightarrow>
     (\<exists>cg \<in> set (lo_changes ls). case find_memb cg nodeid of Some m \<Rightarrow> mb_added m | None \<Rightarrow> False)"

definition upd_memb :: "u32 \<Rightarrow> (member \<Rightarrow> member) \<Rightarrow> change \<Rightarrow> change" where
  "upd_memb nodeid f cg = cg\<lparr>cg_members := update_first (\<lambda>m. mb_nodeid m = nodeid) f (cg_members cg)\<rparr>"

definition upd_change :: "nat \<Rightarrow> (change \<Rightarrow> change) \<Rightarrow> lockspace \<Rightarrow> lockspace" where
  "upd_change i f ls = ls\<lparr>lo_changes := (lo_changes ls)[i := f (lo_changes ls ! i)]\<rparr>"

definition receive_start :: "cpg_cfg \<Rightarrow> dlm_header \<Rightarrow> ls_info \<Rightarrow> u32 list \<Rightarrow> lockspace \<Rightarrow> cpg_io \<Rightarrow> lockspace" where
  "receive_start c h wire_li wire_ids ls io =
     (let li = ls_info_in (big_endian (cf_plock c)) wire_li;
          ids = ids_in (big_endian (cf_plock c)) li wire_ids;
          from = dh_nodeid h
      in case find_change c ls h li ids of
           None \<Rightarrow> ls
         | Some i \<Rightarrow>
             if find_memb (lo_changes ls ! i) from = None then ls
             else
               (let ls1 = upd_change i (upd_memb from (\<lambda>m. m\<lparr>mb_start_flags := dh_flags h\<rparr>)) ls in
                if is_added ls1 from \<and> li_started_count li \<noteq> 0 \<and> lo_started_count ls1 \<noteq> 0
                then upd_change i (upd_memb from (\<lambda>m. m\<lparr>mb_disallowed := True\<rparr>)) ls1
                else if flag_set (dh_flags h) DLM_MFLG_NACK then ls1
                else upd_change i (upd_memb from (\<lambda>m. m\<lparr>mb_start := True\<rparr>)) (node_history_start from (now_of io) ls1)))"

section \<open>Sending\<close>

definition send_info :: "cpg_cfg \<Rightarrow> lockspace \<Rightarrow> change \<Rightarrow> msg_type \<Rightarrow> u32 \<Rightarrow> u32 \<Rightarrow> cpg_io \<Rightarrow> cpg_io" where
  "send_info c ls cg ty flags msgdata2 =
     (let be = big_endian (cf_plock c);
          fl = flags OR (if lo_joining ls then DLM_MFLG_JOINING else 0) OR (if \<not> lo_need_plocks ls then DLM_MFLG_HAVEPLOCK else 0)
      in tell (Send_info
           \<lparr>dh_version = cf_daemon_run c, dh_type = ty, dh_nodeid = us c, dh_to_nodeid = 0,
            dh_global_id = ls_global_id (lo_plock ls), dh_flags = fl, dh_msgdata = cg_seq cg, dh_msgdata2 = msgdata2\<rparr>
           \<lparr>li_ls_info_size = cpu_to_le32 be 32, li_id_info_size = cpu_to_le32 be 4,
            li_id_info_count = cpu_to_le32 be (cg_member_count cg), li_started_count = cpu_to_le32 be (lo_started_count ls),
            li_member_count = cpu_to_le32 be (cg_member_count cg), li_joined_count = cpu_to_le32 be (cg_joined_count cg),
            li_remove_count = cpu_to_le32 be (cg_remove_count cg), li_failed_count = cpu_to_le32 be (cg_failed_count cg)\<rparr>
           (map (\<lambda>m. cpu_to_le32 be (mb_nodeid m)) (cg_members cg))))"

definition send_start :: "cpg_cfg \<Rightarrow> lockspace \<Rightarrow> change \<Rightarrow> cpg_io \<Rightarrow> cpg_io" where
  "send_start c ls cg = send_info c ls cg DLM_MSG_START 0 0"

definition send_plocks_stored :: "cpg_cfg \<Rightarrow> lockspace \<Rightarrow> change \<Rightarrow> u32 \<Rightarrow> cpg_io \<Rightarrow> cpg_io" where
  "send_plocks_stored c ls cg sig = send_info c ls cg DLM_MSG_PLOCKS_STORED DLM_MFLG_PLOCK_SIG sig"

definition same_members :: "change \<Rightarrow> change \<Rightarrow> bool" where
  "same_members cg1 cg2 \<longleftrightarrow> (\<forall>m \<in> set (cg_members cg1). find_memb cg2 (mb_nodeid m) \<noteq> None)"

definition needs_nack :: "change \<Rightarrow> change \<Rightarrow> bool" where
  "needs_nack startcg cg \<longleftrightarrow> cg_seq cg < cg_seq startcg \<and> cg_member_count cg = cg_member_count startcg \<and>
     cg_joined_count cg = cg_joined_count startcg \<and> cg_remove_count cg = cg_remove_count startcg \<and>
     cg_failed_count cg = cg_failed_count startcg \<and> same_members cg startcg"

definition send_nacks :: "cpg_cfg \<Rightarrow> lockspace \<Rightarrow> change \<Rightarrow> cpg_io \<Rightarrow> cpg_io" where
  "send_nacks c ls startcg io =
     foldl (\<lambda>io cg. if needs_nack startcg cg then send_info c ls cg DLM_MSG_START DLM_MFLG_NACK 0 io else io) io (lo_changes ls)"

section \<open>Plock state\<close>

definition nodes_added :: "lockspace \<Rightarrow> bool" where
  "nodes_added ls \<longleftrightarrow> (\<exists>cg \<in> set (lo_changes ls). cg_joined_count cg \<noteq> 0)"

definition upd_plock :: "(plock_ls \<Rightarrow> plock_ls) \<Rightarrow> lockspace \<Rightarrow> lockspace" where
  "upd_plock f ls = ls\<lparr>lo_plock := f (lo_plock ls)\<rparr>"

definition prepare_plocks :: "cpg_cfg \<Rightarrow> cpg_env \<Rightarrow> change \<Rightarrow> lockspace \<Rightarrow> cpg_io \<Rightarrow> (lockspace \<times> cpg_io) option" where
  "prepare_plocks c ev cg ls io =
     (if \<not> cfgd_enable_plock (cf_plock c) \<or> ls_disable_plock (lo_plock ls) then Some (ls, io)
      else if cg_member_count cg = 1 then Some (ls\<lparr>lo_plock_ckpt_node := us c, lo_need_plocks := False\<rparr>, io)
      else
        (let ls1 = set_plock_ckpt_node c cg ls in
         if lo_plock_ckpt_node ls1 = 0
           then Some (upd_plock (\<lambda>p. p\<lparr>ls_save_plocks := False\<rparr>) (ls1\<lparr>lo_need_plocks := False\<rparr>), io)
         else if lo_need_plocks ls1 then Some (upd_plock (\<lambda>p. p\<lparr>ls_save_plocks := True\<rparr>) ls1, io)
         else if lo_plock_ckpt_node ls1 \<noteq> us c then Some (ls1, io)
         else if nodes_added ls1 then
           (case store_plocks (cf_plock c) (ev_unlinked ev) (ev_ckpt_handle ev) (ev_ckpt_create ev) (ev_sig0 ev)
                   (lo_plock ls1) (ci_plock io) of
              None \<Rightarrow> None
            | Some (sig, p, secs) \<Rightarrow>
                (let ls2 = ls1\<lparr>lo_plock := p, lo_last_plock_sig := sig\<rparr>;
                     io1 = (case secs of Some ss \<Rightarrow> tell (Stored_sections ss) io | None \<Rightarrow> io)
                 in Some (ls2, send_plocks_stored c ls2 cg sig io1)))
         else Some (ls1, send_plocks_stored c ls1 cg (lo_last_plock_sig ls1) io)))"

definition receive_plocks_stored ::
  "cpg_cfg \<Rightarrow> cpg_env \<Rightarrow> dlm_header \<Rightarrow> ls_info \<Rightarrow> u32 list \<Rightarrow> lockspace \<Rightarrow> cpg_io \<Rightarrow> (lockspace \<times> cpg_io) option" where
  "receive_plocks_stored c ev h wire_li wire_ids ls0 io =
     (let ls = ls0\<lparr>lo_last_plock_sig := dh_msgdata2 h\<rparr> in
      if \<not> lo_need_plocks ls then Some (ls, io)
      else if lo_changes ls \<noteq> [] then Some (ls, io)
      else
        (case lo_started_change ls of
           None \<Rightarrow> Some (ls, io)
         | Some cg \<Rightarrow>
             (let li = ls_info_in (big_endian (cf_plock c)) wire_li;
                  ids = ids_in (big_endian (cf_plock c)) li wire_ids
              in if \<not> match_change c ls cg h li ids then Some (ls, io)
                 else
                   (case retrieve_plocks (cf_plock c) (ev_garbage ev) (ev_ckpt_opened ev) (ev_ckpt_items ev) (ev_sig0 ev)
                           (lo_plock ls) (ci_plock io) of
                      None \<Rightarrow> None
                    | Some (sig, p, pio) \<Rightarrow>
                        if flag_set (dh_flags h) DLM_MFLG_PLOCK_SIG \<and> sig \<noteq> dh_msgdata2 h
                        then Some (ls\<lparr>lo_plock := p\<lparr>ls_disable_plock := True, ls_save_plocks := False\<rparr>, lo_need_plocks := True\<rparr>,
                                   io\<lparr>ci_plock := pio\<rparr>)
                        else
                          (case process_saved_plocks (cf_plock c) p pio of (p1, pio1) \<Rightarrow>
                             Some (ls\<lparr>lo_plock := p1\<lparr>ls_save_plocks := False\<rparr>, lo_need_plocks := False\<rparr>,
                                   io\<lparr>ci_plock := pio1\<rparr>))))))"

section \<open>Applying changes\<close>

definition apply_changes :: "cpg_cfg \<Rightarrow> cpg_env \<Rightarrow> lockspace \<Rightarrow> cpg_io \<Rightarrow> (lockspace \<times> cpg_io) option" where
  "apply_changes c ev ls io =
     (case lo_changes ls of
        [] \<Rightarrow> Some (ls, io)
      | cg # older \<Rightarrow>
          (case cg_state cg of
             CGST_WAIT_CONDITIONS \<Rightarrow>
               (case wait_conditions_done c ev ls io of (ok, ls1, io1) \<Rightarrow>
                  if ok
                  then Some (ls1\<lparr>lo_changes := cg\<lparr>cg_state := CGST_WAIT_MESSAGES\<rparr> # older\<rparr>,
                             send_start c ls1 cg (send_nacks c ls1 cg io1))
                  else Some (ls1, io1))
           | CGST_WAIT_MESSAGES \<Rightarrow>
               if wait_messages_done cg then
                 (case start_kernel cg older ls io of (ls1, io1) \<Rightarrow>
                    (case prepare_plocks c ev cg ls1 io1 of
                       None \<Rightarrow> None
                     | Some (ls2, io2) \<Rightarrow> Some (cleanup_changes cg older ls2, io2)))
               else Some (ls, io)))"

text \<open>The environment may differ from one lockspace to the next.\<close>

fun apply_all :: "cpg_cfg \<Rightarrow> (lockspace \<times> cpg_env) list \<Rightarrow> cpg_io \<Rightarrow> (lockspace list \<times> cpg_io) option" where
  "apply_all c [] io = Some ([], io)"
| "apply_all c ((ls, ev) # rest) io =
     (case (if lo_changes ls \<noteq> [] then apply_changes c ev ls io else Some (ls, io)) of
        None \<Rightarrow> None
      | Some (ls1, io1) \<Rightarrow>
          (case apply_all c rest io1 of None \<Rightarrow> None | Some (lss, io2) \<Rightarrow> Some (ls1 # lss, io2)))"

definition process_lockspace_changes :: "cpg_cfg \<Rightarrow> (lockspace \<times> cpg_env) list \<Rightarrow> cpg_io \<Rightarrow> (lockspace list \<times> cpg_io) option" where
  "process_lockspace_changes c lss io = apply_all c lss (io\<lparr>ci_poll_fencing := 0, ci_poll_quorum := 0, ci_poll_fs := 0\<rparr>)"

section \<open>Configuration changes\<close>

definition new_memb :: "u32 \<Rightarrow> member" where
  "new_memb nodeid = \<lparr>mb_nodeid = nodeid, mb_start = False, mb_added = False, mb_failed = False, mb_disallowed = False,
     mb_start_flags = 0\<rparr>"

definition reason_failed :: "cpg_reason \<Rightarrow> bool" where
  "reason_failed r \<longleftrightarrow> r = CPG_REASON_NODEDOWN \<or> r = CPG_REASON_PROCDOWN"

definition remove_one :: "cpg_cfg \<Rightarrow> u32 \<Rightarrow> u32 \<times> cpg_reason \<Rightarrow> lockspace \<times> cpg_io \<Rightarrow> lockspace \<times> cpg_io" where
  "remove_one c seq x st =
     (case x of (nodeid, reason) \<Rightarrow>
        (case st of (ls, io) \<Rightarrow>
           (if reason_failed reason then node_history_fail c nodeid seq (reason_code reason) (now_of io) ls
            else node_history_left nodeid seq ls,
            if reason = CPG_REASON_PROCDOWN then tell (Kick_node nodeid) io else io)))"

text \<open>The loop over the nodes that joined: \<open>None\<close> for the change if one of them is not a member.\<close>

fun join_loop :: "cpg_cfg \<Rightarrow> u32 list \<Rightarrow> change \<Rightarrow> lockspace \<Rightarrow> change option \<times> lockspace" where
  "join_loop c [] cg ls = (Some cg, ls)"
| "join_loop c (i # is) cg ls =
     (if find_memb cg i = None then (None, ls)
      else
        (let cg1 = upd_memb i (\<lambda>m. m\<lparr>mb_added := True\<rparr>) cg in
         if i = us c then join_loop c is (cg1\<lparr>cg_we_joined := True\<rparr>) ls
         else join_loop c is cg1 (node_history_init i (Some (cg_seq cg1)) ls)))"

definition add_change ::
  "cpg_cfg \<Rightarrow> u32 list \<Rightarrow> (u32 \<times> cpg_reason) list \<Rightarrow> u32 list \<Rightarrow> lockspace \<Rightarrow> cpg_io \<Rightarrow> int \<times> lockspace \<times> cpg_io" where
  "add_change c members left joined ls io =
     (let s1 = lo_change_seq ls + 1; seq = (if s1 = 0 then s1 + 1 else s1);
          cg = \<lparr>cg_members = map new_memb members,
                cg_removed = map (\<lambda>(i, r). (new_memb i)\<lparr>mb_failed := reason_failed r\<rparr>) left,
                cg_member_count = word_of_nat (length members), cg_joined_count = word_of_nat (length joined),
                cg_remove_count = word_of_nat (length left),
                cg_failed_count = word_of_nat (length (filter (\<lambda>(i, r). reason_failed r) left)),
                cg_state = CGST_WAIT_CONDITIONS, cg_we_joined = False, cg_seq = seq, cg_combined_seq = 0,
                cg_create_time = now_of io\<rparr>
      in case foldl (\<lambda>st x. remove_one c seq x st) (ls\<lparr>lo_change_seq := seq\<rparr>, io) left of
           (ls1, io1) \<Rightarrow>
             (case join_loop c joined cg ls1 of
                (None, ls2) \<Rightarrow> (- ENOENT, ls2, io1)
              | (Some cg1, ls2) \<Rightarrow>
                  (let ls3 = (if cg_we_joined cg1
                              then foldl (\<lambda>l m. node_history_init (mb_nodeid m) (Some seq) l) ls2 (cg_members cg1) else ls2)
                   in (0, ls3\<lparr>lo_changes := cg1 # lo_changes ls3\<rparr>, io1))))"

definition we_left :: "cpg_cfg \<Rightarrow> (u32 \<times> cpg_reason) list \<Rightarrow> bool" where
  "we_left c left \<longleftrightarrow> us c \<in> set (map fst left)"

definition purge_nodes :: "plock_cfg \<Rightarrow> u32 list \<Rightarrow> plock_ls \<times> plock_io \<Rightarrow> plock_ls \<times> plock_io" where
  "purge_nodes pc nodes st = foldl (\<lambda>(p, pio) i. purge_plocks pc p i False pio) st nodes"

text \<open>\<^verbatim>\<open>confchg_cb\<close> for the lockspace of the group; no lockspace is left after our own leave.\<close>

definition confchg_cb ::
  "cpg_cfg \<Rightarrow> cpg_env \<Rightarrow> u32 list \<Rightarrow> (u32 \<times> cpg_reason) list \<Rightarrow> u32 list \<Rightarrow> lockspace \<Rightarrow> cpg_io \<Rightarrow>
     (lockspace option \<times> cpg_io) option" where
  "confchg_cb c ev members left joined ls io =
     (if lo_leaving ls \<and> we_left c left then
        (case stop_kernel ls io of (ls1, io1) \<Rightarrow>
           (let io2 = tell Close_group (tell (Set_sysfs_event_done 0) (tell (Set_configfs_members [] []) io1)) in
            case purge_plocks (cf_plock c) (lo_plock ls1) (us c) True (ci_plock io2) of
              (p, pio) \<Rightarrow> Some (None, io2\<lparr>ci_plock := pio\<rparr>)))
      else
        (case add_change c members left joined ls io of (rv, ls1, io1) \<Rightarrow>
           if rv \<noteq> 0 then Some (Some ls1, io1)
           else
             (case stop_kernel ls1 io1 of (ls2, io2) \<Rightarrow>
                (case purge_nodes (cf_plock c) (map fst left) (lo_plock ls2, ci_plock io2) of (p, pio) \<Rightarrow>
                   (case apply_changes c ev (ls2\<lparr>lo_plock := p\<rparr>) (io2\<lparr>ci_plock := pio\<rparr>) of
                      None \<Rightarrow> None
                    | Some (ls3, io3) \<Rightarrow>
                        Some (Some (ls3\<lparr>lo_deadlk := deadlk_confchg (cf_enable_deadlk c) (us c) members (map fst left) joined
                                                      (lo_deadlk ls3)\<rparr>), io3))))))"

section \<open>Messages\<close>

text \<open>The plock messages are ignored before plock state is transferred.\<close>

definition ignore_plock :: "lockspace \<Rightarrow> bool" where
  "ignore_plock ls \<longleftrightarrow> ls_disable_plock (lo_plock ls) \<or> (lo_need_plocks ls \<and> \<not> ls_save_plocks (lo_plock ls))"

definition on_plock ::
  "(plock_ls \<Rightarrow> plock_io \<Rightarrow> plock_ls \<times> plock_io) \<Rightarrow> lockspace \<Rightarrow> cpg_io \<Rightarrow> lockspace \<times> cpg_io" where
  "on_plock f ls io = (case f (lo_plock ls) (ci_plock io) of (p, pio) \<Rightarrow> (ls\<lparr>lo_plock := p\<rparr>, io\<lparr>ci_plock := pio\<rparr>))"

definition plock_of :: "dlm_header \<Rightarrow> dlm_plock_info \<Rightarrow> plock_msg" where
  "plock_of h i = \<lparr>hd_type = dh_type h, hd_nodeid = dh_nodeid h, hd_info = i\<rparr>"

text \<open>The switch of \<^verbatim>\<open>deliver_cb\<close>. A message whose payload is not that of its type has no defined meaning.\<close>

definition deliver_switch ::
  "cpg_cfg \<Rightarrow> cpg_env \<Rightarrow> dlm_header \<Rightarrow> payload \<Rightarrow> lockspace \<Rightarrow> cpg_io \<Rightarrow> (lockspace \<times> cpg_io) option" where
  "deliver_switch c ev h pl ls io =
     (let pc = cf_plock c; own = cfgd_enable_plock pc \<and> cfgd_plock_ownership pc in
      case dh_type h of
        DLM_MSG_START \<Rightarrow>
          (case pl of Info li ids \<Rightarrow> Some (receive_start c h li ids ls io, io) | _ \<Rightarrow> None)
      | DLM_MSG_PLOCK \<Rightarrow>
          (case pl of
             Request i \<Rightarrow>
               if ignore_plock ls \<or> \<not> cfgd_enable_plock pc then Some (ls, io)
               else Some (on_plock (\<lambda>p. receive_plock pc p (plock_of h i)) ls io)
           | _ \<Rightarrow> None)
      | DLM_MSG_PLOCK_OWN \<Rightarrow>
          (case pl of
             Request i \<Rightarrow>
               if ignore_plock ls \<or> \<not> own then Some (ls, io)
               else Some (on_plock (\<lambda>p. receive_own pc p (plock_of h i)) ls io)
           | _ \<Rightarrow> None)
      | DLM_MSG_PLOCK_DROP \<Rightarrow>
          (case pl of
             Request i \<Rightarrow>
               if ignore_plock ls \<or> \<not> own then Some (ls, io)
               else Some (on_plock (\<lambda>p. receive_drop pc p (plock_of h i)) ls io)
           | _ \<Rightarrow> None)
      | DLM_MSG_PLOCKS_STORED \<Rightarrow>
          (case pl of
             Info li ids \<Rightarrow>
               if ls_disable_plock (lo_plock ls) \<or> \<not> cfgd_enable_plock pc then Some (ls, io)
               else receive_plocks_stored c ev h li ids ls io
           | _ \<Rightarrow> None)
      | DLM_MSG_DEADLK_CYCLE_START \<Rightarrow>
          if \<not> cf_enable_deadlk c then Some (ls, io)
          else
            (case receive_cycle_start (big_endian pc) (us c) (ev_debugfs ev) (ev_dl_unlinked ev) (ev_dl_attempts ev) (lo_deadlk ls) of
               None \<Rightarrow> None
             | Some (d, secs) \<Rightarrow> Some (ls\<lparr>lo_deadlk := d\<rparr>, if secs = [] then io else tell (Deadlk_sections secs) io))
      | DLM_MSG_DEADLK_CYCLE_END \<Rightarrow>
          if \<not> cf_enable_deadlk c then Some (ls, io)
          else Some (ls\<lparr>lo_deadlk := receive_cycle_end (ev_dl_unlinked ev) (lo_deadlk ls)\<rparr>, io)
      | DLM_MSG_DEADLK_CHECKPOINT_READY \<Rightarrow>
          if \<not> cf_enable_deadlk c then Some (ls, io)
          else Some (ls\<lparr>lo_deadlk := receive_checkpoint_ready (big_endian pc) (us c) (dh_nodeid h) (ev_dl_items ev) (lo_deadlk ls)\<rparr>, io)
      | DLM_MSG_DEADLK_CANCEL_LOCK \<Rightarrow>
          if \<not> cf_enable_deadlk c then Some (ls, io)
          else Some (ls, case receive_cancel_lock (us c) (dh_nodeid h) (dh_to_nodeid h) (dh_msgdata h) of
                           Some lkid \<Rightarrow> tell (Cancel_lock lkid) io | None \<Rightarrow> io)
      | DLM_MSG_PROTOCOL \<Rightarrow> Some (ls, io)
      | _ \<Rightarrow>
          (case pl of
             Request i \<Rightarrow>
               if ignore_plock ls \<or> \<not> own then Some (ls, io)
               else Some (on_plock (\<lambda>p. receive_sync pc p (plock_of h i)) ls io)
           | _ \<Rightarrow> None))"

definition deliver_cb ::
  "cpg_cfg \<Rightarrow> cpg_env \<Rightarrow> u32 \<Rightarrow> dlm_header \<Rightarrow> payload \<Rightarrow> lockspace \<Rightarrow> cpg_io \<Rightarrow> (lockspace \<times> cpg_io) option" where
  "deliver_cb c ev nodeid h pl ls io =
     (if fst (dh_version h) \<noteq> fst (cf_daemon_run c) \<or> fst (snd (dh_version h)) \<noteq> fst (snd (cf_daemon_run c)) then Some (ls, io)
      else if dh_nodeid h \<noteq> nodeid then Some (ls, io)
      else
        (case deliver_switch c ev h pl ls io of
           None \<Rightarrow> None
         | Some (ls1, io1) \<Rightarrow> apply_changes c ev ls1 io1))"

section \<open>Joining and leaving\<close>

text \<open>\<open>crc\<close> is the id made from the name of the group.\<close>

definition dlm_join_lockspace :: "cpg_cfg \<Rightarrow> cpg_env \<Rightarrow> bool \<Rightarrow> u32 \<Rightarrow> bool \<Rightarrow> lockspace \<Rightarrow> cpg_io \<Rightarrow> int \<times> lockspace option \<times> cpg_io" where
  "dlm_join_lockspace c ev initialized crc joined ls io =
     (if cf_enable_fencing c \<and> ev_fence_progress ev = None then (-1, None, tell (Set_sysfs_event_done (-1)) io)
      else if \<not> initialized then (-1, None, tell (Set_sysfs_event_done (-1)) io)
      else if \<not> joined then (-1, None, tell (Set_sysfs_event_done (-1)) (tell Close_group (tell Close_group io)))
      else (0, Some (upd_plock (\<lambda>p. p\<lparr>ls_global_id := crc\<rparr>)
                      (ls\<lparr>lo_kernel_stopped := True, lo_need_plocks := True, lo_joining := True\<rparr>)), io))"

definition dlm_leave_lockspace :: "lockspace \<Rightarrow> lockspace" where
  "dlm_leave_lockspace ls = ls\<lparr>lo_leaving := True\<rparr>"

text \<open>The file system daemon has seen the failure of a node; \<open>None\<close> if the missing started change is followed.\<close>

definition set_fs_notified :: "u32 \<Rightarrow> lockspace \<Rightarrow> (int \<times> lockspace) option" where
  "set_fs_notified nodeid ls =
     (case get_node_history ls nodeid of
        None \<Rightarrow> Some (- ESRCH, ls)
      | Some n \<Rightarrow>
          (case lo_started_change ls of
             None \<Rightarrow> None
           | Some cg \<Rightarrow>
               if find_memb cg nodeid = None then Some (0, ls)
               else if \<not> hn_check_fs n then Some (- EAGAIN, ls)
               else Some (0, upd_history nodeid (\<lambda>n. n\<lparr>hn_fs_notified := True\<rparr>) ls)))"

end
