(* ===== verification/Cpg_Runs.thy ===== *)
theory Cpg_Runs imports Cpg_Ops begin

text \<open>
  Runs of a lockspace: the events that reach it, in any order, and what holds after them. The kernel's
  lockspace runs only when no change waits and no node waits for its fencing; a node that fails after
  it has started waits until fenced has been asked about it; the notification of the file system, once
  given, stays.
\<close>

section \<open>Events\<close>

text \<open>
  What can happen to a lockspace: the two callbacks of the group, the poll for changes that wait, the
  notification and registration of the file system, nodes that come and go in the cluster, our wish to
  leave, and requests of the kernel and detection cycles, which only touch the plock and deadlock
  state. The members of a configuration include the nodes that joined.
\<close>

datatype ls_event =
    Deliver_msg u32 dlm_header payload
  | Confchg "u32 list" "(u32 \<times> cpg_reason) list" "u32 list"
  | Poll
  | Fs_notified u32
  | Fs_register
  | Cluster_add u32
  | Cluster_remove u32
  | Leave
  | Kernel plock_ls deadlk

definition ls_next :: "cpg_cfg \<Rightarrow> ls_event \<times> cpg_env \<times> cpg_io \<Rightarrow> lockspace \<Rightarrow> lockspace option" where
  "ls_next c x ls =
     (case x of (e, ev, io) \<Rightarrow>
        (case e of
           Deliver_msg from h pl \<Rightarrow> map_option fst (deliver_cb c ev from h pl ls io)
         | Confchg members left joined \<Rightarrow>
             (case confchg_cb c ev members left joined ls io of Some (Some ls1, _) \<Rightarrow> Some ls1 | _ \<Rightarrow> None)
         | Poll \<Rightarrow> map_option fst (apply_changes c ev ls io)
         | Fs_notified i \<Rightarrow> map_option snd (set_fs_notified i ls)
         | Fs_register \<Rightarrow> Some (ls\<lparr>lo_fs_registered := True\<rparr>)
         | Cluster_add i \<Rightarrow> Some (hd (node_history_cluster_add i (now_of io) [ls]))
         | Cluster_remove i \<Rightarrow> Some (hd (node_history_cluster_remove i (now_of io) [ls]))
         | Leave \<Rightarrow> Some (dlm_leave_lockspace ls)
         | Kernel p d \<Rightarrow> Some (ls\<lparr>lo_plock := p, lo_deadlk := d\<rparr>)))"

fun ls_run :: "cpg_cfg \<Rightarrow> (ls_event \<times> cpg_env \<times> cpg_io) list \<Rightarrow> lockspace \<Rightarrow> lockspace option" where
  "ls_run c [] ls = Some ls"
| "ls_run c (x # xs) ls = (case ls_next c x ls of None \<Rightarrow> None | Some ls1 \<Rightarrow> ls_run c xs ls1)"

definition wf_event :: "ls_event \<Rightarrow> bool" where
  "wf_event e \<longleftrightarrow> (case e of Confchg members left joined \<Rightarrow> set joined \<subseteq> set members | _ \<Rightarrow> True)"

section \<open>What events do to the history and to the order of changes\<close>

definition hcore :: "hnode \<Rightarrow> u32 \<times> bool \<times> u64 \<times> bool" where
  "hcore n = (hn_nodeid n, hn_check_fencing n, hn_fail_time n, hn_fs_notified n)"

definition core :: "lockspace \<Rightarrow> bool \<times> cgst list \<times> (u32 \<times> bool \<times> u64 \<times> bool) list" where
  "core ls = (lo_kernel_stopped ls, map cg_state (lo_changes ls), map hcore (lo_node_history ls))"

named_theorems core_simps \<open>operations that leave the core of a lockspace alone\<close>

lemma core_fields [core_simps]:
  "core (ls\<lparr>lo_plock := v1\<rparr>) = core ls" "core (ls\<lparr>lo_deadlk := v2\<rparr>) = core ls" "core (ls\<lparr>lo_joining := v3\<rparr>) = core ls"
  "core (ls\<lparr>lo_leaving := v4\<rparr>) = core ls" "core (ls\<lparr>lo_fs_registered := v5\<rparr>) = core ls" "core (ls\<lparr>lo_change_seq := v6\<rparr>) = core ls"
  "core (ls\<lparr>lo_started_count := v7\<rparr>) = core ls" "core (ls\<lparr>lo_started_change := v8\<rparr>) = core ls"
  "core (ls\<lparr>lo_plock_ckpt_node := v9\<rparr>) = core ls" "core (ls\<lparr>lo_need_plocks := v10\<rparr>) = core ls"
  "core (ls\<lparr>lo_last_plock_sig := v11\<rparr>) = core ls"
  by (simp_all add: core_def)

lemma core_upd_plock [core_simps]: "core (upd_plock f ls) = core ls"
  by (simp add: upd_plock_def core_simps)

lemma core_upd_history [core_simps]: "(\<And>n. hcore (f n) = hcore n) \<Longrightarrow> core (upd_history i f ls) = core ls"
  by (simp add: core_def upd_history_def map_update_first)

lemma core_upd_change [core_simps]:
  assumes "\<And>cg. cg_state (f cg) = cg_state cg"
  shows "core (upd_change i f ls) = core ls"
proof -
  have "map cg_state ((lo_changes ls)[i := f (lo_changes ls ! i)]) = map cg_state (lo_changes ls)"
    by (cases "i < length (lo_changes ls)") (auto intro!: nth_equalityI simp: nth_list_update assms)
  then show ?thesis by (simp add: core_def upd_change_def)
qed

lemma cg_state_upd_memb [simp]: "cg_state (upd_memb i f cg) = cg_state cg"
  by (simp add: upd_memb_def)

lemma core_receive_start [core_simps]: "core (receive_start c h li ids ls io) = core ls"
  by (simp add: receive_start_def Let_def core_simps node_history_start_def hcore_def split: option.split)

lemma core_on_plock [core_simps]: "core (fst (on_plock f ls io)) = core ls"
  by (simp add: on_plock_def core_simps split: prod.split)

lemma core_receive_plocks_stored: "receive_plocks_stored c ev h li ids ls io = Some (ls', io') \<Longrightarrow> core ls' = core ls"
  by (auto simp: receive_plocks_stored_def Let_def core_simps split: if_splits option.splits prod.splits)

lemma core_switch:
  assumes "deliver_switch c ev h pl ls io = Some (ls', io')"
  shows "core ls' = core ls"
proof -
  have on: "on_plock f ls io = (ls', io') \<Longrightarrow> core ls' = core ls" for f using core_on_plock [of f ls io] by simp
  show ?thesis using assms unfolding deliver_switch_def Let_def
    by (cases "dh_type h"; cases pl)
       (auto simp: core_simps dest: on core_receive_plocks_stored split: if_splits option.splits prod.splits)
qed


section \<open>How the history of a node evolves\<close>

text \<open>
  Nodes are never taken out of the history and never move in it: the list of nodes after an operation
  starts with the nodes there were, each related by \<open>R\<close> to what it was.
\<close>

locale node_relation =
  fixes R :: "hnode \<Rightarrow> hnode \<Rightarrow> bool"
  assumes same_core: "hcore n = hcore m \<Longrightarrow> R n m"
    and trans_R: "R n m \<Longrightarrow> R m k \<Longrightarrow> R n k"
begin

definition evolves :: "hnode list \<Rightarrow> hnode list \<Rightarrow> bool" where
  "evolves ns ms \<longleftrightarrow> (\<exists>us vs. ms = us @ vs \<and> list_all2 R ns us)"

lemma evolves_pointwise: "list_all2 R ns ms \<Longrightarrow> evolves ns ms"
  unfolding evolves_def by (intro exI [of _ ms] exI [of _ "[]"]) simp

lemma evolves_core:
  assumes "map hcore ns = map hcore ms"
  shows "evolves ns ms"
proof (rule evolves_pointwise, rule list_all2_all_nthI)
  show len: "length ns = length ms" using map_eq_imp_length_eq [OF assms] .
  fix i assume "i < length ns"
  then show "R (ns ! i) (ms ! i)" using assms len by (metis nth_map same_core)
qed

lemma evolves_refl [simp]: "evolves ns ns"
  by (rule evolves_core) simp

lemma evolves_append: "evolves ns (ns @ ms)"
  unfolding evolves_def by (intro exI [of _ ns] exI [of _ ms]) (simp add: list_all2_refl same_core)

lemma evolves_trans: "evolves ns ms \<Longrightarrow> evolves ms ks \<Longrightarrow> evolves ns ks"
  unfolding evolves_def
proof (elim exE conjE)
  fix us vs us' vs' assume a: "ms = us @ vs" "list_all2 R ns us" "ks = us' @ vs'" "list_all2 R ms us'"
  then obtain p q where "us' = p @ q" "list_all2 R us p" by (auto simp: list_all2_append1)
  then show "\<exists>us vs. ks = us @ vs \<and> list_all2 R ns us"
    using a list_all2_trans [of R R R ns us p] trans_R by (intro exI [of _ p] exI [of _ "q @ vs'"]) auto
qed

lemma evolves_update_first: "(\<And>n. P n \<Longrightarrow> R n (f n)) \<Longrightarrow> evolves ns (update_first P f ns)"
proof (rule evolves_pointwise)
  assume "\<And>n. P n \<Longrightarrow> R n (f n)"
  then show "list_all2 R ns (update_first P f ns)" by (induction ns) (auto intro: list_all2_refl simp: same_core)
qed

lemma evolves_find:
  assumes "evolves ns ms" and "\<And>n m. R n m \<Longrightarrow> hn_nodeid n = hn_nodeid m"
    and "find (\<lambda>n. hn_nodeid n = i) ns = Some n"
  shows "\<exists>m. find (\<lambda>n. hn_nodeid n = i) ms = Some m \<and> R n m"
proof -
  obtain us vs where u: "ms = us @ vs" "list_all2 R ns us" using assms(1) unfolding evolves_def by blast
  from u(2) assms(3) have "\<exists>m. find (\<lambda>n. hn_nodeid n = i) us = Some m \<and> R n m"
    by (induction rule: list_all2_induct) (auto dest: assms(2) split: if_splits)
  then show ?thesis using u(1) by (auto simp: find_append)
qed

lemma evolves_member:
  assumes "evolves ns ms" and "n \<in> set ns"
  shows "\<exists>m \<in> set ms. R n m"
proof -
  obtain us vs where u: "ms = us @ vs" "list_all2 R ns us" using assms(1) unfolding evolves_def by blast
  obtain i where "i < length ns" "n = ns ! i" using assms(2) by (auto simp: in_set_conv_nth)
  then have "R n (us ! i)" "us ! i \<in> set us" using u(2) by (auto simp: list_all2_conv_all_nth)
  then show ?thesis using u(1) by auto
qed

end

text \<open>
  What an operation may do to a node: a notification is kept, and a node that waits for its fencing
  since \<open>T\<close> or later goes on waiting, unless fenced was asked and did not say that it fenced the node
  before \<open>T\<close>.
\<close>

definition answered :: "cpg_env \<Rightarrow> u64 \<Rightarrow> u32 \<Rightarrow> bool" where
  "answered ev T i \<longleftrightarrow> (case ev_fenced ev i of None \<Rightarrow> True | Some t \<Rightarrow> T \<le> t)"

definition waits :: "u64 \<Rightarrow> hnode \<Rightarrow> bool" where
  "waits T n \<longleftrightarrow> hn_check_fencing n \<and> T \<le> hn_fail_time n"

definition advances :: "cpg_env \<Rightarrow> u64 \<Rightarrow> hnode \<Rightarrow> hnode \<Rightarrow> bool" where
  "advances ev T n m \<longleftrightarrow> hn_nodeid m = hn_nodeid n \<and> (hn_fs_notified n \<longrightarrow> hn_fs_notified m) \<and>
     (waits T n \<longrightarrow> waits T m \<or> answered ev T (hn_nodeid n))"

interpretation adv: node_relation "advances ev T" for ev T
  by unfold_locales (auto simp: advances_def hcore_def waits_def)

abbreviation hist_advances :: "cpg_env \<Rightarrow> u64 \<Rightarrow> lockspace \<Rightarrow> lockspace \<Rightarrow> bool" where
  "hist_advances ev T ls ls' \<equiv> adv.evolves ev T (lo_node_history ls) (lo_node_history ls')"

lemma hist_core: "core ls' = core ls \<Longrightarrow> hist_advances ev T ls ls'"
  by (rule adv.evolves_core) (simp add: core_def)

lemma hist_init: "hist_advances ev T ls (node_history_init i seq ls)"
proof -
  have "advances ev T n (n\<lparr>hn_added_seq := q\<rparr>)" for n q by (rule adv.same_core) (simp add: hcore_def)
  then have u: "hist_advances ev T l (upd_history i (\<lambda>n. n\<lparr>hn_added_seq := q\<rparr>) l)" for l q
    by (simp add: upd_history_def adv.evolves_update_first)
  have a: "hist_advances ev T ls (if b then ls\<lparr>lo_node_history := lo_node_history ls @ [z]\<rparr> else ls)" for b z
    by (simp add: adv.evolves_append)
  show ?thesis unfolding node_history_init_def Let_def
    by (cases seq; simp only: option.case) (rule a adv.evolves_trans [OF a u])+
qed

lemma hist_fail:
  assumes "T \<le> now"
  shows "hist_advances ev T ls (node_history_fail c i seq reason now ls)"
  unfolding node_history_fail_def upd_history_def Let_def
  using assms by (auto intro!: adv.evolves_update_first simp: advances_def waits_def)

lemma hist_left: "hist_advances ev T ls (node_history_left i seq ls)"
  by (rule hist_core) (simp add: node_history_left_def core_simps hcore_def)

lemma fencing_loop_advances: "list_all2 (advances ev T) ns (snd (check_fencing_loop (ev_fenced ev) prev ns))"
proof (induction ns arbitrary: prev)
  case (Cons n ns)
  define t where "t = (case ev_fenced ev (hn_nodeid n) of Some t \<Rightarrow> t | None \<Rightarrow> prev)"
  have ans: "waits T n \<Longrightarrow> hn_fail_time n \<le> t \<Longrightarrow> answered ev T (hn_nodeid n)"
    by (auto simp: answered_def waits_def t_def split: option.splits)
  show ?case
    using Cons [of prev] Cons [of t] ans
    by (auto simp: t_def [symmetric] Let_def advances_def waits_def split: prod.splits)
qed simp

lemma fencing_loop_none: "fst (check_fencing_loop fenced prev ns) = 0 \<Longrightarrow> \<forall>n \<in> set (snd (check_fencing_loop fenced prev ns)). \<not> hn_check_fencing n"
proof (induction ns arbitrary: prev)
  case (Cons n ns)
  define t where "t = (case fenced (hn_nodeid n) of Some t \<Rightarrow> t | None \<Rightarrow> prev)"
  show ?case
    using Cons.prems Cons.IH [of prev] Cons.IH [of t] by (auto simp: t_def [symmetric] Let_def split: prod.splits if_splits)
qed simp


section \<open>What events do\<close>

text \<open>
  The state of the kernel and of the newest change: \<open>started_ok\<close> says that the kernel runs only while no
  change waits, and that nothing waits for fencing once the conditions of the newest change are met.
\<close>

definition conditions_met :: "lockspace \<Rightarrow> bool" where
  "conditions_met ls \<longleftrightarrow> \<not> lo_kernel_stopped ls \<or> (\<exists>cg older. lo_changes ls = cg # older \<and> cg_state cg = CGST_WAIT_MESSAGES)"

definition started_ok :: "lockspace \<Rightarrow> bool" where
  "started_ok ls \<longleftrightarrow> (lo_kernel_stopped ls \<or> lo_changes ls = []) \<and>
     (conditions_met ls \<longrightarrow> (\<forall>n \<in> set (lo_node_history ls). \<not> hn_check_fencing n))"

lemma fenced_core:
  assumes "map hcore ns = map hcore ms"
  shows "(\<forall>n \<in> set ns. \<not> hn_check_fencing n) = (\<forall>n \<in> set ms. \<not> hn_check_fencing n)"
proof -
  have "(\<forall>n \<in> set ns. \<not> hn_check_fencing n) = (\<forall>x \<in> set (map hcore ns). \<not> fst (snd x))" for ns by (simp add: hcore_def)
  then show ?thesis using assms by metis
qed

lemma started_ok_core:
  assumes "core ls' = core ls"
  shows "started_ok ls' = started_ok ls"
proof -
  have k: "lo_kernel_stopped ls' = lo_kernel_stopped ls" and s: "map cg_state (lo_changes ls') = map cg_state (lo_changes ls)"
    and h: "map hcore (lo_node_history ls') = map hcore (lo_node_history ls)" using assms by (simp_all add: core_def)
  have e: "(\<exists>cg older. xs = cg # older \<and> cg_state cg = st) = (\<exists>q. map cg_state xs = st # q)" for xs st by auto
  have "(lo_changes ls' = []) = (lo_changes ls = [])" using s by auto
  then show ?thesis unfolding started_ok_def conditions_met_def e fenced_core [OF h] k s by simp
qed

lemma history_core_conditions:
  "check_quorum_done c ev ls = (ok, ls') \<Longrightarrow> core ls' = core ls"
  "check_fs_done ls = (ok, ls') \<Longrightarrow> core ls' = core ls"
  by (auto simp: check_quorum_done_def check_fs_done_def Let_def core_def hcore_def split: if_splits)

lemma fencing_done:
  assumes "check_fencing_done c ev ls = (ok, ls')"
  shows "hist_advances ev T ls ls'" "lo_changes ls' = lo_changes ls" "lo_kernel_stopped ls' = lo_kernel_stopped ls"
    and "ok \<Longrightarrow> cf_enable_fencing c \<Longrightarrow> \<forall>n \<in> set (lo_node_history ls'). \<not> hn_check_fencing n"
proof -
  obtain k ns where l: "check_fencing_loop (ev_fenced ev) (ev_uninit ev) (lo_node_history ls) = (k, ns)" by fastforce
  have a: "list_all2 (advances ev T) (lo_node_history ls) ns"
    using fencing_loop_advances [of ev T "lo_node_history ls" "ev_uninit ev"] by (simp add: l)
  have n: "k = 0 \<Longrightarrow> \<forall>n \<in> set ns. \<not> hn_check_fencing n"
    using fencing_loop_none [of "ev_fenced ev" "ev_uninit ev" "lo_node_history ls"] by (simp add: l)
  have u: "ls' = ls \<and> \<not> cf_enable_fencing c \<or> ls' = ls\<lparr>lo_node_history := ns\<rparr> \<and> (ok \<longrightarrow> k = 0)"
    using assms by (auto simp: check_fencing_done_def l Let_def split: if_splits option.splits)
  then show "hist_advances ev T ls ls'" "lo_changes ls' = lo_changes ls" "lo_kernel_stopped ls' = lo_kernel_stopped ls"
    using a by (auto intro: adv.evolves_pointwise)
  show "ok \<Longrightarrow> cf_enable_fencing c \<Longrightarrow> \<forall>n \<in> set (lo_node_history ls'). \<not> hn_check_fencing n" using u n by auto
qed

lemma conditions_done:
  assumes "wait_conditions_done c ev ls io = (ok, ls', io')"
  shows "\<exists>ls1 ok1. check_fencing_done c ev ls = (ok1, ls1) \<and> core ls' = core ls1 \<and> (ok \<longrightarrow> ok1)"
  using assms unfolding wait_conditions_done_def
  by (auto dest!: history_core_conditions split: prod.splits if_splits)


lemma core_prepare_plocks: "prepare_plocks c ev cg ls io = Some (ls', io') \<Longrightarrow> core ls' = core ls"
  unfolding prepare_plocks_def set_plock_ckpt_node_def Let_def
  by (auto simp: core_simps split: if_splits option.splits prod.splits)

lemma start_kernel_state:
  "start_kernel cg older ls io = (ls', io') \<Longrightarrow> lo_node_history ls' = lo_node_history ls \<and> \<not> lo_kernel_stopped ls'"
  by (auto simp: start_kernel_def Let_def split: if_splits)

lemma apply_cases [consumes 1, case_names still wait conditions start]:
  assumes "apply_changes c ev ls io = Some (ls', io')"
  obtains "ls' = ls"
  | cg older where "lo_changes ls = cg # older" "cg_state cg = CGST_WAIT_CONDITIONS" "wait_conditions_done c ev ls io = (False, ls', io')"
  | cg older ls1 io1 where "lo_changes ls = cg # older" "cg_state cg = CGST_WAIT_CONDITIONS"
      "wait_conditions_done c ev ls io = (True, ls1, io1)" "ls' = ls1\<lparr>lo_changes := cg\<lparr>cg_state := CGST_WAIT_MESSAGES\<rparr> # older\<rparr>"
  | cg older ls1 io1 ls2 where "lo_changes ls = cg # older" "cg_state cg = CGST_WAIT_MESSAGES" "wait_messages_done cg"
      "start_kernel cg older ls io = (ls1, io1)" "prepare_plocks c ev cg ls1 io1 = Some (ls2, io')" "ls' = cleanup_changes cg older ls2"
  using assms unfolding apply_changes_def by (auto split: list.splits cgst.splits if_splits prod.splits option.splits)

lemma cleanup_state [simp]:
  "lo_node_history (cleanup_changes cg older ls) = lo_node_history ls" "lo_changes (cleanup_changes cg older ls) = []"
  "lo_kernel_stopped (cleanup_changes cg older ls) = lo_kernel_stopped ls" "lo_plock (cleanup_changes cg older ls) = lo_plock ls"
  "lo_need_plocks (cleanup_changes cg older ls) = lo_need_plocks ls"
  by (simp_all add: cleanup_changes_def Let_def)

lemma hist_apply:
  assumes "apply_changes c ev ls io = Some (ls', io')"
  shows "hist_advances ev T ls ls'"
proof -
  have w: "hist_advances ev T ls l" if c: "wait_conditions_done c ev ls io = (ok, l, io1)" for ok l io1
  proof -
    obtain ok1 ls1 where f: "check_fencing_done c ev ls = (ok1, ls1)" "core l = core ls1" using conditions_done [OF c] by blast
    show ?thesis using adv.evolves_trans [OF fencing_done(1) [OF f(1)] hist_core [OF f(2)]] .
  qed
  show ?thesis using assms
  proof (cases rule: apply_cases)
    case (start cg older ls1 io1 ls2)
    then show ?thesis using start_kernel_state [OF start(4)] hist_core [OF core_prepare_plocks [OF start(5)]] by simp
  qed (auto dest: w)
qed

lemma started_apply:
  assumes "apply_changes c ev ls io = Some (ls', io')" and "cf_enable_fencing c" and ok: "started_ok ls"
  shows "started_ok ls'"
  using assms(1)
proof (cases rule: apply_cases)
  case (wait cg older)
  obtain ok1 ls1 where f: "check_fencing_done c ev ls = (ok1, ls1)" "core ls' = core ls1" using conditions_done [OF wait(3)] by blast
  have "started_ok ls1" using ok wait(1,2) fencing_done(2,3) [OF f(1)] by (auto simp: started_ok_def conditions_met_def)
  then show ?thesis using started_ok_core [OF f(2)] by simp
next
  case (conditions cg older ls1 io1)
  obtain ls2 where f: "check_fencing_done c ev ls = (True, ls2)" "core ls1 = core ls2" using conditions_done [OF conditions(3)] by auto
  have n: "\<forall>n \<in> set (lo_node_history ls2). \<not> hn_check_fencing n" using fencing_done(4) [OF f(1)] assms(2) by simp
  have "\<forall>n \<in> set (lo_node_history ls1). \<not> hn_check_fencing n"
    using n f(2) fenced_core [of "lo_node_history ls1" "lo_node_history ls2"] by (simp add: core_def)
  moreover have "lo_kernel_stopped ls1" using ok conditions(1) fencing_done(3) [OF f(1)] f(2) by (simp add: started_ok_def core_def)
  ultimately show ?thesis using conditions(4) by (simp add: started_ok_def)
next
  case (start cg older ls1 io1 ls2)
  have c: "core ls2 = core ls1" by (rule core_prepare_plocks [OF start(5)])
  have "\<forall>n \<in> set (lo_node_history ls1). \<not> hn_check_fencing n"
    using ok start(1,2) start_kernel_state [OF start(4)] by (auto simp: started_ok_def conditions_met_def)
  then have "\<forall>n \<in> set (lo_node_history ls2). \<not> hn_check_fencing n"
    using c fenced_core [of "lo_node_history ls2" "lo_node_history ls1"] by (simp add: core_def)
  then show ?thesis using start(6) by (simp add: started_ok_def)
qed (use ok in simp)


subsection \<open>Configuration changes\<close>

lemma hist_removed:
  assumes "T \<le> now_of io" and "foldl (\<lambda>st x. remove_one c seq x st) (ls, io) left = (ls', io')"
  shows "hist_advances ev T ls ls'"
  using assms
proof (induction left arbitrary: ls io)
  case (Cons x left)
  obtain ls1 io1 where r: "remove_one c seq x (ls, io) = (ls1, io1)" by fastforce
  have "hist_advances ev T ls ls1" "now_of io1 = now_of io"
    using r Cons.prems(1) by (auto simp: remove_one_def now_of_def tell_def hist_left hist_fail [unfolded now_of_def] split: prod.splits if_splits)
  then show ?case using Cons.IH [of io1 ls1] Cons.prems r adv.evolves_trans by auto
qed simp

lemma join_loop_advances:
  "join_loop c is cg ls = (r, ls') \<Longrightarrow> hist_advances ev T ls ls'"
proof (induction "is" arbitrary: cg ls)
  case (Cons i "is")
  then show ?case by (auto simp: Let_def split: if_splits intro: adv.evolves_trans [OF hist_init])
qed simp

lemma join_loop_some:
  assumes "set is \<subseteq> set (map mb_nodeid (cg_members cg))"
  shows "\<exists>cg'. fst (join_loop c is cg ls) = Some cg' \<and> cg_state cg' = cg_state cg"
  using assms
proof (induction "is" arbitrary: cg ls)
  case (Cons i "is")
  have f: "find_memb cg i \<noteq> None" using Cons.prems by (auto simp: find_memb_def find_None_iff)
  define cg1 where "cg1 = upd_memb i (\<lambda>m. m\<lparr>mb_added := True\<rparr>) cg"
  have "map mb_nodeid (cg_members cg1) = map mb_nodeid (cg_members cg)" "cg_state cg1 = cg_state cg"
    by (simp_all add: cg1_def upd_memb_def map_update_first)
  then show ?case
    using Cons.prems f Cons.IH [of "cg1\<lparr>cg_we_joined := True\<rparr>" ls] Cons.IH [of cg1 "node_history_init i (Some (cg_seq cg1)) ls"]
    by (simp add: Let_def cg1_def [symmetric] del: set_map)
qed simp

lemma hist_init_all: "hist_advances ev T ls (foldl (\<lambda>l m. node_history_init (mb_nodeid m) q l) ls ms)"
  by (induction ms arbitrary: ls) (auto intro: adv.evolves_trans [OF hist_init])

lemma add_change_steps:
  assumes "add_change c members left joined ls io = (rv, ls', io')" and j: "set joined \<subseteq> set members"
  obtains seq ls1 where "foldl (\<lambda>st x. remove_one c seq x st) (ls\<lparr>lo_change_seq := seq\<rparr>, io) left = (ls1, io')"
    "\<And>ev T. hist_advances ev T ls1 ls'" "rv = 0" "\<exists>cg older. lo_changes ls' = cg # older \<and> cg_state cg = CGST_WAIT_CONDITIONS"
proof -
  define seq where "seq = (if lo_change_seq ls + 1 = 0 then lo_change_seq ls + 1 + 1 else lo_change_seq ls + 1)"
  define cg where "cg = \<lparr>cg_members = map new_memb members,
    cg_removed = map (\<lambda>(i, r). (new_memb i)\<lparr>mb_failed := reason_failed r\<rparr>) left,
    cg_member_count = word_of_nat (length members), cg_joined_count = word_of_nat (length joined),
    cg_remove_count = word_of_nat (length left), cg_failed_count = word_of_nat (length (filter (\<lambda>(i, r). reason_failed r) left)),
    cg_state = CGST_WAIT_CONDITIONS, cg_we_joined = False, cg_seq = seq, cg_combined_seq = 0, cg_create_time = now_of io\<rparr>"
  obtain ls1 io1 where f: "foldl (\<lambda>st x. remove_one c seq x st) (ls\<lparr>lo_change_seq := seq\<rparr>, io) left = (ls1, io1)" by fastforce
  have "map mb_nodeid (cg_members cg) = members" by (simp add: cg_def new_memb_def comp_def)
  then have "\<exists>cg1. fst (join_loop c joined cg ls1) = Some cg1 \<and> cg_state cg1 = cg_state cg"
    using j join_loop_some [of joined cg c ls1] by (simp del: set_map)
  then obtain cg1 ls2 where g: "join_loop c joined cg ls1 = (Some cg1, ls2)" "cg_state cg1 = CGST_WAIT_CONDITIONS"
    by (cases "join_loop c joined cg ls1") (auto simp: cg_def)
  define ls3 where "ls3 = (if cg_we_joined cg1 then foldl (\<lambda>l m. node_history_init (mb_nodeid m) (Some seq) l) ls2 (cg_members cg1) else ls2)"
  have u: "rv = 0 \<and> io' = io1 \<and> ls' = ls3\<lparr>lo_changes := cg1 # lo_changes ls3\<rparr>"
    using assms(1) unfolding add_change_def Let_def seq_def [symmetric] cg_def [symmetric] f by (simp add: g(1) ls3_def)
  have h: "hist_advances ev T ls1 ls2" "hist_advances ev T ls2 ls3" for ev T
    using join_loop_advances [OF g(1)] by (simp_all add: ls3_def hist_init_all)
  have "hist_advances ev T ls1 ls'" for ev T using adv.evolves_trans [OF h, of ev T] u by simp
  then show thesis using that [OF f [folded conjunct1 [OF conjunct2 [OF u]]]] u g(2) by auto
qed

lemma add_change_state:
  assumes "add_change c members left joined ls io = (rv, ls', io')" and j: "set joined \<subseteq> set members"
  shows "rv = 0" "\<exists>cg older. lo_changes ls' = cg # older \<and> cg_state cg = CGST_WAIT_CONDITIONS"
    and "T \<le> now_of io \<Longrightarrow> hist_advances ev T ls ls'"
proof -
  obtain seq ls1 where s: "foldl (\<lambda>st x. remove_one c seq x st) (ls\<lparr>lo_change_seq := seq\<rparr>, io) left = (ls1, io')"
    "\<And>ev T. hist_advances ev T ls1 ls'" "rv = 0" "\<exists>cg older. lo_changes ls' = cg # older \<and> cg_state cg = CGST_WAIT_CONDITIONS"
    using add_change_steps [OF assms] by metis
  then show "rv = 0" "\<exists>cg older. lo_changes ls' = cg # older \<and> cg_state cg = CGST_WAIT_CONDITIONS" by simp_all
  assume "T \<le> now_of io"
  then show "hist_advances ev T ls ls'" using adv.evolves_trans [OF _ s(2)] hist_removed [OF _ s(1), of T ev] by simp
qed

lemma confchg_steps:
  assumes "confchg_cb c ev members left joined ls io = Some (Some ls', io')" and j: "set joined \<subseteq> set members"
  obtains ls1 io1 ls2 io2 ls3 where "add_change c members left joined ls io = (0, ls1, io1)"
    "lo_kernel_stopped ls2" "lo_changes ls2 = lo_changes ls1" "lo_node_history ls2 = lo_node_history ls1"
    "apply_changes c ev ls2 io2 = Some (ls3, io')" "core ls' = core ls3"
proof -
  obtain rv ls1 io1 where a: "add_change c members left joined ls io = (rv, ls1, io1)" by (metis prod_cases3)
  have rv: "rv = 0" by (rule add_change_state(1) [OF a j])
  obtain l2 io2 where k: "stop_kernel ls1 io1 = (l2, io2)" by fastforce
  have l2: "lo_kernel_stopped l2" "lo_changes l2 = lo_changes ls1" "lo_node_history l2 = lo_node_history ls1"
    using k by (auto simp: stop_kernel_def split: if_splits)
  obtain p pio where g: "purge_nodes (cf_plock c) (map fst left) (lo_plock l2, ci_plock io2) = (p, pio)" by fastforce
  have "\<exists>ls3. apply_changes c ev (l2\<lparr>lo_plock := p\<rparr>) (io2\<lparr>ci_plock := pio\<rparr>) = Some (ls3, io') \<and> core ls' = core ls3"
    using assms(1) unfolding confchg_cb_def Let_def by (auto simp: a rv k g core_simps split: if_splits prod.splits option.splits)
  then show thesis using that [of ls1 io1 "l2\<lparr>lo_plock := p\<rparr>"] a rv l2 by auto
qed

subsection \<open>The failure of a node that has started\<close>

lemma get_upd_history:
  assumes "\<And>n. hn_nodeid (f n) = hn_nodeid n"
  shows "get_node_history (upd_history i f ls) j =
    (if j = i then map_option f (get_node_history ls i) else get_node_history ls j)"
proof (cases "j = i")
  case True
  then show ?thesis by (simp add: get_node_history_def upd_history_def find_update_first assms)
next
  case False
  have "find (\<lambda>n. hn_nodeid n = j) (update_first (\<lambda>n. hn_nodeid n = i) f (lo_node_history ls)) = find (\<lambda>n. hn_nodeid n = j) (lo_node_history ls)"
    by (rule find_update_first_other) (use False assms in auto)
  then show ?thesis using False by (simp add: get_node_history_def upd_history_def)
qed

lemma remove_one_other:
  "fst x \<noteq> i \<Longrightarrow> get_node_history (fst (remove_one c seq x st)) i = get_node_history (fst st) i"
  by (cases x; cases st)
     (auto simp: remove_one_def node_history_fail_def node_history_left_def get_upd_history Let_def)

lemma remove_others:
  "i \<notin> fst ` set left \<Longrightarrow> get_node_history (fst (foldl (\<lambda>st x. remove_one c seq x st) st left)) i = get_node_history (fst st) i"
  by (induction left arbitrary: st) (auto simp: remove_one_other)

lemma now_remove: "now_of (snd (foldl (\<lambda>st x. remove_one c seq x st) st left)) = now_of (snd st)"
proof (induction left arbitrary: st)
  case (Cons x left)
  have "now_of (snd (remove_one c seq x st)) = now_of (snd st)" by (cases x; cases st) (simp add: remove_one_def tell_def now_of_def)
  then show ?case using Cons by simp
qed simp

lemma removed_waits:
  assumes "cf_enable_fencing c" and "distinct (map fst left)" and "(i, r) \<in> set left" and "reason_failed r"
    and "get_node_history ls i = Some n" and "hn_add_time n \<noteq> 0"
    and "foldl (\<lambda>st x. remove_one c seq x st) (ls, io) left = (ls', io')"
  shows "\<exists>m. get_node_history ls' i = Some m \<and> waits (now_of io) m"
proof -
  obtain p q where s: "left = p @ (i, r) # q" using split_list [OF assms(3)] by blast
  have d: "i \<notin> fst ` set p" "i \<notin> fst ` set q" using assms(2) by (auto simp: s)
  define st where "st = foldl (\<lambda>st x. remove_one c seq x st) (ls, io) p"
  have st: "get_node_history (fst st) i = Some n" "now_of (snd st) = now_of io"
    using remove_others [OF d(1), of c seq "(ls, io)"] assms(5) now_remove [of c seq "(ls, io)" p] by (simp_all add: st_def)
  have "get_node_history ls' i = get_node_history (fst (remove_one c seq (i, r) st)) i"
    using remove_others [OF d(2), of c seq "remove_one c seq (i, r) st"] assms(7) by (simp add: s st_def)
  also have "\<dots> = get_node_history (node_history_fail c i seq (reason_code r) (now_of io) (fst st)) i"
    using assms(4) st(2) by (cases st) (simp add: remove_one_def)
  finally show ?thesis using st(1) assms(1,6) by (auto simp: node_history_fail_def get_upd_history Let_def waits_def)
qed

lemma confchg_waits:
  assumes "ls_next c (Confchg members left joined, ev, io) ls = Some ls'" and j: "set joined \<subseteq> set members"
    and f: "cf_enable_fencing c" "distinct (map fst left)" "(i, r) \<in> set left" "reason_failed r"
    and n: "get_node_history ls i = Some n" "hn_add_time n \<noteq> 0"
  shows "(\<exists>m \<in> set (lo_node_history ls'). hn_nodeid m = i \<and> waits (now_of io) m) \<or> answered ev (now_of io) i"
proof -
  obtain io' where cb: "confchg_cb c ev members left joined ls io = Some (Some ls', io')"
    using assms(1) by (auto simp: ls_next_def split: option.splits prod.splits)
  obtain ls1 io1 ls2 io2 ls3 where s: "add_change c members left joined ls io = (0, ls1, io1)"
    "lo_node_history ls2 = lo_node_history ls1" "apply_changes c ev ls2 io2 = Some (ls3, io')" "core ls' = core ls3"
    using confchg_steps [OF cb j] by metis
  obtain seq l0 where a: "foldl (\<lambda>st x. remove_one c seq x st) (ls\<lparr>lo_change_seq := seq\<rparr>, io) left = (l0, io1)"
    "hist_advances ev (now_of io) l0 ls1" using add_change_steps [OF s(1) j] by metis
  obtain m where m: "get_node_history l0 i = Some m" "waits (now_of io) m"
    using removed_waits [OF f _ n(2) a(1)] n(1) by (auto simp: get_node_history_def)
  have "hist_advances ev (now_of io) l0 ls'"
    using a(2) hist_apply [OF s(3), of "now_of io"] hist_core [OF s(4), of ev "now_of io"] s(2) adv.evolves_trans by metis
  moreover have "m \<in> set (lo_node_history l0)" "hn_nodeid m = i" using m(1) by (auto simp: get_node_history_def find_Some_iff)
  ultimately obtain m' where "m' \<in> set (lo_node_history ls')" "advances ev (now_of io) m m'" using adv.evolves_member by blast
  then show ?thesis using m(2) \<open>hn_nodeid m = i\<close> by (auto simp: advances_def)
qed

subsection \<open>All events\<close>

lemma hist_update: "(\<And>n. advances ev T n (f n)) \<Longrightarrow> hist_advances ev T ls (upd_history i f ls)"
  by (simp add: upd_history_def adv.evolves_update_first)

lemma hist_next:
  assumes "ls_next c (e, ev, io) ls = Some ls'" and "wf_event e" and "T \<le> now_of io"
  shows "hist_advances ev T ls ls'"
proof (cases e)
  case (Deliver_msg i h pl)
  have sw: "deliver_switch c ev h pl ls io = Some (l, io1) \<Longrightarrow> apply_changes c ev l io1 = Some (ls', io2) \<Longrightarrow> ?thesis" for l io1 io2
    by (rule adv.evolves_trans [OF hist_core [OF core_switch] hist_apply])
  show ?thesis using assms(1) Deliver_msg sw by (auto simp: ls_next_def deliver_cb_def split: if_splits option.splits prod.splits)
next
  case (Confchg members left joined)
  then obtain io' where cb: "confchg_cb c ev members left joined ls io = Some (Some ls', io')"
    using assms(1) by (auto simp: ls_next_def split: option.splits prod.splits)
  have j: "set joined \<subseteq> set members" using assms(2) Confchg by (simp add: wf_event_def)
  obtain ls1 io1 ls2 io2 ls3 where s: "add_change c members left joined ls io = (0, ls1, io1)"
    "lo_node_history ls2 = lo_node_history ls1" "apply_changes c ev ls2 io2 = Some (ls3, io')" "core ls' = core ls3"
    using confchg_steps [OF cb j] by metis
  show ?thesis
    using add_change_state(3) [OF s(1) j assms(3), of ev] hist_apply [OF s(3), of T] hist_core [OF s(4), of ev T] s(2) adv.evolves_trans
    by metis
next
  case (Fs_notified i)
  have "hist_advances ev T ls (upd_history i (\<lambda>n. n\<lparr>hn_fs_notified := True\<rparr>) ls)" by (rule hist_update) (simp add: advances_def waits_def)
  then show ?thesis using assms(1) Fs_notified by (auto simp: ls_next_def set_fs_notified_def split: option.splits if_splits)
next
  case (Cluster_add i)
  have "hist_advances ev T (node_history_init i None ls) (upd_history i (\<lambda>n. n\<lparr>hn_cluster_add_time := t\<rparr>) (node_history_init i None ls))" for t
    by (rule hist_update) (simp add: advances_def waits_def)
  then show ?thesis using assms(1) Cluster_add hist_init [of ev T ls i None] adv.evolves_trans
    by (auto simp: ls_next_def node_history_cluster_add_def)
next
  case (Cluster_remove i)
  have "hist_advances ev T ls (upd_history i (\<lambda>n. n\<lparr>hn_cluster_remove_time := t\<rparr>) ls)" for t
    by (rule hist_update) (simp add: advances_def waits_def)
  then show ?thesis using assms(1) Cluster_remove by (auto simp: ls_next_def split: if_splits)
qed (use assms(1) in \<open>auto simp: ls_next_def dlm_leave_lockspace_def intro: hist_apply\<close>)

lemma started_ok_frame:
  assumes "started_ok ls" and "lo_kernel_stopped ls' = lo_kernel_stopped ls" and "lo_changes ls' = lo_changes ls"
    and "\<And>n. n \<in> set (lo_node_history ls') \<Longrightarrow> hn_check_fencing n \<Longrightarrow> \<exists>m \<in> set (lo_node_history ls). hn_check_fencing m"
  shows "started_ok ls'"
  using assms unfolding started_ok_def conditions_met_def by auto

lemma started_upd_history:
  assumes "started_ok ls" and "\<And>n. hn_check_fencing (f n) = hn_check_fencing n"
  shows "started_ok (upd_history i f ls)"
  using assms(1) by (rule started_ok_frame) (auto simp: upd_history_def assms(2) dest!: set_update_first [THEN subsetD])

lemma started_init:
  assumes "started_ok ls"
  shows "started_ok (node_history_init i seq ls)"
proof -
  have "started_ok (if b then ls\<lparr>lo_node_history := lo_node_history ls @ [zero_hnode i]\<rparr> else ls)" for b
    using assms by (rule started_ok_frame) (auto simp: zero_hnode_def split: if_splits)
  then show ?thesis unfolding node_history_init_def Let_def by (cases seq) (simp_all add: started_upd_history)
qed

lemma started_next:
  assumes "ls_next c (e, ev, io) ls = Some ls'" and "wf_event e" and fe: "cf_enable_fencing c" and ok: "started_ok ls"
  shows "started_ok ls'"
proof (cases e)
  case (Deliver_msg i h pl)
  have sw: "deliver_switch c ev h pl ls io = Some (l, io1) \<Longrightarrow> apply_changes c ev l io1 = Some (ls', io2) \<Longrightarrow> ?thesis" for l io1 io2
    using started_apply [OF _ fe, of ev l io1 ls' io2] started_ok_core [OF core_switch, of c ev h pl ls io l io1] ok by simp
  show ?thesis using assms(1) Deliver_msg sw ok by (auto simp: ls_next_def deliver_cb_def split: if_splits option.splits prod.splits)
next
  case (Confchg members left joined)
  then obtain io' where cb: "confchg_cb c ev members left joined ls io = Some (Some ls', io')"
    using assms(1) by (auto simp: ls_next_def split: option.splits prod.splits)
  have j: "set joined \<subseteq> set members" using assms(2) Confchg by (simp add: wf_event_def)
  obtain ls1 io1 ls2 io2 ls3 where s: "add_change c members left joined ls io = (0, ls1, io1)" "lo_kernel_stopped ls2"
    "lo_changes ls2 = lo_changes ls1" "apply_changes c ev ls2 io2 = Some (ls3, io')" "core ls' = core ls3"
    using confchg_steps [OF cb j] by metis
  have "started_ok ls2" using add_change_state(2) [OF s(1) j] s(2,3) by (auto simp: started_ok_def conditions_met_def)
  then show ?thesis using started_apply [OF s(4) fe] started_ok_core [OF s(5)] by simp
next
  case Poll
  then show ?thesis using assms(1) started_apply [OF _ fe _, of ev ls io] ok by (auto simp: ls_next_def)
next
  case (Fs_notified i)
  then show ?thesis using assms(1) ok
    by (auto simp: ls_next_def set_fs_notified_def started_upd_history split: option.splits if_splits)
next
  case (Cluster_add i)
  then show ?thesis using assms(1) started_init [OF ok] by (auto simp: ls_next_def node_history_cluster_add_def started_upd_history)
next
  case (Cluster_remove i)
  then show ?thesis using assms(1) ok by (auto simp: ls_next_def started_upd_history split: if_splits)
qed (use assms(1) ok in \<open>auto simp: ls_next_def dlm_leave_lockspace_def started_ok_def conditions_met_def\<close>)

section \<open>Runs\<close>

lemma run_started:
  assumes "ls_run c xs ls = Some ls'" and "\<forall>x \<in> set xs. wf_event (fst x)" and "cf_enable_fencing c" and "started_ok ls"
  shows "started_ok ls'"
  using assms
proof (induction xs arbitrary: ls)
  case (Cons x xs)
  obtain e ev io where x: "x = (e, ev, io)" by (cases x)
  obtain ls1 where n: "ls_next c x ls = Some ls1" "ls_run c xs ls1 = Some ls'" using Cons.prems(1) by (auto split: option.splits)
  show ?case using Cons.IH [OF n(2)] Cons.prems started_next [of c e ev io ls ls1] n(1) x by simp
qed simp

lemma run_advances:
  assumes "ls_run c xs ls = Some ls'" and "\<forall>(e, ev, io) \<in> set xs. wf_event e \<and> T \<le> now_of io"
    and "n \<in> set (lo_node_history ls)" and "waits T n"
  shows "(\<exists>m \<in> set (lo_node_history ls'). waits T m) \<or> (\<exists>(e, ev, io) \<in> set xs. answered ev T (hn_nodeid n))"
  using assms
proof (induction xs arbitrary: ls n)
  case (Cons x xs)
  obtain e ev io where x: "x = (e, ev, io)" by (cases x)
  obtain ls1 where r: "ls_next c x ls = Some ls1" "ls_run c xs ls1 = Some ls'" using Cons.prems(1) by (auto split: option.splits)
  have "hist_advances ev T ls ls1" using hist_next r(1) Cons.prems(2) x by auto
  then obtain m where m: "m \<in> set (lo_node_history ls1)" "advances ev T n m" using adv.evolves_member Cons.prems(3) by blast
  show ?case
  proof (cases "waits T m")
    case True
    then show ?thesis using Cons.IH [OF r(2) _ m(1)] Cons.prems(2) m(2) by (auto simp: advances_def)
  next
    case False
    then show ?thesis using m(2) Cons.prems(4) x by (auto simp: advances_def)
  qed
qed auto

lemma run_notified:
  assumes "ls_run c xs ls = Some ls'" and "\<forall>x \<in> set xs. wf_event (fst x)"
    and "get_node_history ls i = Some n" and "hn_fs_notified n"
  shows "\<exists>m. get_node_history ls' i = Some m \<and> hn_fs_notified m"
  using assms
proof (induction xs arbitrary: ls n)
  case (Cons x xs)
  obtain e ev io where x: "x = (e, ev, io)" by (cases x)
  obtain ls1 where r: "ls_next c x ls = Some ls1" "ls_run c xs ls1 = Some ls'" using Cons.prems(1) by (auto split: option.splits)
  have "hist_advances ev 0 ls ls1" using hist_next r(1) Cons.prems(2) x by auto
  then obtain m where "get_node_history ls1 i = Some m" "advances ev 0 n m"
    using adv.evolves_find [of ev 0 "lo_node_history ls" "lo_node_history ls1" i n] Cons.prems(3)
    by (auto simp: get_node_history_def advances_def)
  then show ?case using Cons.IH [OF r(2)] Cons.prems(2,4) by (auto simp: advances_def)
qed auto

lemma joined_started: "dlm_join_lockspace c ev ini crc joined new io = (0, Some ls, io') \<Longrightarrow> lo_changes new = [] \<Longrightarrow> started_ok ls"
  by (auto simp: dlm_join_lockspace_def upd_plock_def started_ok_def conditions_met_def split: if_splits)

lemma restart_answered:
  assumes "ls_run c ((Confchg members left joined, ev, io) # after) ls = Some ls'" and "started_ok ls"
    and "cf_enable_fencing c" "distinct (map fst left)" "(i, r) \<in> set left" "reason_failed r"
    and "get_node_history ls i = Some n" "hn_add_time n \<noteq> 0" "set joined \<subseteq> set members"
    and "\<forall>(e, ev', io') \<in> set after. wf_event e \<and> now_of io \<le> now_of io'" and "\<not> lo_kernel_stopped ls'"
  shows "\<exists>(e, ev', io') \<in> set ((Confchg members left joined, ev, io) # after). answered ev' (now_of io) i"
proof -
  obtain ls1 where s: "ls_next c (Confchg members left joined, ev, io) ls = Some ls1" "ls_run c after ls1 = Some ls'"
    using assms(1) by (auto split: option.splits)
  have wf: "wf_event (Confchg members left joined)" using assms(9) by (simp add: wf_event_def)
  have "\<forall>x \<in> set after. wf_event (fst x)" using assms(10) by fastforce
  then have "started_ok ls'" using run_started [OF s(2) _ assms(3) started_next [OF s(1) wf assms(3,2)]] by simp
  then have none: "\<not> (\<exists>m \<in> set (lo_node_history ls'). waits (now_of io) m)"
    using assms(11) by (auto simp: started_ok_def conditions_met_def waits_def)
  show ?thesis
  proof (cases "answered ev (now_of io) i")
    case False
    then obtain m where "m \<in> set (lo_node_history ls1)" "hn_nodeid m = i" "waits (now_of io) m"
      using confchg_waits [OF s(1) assms(9,3-8)] by blast
    then show ?thesis using run_advances [OF s(2) assms(10)] none by fastforce
  qed simp
qed

end
