(* ===== verification/Cpg_Transfer.thy ===== *)
theory Cpg_Transfer imports Cpg_Runs begin

text \<open>
  The transfer of plock state to a node that joins: the node with the lowest id that has the state stores
  it in a checkpoint when the kernel restarts and says so; the joining node saves plock messages from its
  own restart on, reads the checkpoint when the message comes and applies what it saved.
\<close>

section \<open>Plock messages during the transfer\<close>

text \<open>The same plock messages, delivered to one node or the other with its own surroundings.\<close>

definition plock_msgs ::
  "u16 \<times> u16 \<times> u16 \<Rightarrow> (dlm_header \<times> dlm_plock_info) list \<Rightarrow> (ls_event \<times> cpg_env \<times> cpg_io) list \<Rightarrow> bool" where
  "plock_msgs v ms xs \<longleftrightarrow>
     list_all2 (\<lambda>(h, i) (e, ev, io). e = Deliver_msg (dh_nodeid h) h (Request i) \<and> dh_type h = DLM_MSG_PLOCK \<and>
       dh_version h = v \<and> mem_ok (io_mem (ci_plock io))) ms xs"

definition view_msgs :: "bool \<Rightarrow> (u64 \<Rightarrow> rstate) \<Rightarrow> (dlm_header \<times> dlm_plock_info) list \<Rightarrow> u64 \<Rightarrow> rstate" where
  "view_msgs be V ms = foldl (\<lambda>V (h, i). view_deliver V (dh_nodeid h) (info_bswap_in be i)) V ms"

lemma plock_msgs_Nil [simp]: "plock_msgs v [] xs \<longleftrightarrow> xs = []"
  by (simp add: plock_msgs_def)

lemma plock_msgs_Cons:
  "plock_msgs v ((h, i) # ms) xs \<longleftrightarrow> (\<exists>ev io ys. xs = (Deliver_msg (dh_nodeid h) h (Request i), ev, io) # ys \<and>
     dh_type h = DLM_MSG_PLOCK \<and> dh_version h = v \<and> mem_ok (io_mem (ci_plock io)) \<and> plock_msgs v ms ys)"
  unfolding plock_msgs_def list_all2_Cons1 by (auto split: prod.splits)

text \<open>A node that has the state applies the messages; one that waits for it keeps them.\<close>

definition serving :: "cpg_cfg \<Rightarrow> lockspace \<Rightarrow> bool" where
  "serving c ls \<longleftrightarrow> lo_changes ls = [] \<and> \<not> lo_need_plocks ls \<and> replicating (cf_plock c) (lo_plock ls)"

definition saving :: "cpg_cfg \<Rightarrow> lockspace \<Rightarrow> bool" where
  "saving c ls \<longleftrightarrow> lo_changes ls = [] \<and> lo_need_plocks ls \<and> ls_save_plocks (lo_plock ls) \<and> \<not> ls_disable_plock (lo_plock ls) \<and>
     cfgd_enable_plock (cf_plock c)"

lemma apply_none [simp]: "lo_changes ls = [] \<Longrightarrow> apply_changes c ev ls io = Some (ls, io)"
  by (simp add: apply_changes_def)

lemma serving_next:
  assumes "serving c ls" and "dh_type h = DLM_MSG_PLOCK" "dh_version h = cf_daemon_run c" "mem_ok (io_mem (ci_plock io))"
  shows "\<exists>ls'. ls_next c (Deliver_msg (dh_nodeid h) h (Request i), ev, io) ls = Some ls' \<and> serving c ls' \<and>
    lsview (lo_plock ls') = view_deliver (lsview (lo_plock ls)) (dh_nodeid h) (info_bswap_in (big_endian (cf_plock c)) i)"
proof -
  obtain p pio where n: "receive_plock_now (cf_plock c) (lo_plock ls) (plock_of h i) (ci_plock io) = (p, pio)" by fastforce
  have r: "\<not> cfgd_plock_ownership (cf_plock c)" "ls_repl (lo_plock ls)" "cfgd_enable_plock (cf_plock c)" "ls_mode (lo_plock ls) = (False, False)"
    using assms(1) by (simp_all add: serving_def replicating_def)
  note v = receive_plock_now_view [OF n r(1,2) assms(4)]
  have m: "ls_mode p = ls_mode (lo_plock ls)" using receive_plock_now_mode [of "cf_plock c" "lo_plock ls" "plock_of h i" "ci_plock io"] n by simp
  have "ls_next c (Deliver_msg (dh_nodeid h) h (Request i), ev, io) ls = Some (ls\<lparr>lo_plock := p\<rparr>)"
    using assms n r(3,4) by (simp add: ls_next_def deliver_cb_def deliver_switch_def ignore_plock_def on_plock_def receive_plock_def serving_def ls_mode_def)
  then show ?thesis using v m r assms(1) by (simp add: serving_def replicating_def plock_of_def)
qed

lemma serving_run:
  assumes "plock_msgs (cf_daemon_run c) ms xs" and "serving c ls"
  shows "\<exists>ls'. ls_run c xs ls = Some ls' \<and> serving c ls' \<and> lsview (lo_plock ls') = view_msgs (big_endian (cf_plock c)) (lsview (lo_plock ls)) ms"
  using assms
proof (induction ms arbitrary: xs ls)
  case (Cons m ms)
  obtain h i where m: "m = (h, i)" by fastforce
  obtain ev io ys where x: "xs = (Deliver_msg (dh_nodeid h) h (Request i), ev, io) # ys" "dh_type h = DLM_MSG_PLOCK"
    "dh_version h = cf_daemon_run c" "mem_ok (io_mem (ci_plock io))" "plock_msgs (cf_daemon_run c) ms ys"
    using Cons.prems(1) by (auto simp: m plock_msgs_Cons)
  obtain ls1 where s: "ls_next c (Deliver_msg (dh_nodeid h) h (Request i), ev, io) ls = Some ls1" "serving c ls1"
    "lsview (lo_plock ls1) = view_deliver (lsview (lo_plock ls)) (dh_nodeid h) (info_bswap_in (big_endian (cf_plock c)) i)"
    using serving_next [OF Cons.prems(2) x(2-4)] by blast
  show ?case using Cons.IH [OF x(5) s(2)] s(1,3) by (simp add: x(1) m view_msgs_def)
qed (simp add: view_msgs_def)

definition saved_of :: "(dlm_header \<times> dlm_plock_info) list \<Rightarrow> save_msg list" where
  "saved_of ms = map (\<lambda>(h, i). \<lparr>sm_nodeid = dh_nodeid h, sm_type = DLM_MSG_PLOCK, sm_buf = plock_of h i\<rparr>) ms"

lemma saving_next:
  assumes "saving c ls" and "dh_type h = DLM_MSG_PLOCK" "dh_version h = cf_daemon_run c" "mem_ok (io_mem (ci_plock io))"
  shows "ls_next c (Deliver_msg (dh_nodeid h) h (Request i), ev, io) ls =
    Some (ls\<lparr>lo_plock := lo_plock ls\<lparr>ls_saved_messages := ls_saved_messages (lo_plock ls) @ saved_of [(h, i)]\<rparr>\<rparr>)"
  using assms by (simp add: ls_next_def deliver_cb_def deliver_switch_def ignore_plock_def on_plock_def receive_plock_def saving_def
      save_message_def Let_def split_beta saved_of_def plock_of_def)

lemma saving_run:
  assumes "plock_msgs (cf_daemon_run c) ms xs" and "saving c ls"
  shows "ls_run c xs ls = Some (ls\<lparr>lo_plock := lo_plock ls\<lparr>ls_saved_messages := ls_saved_messages (lo_plock ls) @ saved_of ms\<rparr>\<rparr>)"
  using assms
proof (induction ms arbitrary: xs ls)
  case (Cons m ms)
  obtain h i where m: "m = (h, i)" by fastforce
  obtain ev io ys where x: "xs = (Deliver_msg (dh_nodeid h) h (Request i), ev, io) # ys" "dh_type h = DLM_MSG_PLOCK"
    "dh_version h = cf_daemon_run c" "mem_ok (io_mem (ci_plock io))" "plock_msgs (cf_daemon_run c) ms ys"
    using Cons.prems(1) by (auto simp: m plock_msgs_Cons)
  define ls1 where "ls1 = ls\<lparr>lo_plock := lo_plock ls\<lparr>ls_saved_messages := ls_saved_messages (lo_plock ls) @ saved_of [(h, i)]\<rparr>\<rparr>"
  have "saving c ls1" using Cons.prems(2) by (simp add: ls1_def saving_def)
  from Cons.IH [OF x(5) this] show ?case
    using saving_next [OF Cons.prems(2) x(2-4), of i ev] by (simp add: x(1) m ls1_def saved_of_def)
qed (simp add: saved_of_def)


section \<open>The restart\<close>

text \<open>A node whose newest change has all its start messages, with plocks in use and other nodes around.\<close>

definition about_to_start :: "cpg_cfg \<Rightarrow> lockspace \<Rightarrow> change \<Rightarrow> change list \<Rightarrow> bool" where
  "about_to_start c ls cg older \<longleftrightarrow> lo_changes ls = cg # older \<and> cg_state cg = CGST_WAIT_MESSAGES \<and> wait_messages_done cg \<and>
     cfgd_enable_plock (cf_plock c) \<and> \<not> cfgd_plock_ownership (cf_plock c) \<and> \<not> ls_disable_plock (lo_plock ls) \<and> cg_member_count cg \<noteq> 1"

lemma start_kernel_frame:
  "start_kernel cg older ls io = (ls', io') \<Longrightarrow>
     lo_plock ls' = lo_plock ls \<and> lo_need_plocks ls' = lo_need_plocks ls \<and> lo_changes ls' = lo_changes ls \<and>
     lo_plock_ckpt_node ls' = lo_plock_ckpt_node ls \<and> lo_node_history ls' = lo_node_history ls \<and>
     (\<exists>es. ci_effects io' = ci_effects io @ es \<and> (\<forall>secs. Stored_sections secs \<notin> set es)) \<and> ci_plock io' = ci_plock io"
  by (auto simp: start_kernel_def Let_def tell_def split: if_splits)

lemma store_frame:
  assumes "store_plocks c u h create sig0 p pio = Some (sig, p', secs)"
  shows "ls_plock_resources p' = ls_plock_resources p \<and> ls_save_plocks p' = ls_save_plocks p"
  using assms by (auto simp: store_plocks_def Let_def store_out_def store_fail_def unlink_checkpoint_def split: if_splits option.splits prod.splits)

lemma store_disables:
  assumes "store_plocks c u (Some h) (\<lambda>_. True) sig0 p pio = Some (sig, p', secs)"
  shows "ls_disable_plock p' = ls_disable_plock p"
proof -
  have ok: "store_loop c (\<lambda>_. True) rs nf nl = Some (ok, x) \<Longrightarrow> ok" for rs nf nl ok x
    by (induction rs arbitrary: nf nl x) (auto simp: Let_def split: option.splits)
  show ?thesis using assms
    by (auto simp: store_plocks_def Let_def store_out_def unlink_checkpoint_def dest: ok split: if_splits option.splits prod.splits)
qed

text \<open>The node with the lowest id that has the state stores it and says so.\<close>

lemma storing_start:
  assumes a: "about_to_start c ls cg older" and low: "low_plock_node (cg_members cg) = us c" "us c \<noteq> 0"
    and n: "\<not> lo_need_plocks ls" and ev: "ev_ckpt_handle ev = Some hdl" "ev_ckpt_create ev = (\<lambda>_. True)"
    and "apply_changes c ev ls io = Some (ls', io')"
    and st: "Stored_sections secs \<in> set (drop (length (ci_effects io)) (ci_effects io'))"
  obtains sig p l2 io2 where "store_plocks (cf_plock c) (ev_unlinked ev) (Some hdl) (\<lambda>_. True) (ev_sig0 ev) (lo_plock ls) (ci_plock io) = Some (sig, p, Some secs)"
    "lo_plock ls' = p" "lo_changes ls' = []" "\<not> lo_need_plocks ls'"
    "io' = send_plocks_stored c l2 cg sig io2"
proof -
  obtain ls1 io1 where k: "start_kernel cg older ls io = (ls1, io1)" by fastforce
  note kf = start_kernel_frame [OF k]
  obtain ls2 where p: "prepare_plocks c ev cg ls1 io1 = Some (ls2, io')" "ls' = cleanup_changes cg older ls2"
    using assms(7) a k by (auto simp: apply_changes_def about_to_start_def split: option.splits prod.splits)
  define l where "l = ls1\<lparr>lo_plock_ckpt_node := us c\<rparr>"
  have l: "set_plock_ckpt_node c cg ls1 = l" by (simp add: set_plock_ckpt_node_def Let_def low(1) l_def)
  note u = p(1) [unfolded prepare_plocks_def Let_def l]
  have "\<exists>sig p. store_plocks (cf_plock c) (ev_unlinked ev) (Some hdl) (\<lambda>_. True) (ev_sig0 ev) (lo_plock ls) (ci_plock io) = Some (sig, p, Some secs) \<and>
     ls2 = l\<lparr>lo_plock := p, lo_last_plock_sig := sig\<rparr> \<and> io' = send_plocks_stored c ls2 cg sig (tell (Stored_sections secs) io1)"
    using u st a n ev kf low(2)
    by (auto simp: about_to_start_def l_def send_plocks_stored_def send_info_def tell_def Let_def split: if_splits option.splits prod.splits)
  then obtain sig q where q: "store_plocks (cf_plock c) (ev_unlinked ev) (Some hdl) (\<lambda>_. True) (ev_sig0 ev) (lo_plock ls) (ci_plock io) = Some (sig, q, Some secs)"
     "ls2 = l\<lparr>lo_plock := q, lo_last_plock_sig := sig\<rparr>" "io' = send_plocks_stored c ls2 cg sig (tell (Stored_sections secs) io1)" by blast
  show thesis
    by (rule that [OF q(1) _ _ _ q(3)]) (use q(2) p(2) n kf in \<open>simp_all add: l_def\<close>)
qed

text \<open>If no node joined by the changes that are now done, the old signature is sent and nothing is stored.\<close>

lemma resending_start:
  assumes a: "about_to_start c ls cg older" and low: "low_plock_node (cg_members cg) = us c" "us c \<noteq> 0"
    and n: "\<not> lo_need_plocks ls" "\<not> nodes_added ls" and "apply_changes c ev ls io = Some (ls', io')"
  obtains l2 io2 where "lo_plock ls' = lo_plock ls" "lo_changes ls' = []" "\<not> lo_need_plocks ls'"
    "io' = send_plocks_stored c l2 cg (lo_last_plock_sig ls) io2"
proof -
  obtain ls1 io1 where k: "start_kernel cg older ls io = (ls1, io1)" by fastforce
  note kf = start_kernel_frame [OF k]
  have sig: "lo_last_plock_sig ls1 = lo_last_plock_sig ls" using k by (auto simp: start_kernel_def Let_def split: if_splits)
  obtain ls2 where p: "prepare_plocks c ev cg ls1 io1 = Some (ls2, io')" "ls' = cleanup_changes cg older ls2"
    using assms(6) a k by (auto simp: apply_changes_def about_to_start_def split: option.splits prod.splits)
  define l where "l = ls1\<lparr>lo_plock_ckpt_node := us c\<rparr>"
  have l: "set_plock_ckpt_node c cg ls1 = l" by (simp add: set_plock_ckpt_node_def Let_def low(1) l_def)
  have "ls2 = l \<and> io' = send_plocks_stored c l cg (lo_last_plock_sig ls) io1"
    using p(1) [unfolded prepare_plocks_def Let_def l] a n kf sig low(2)
    by (auto simp: about_to_start_def l_def nodes_added_def split: if_splits)
  then show thesis using that [of l io1] p(2) n kf by (simp add: l_def)
qed

text \<open>Either way the node goes on serving with the state it had.\<close>

lemma storing_serves:
  assumes a: "about_to_start c ls cg older" "low_plock_node (cg_members cg) = us c" "us c \<noteq> 0" "\<not> lo_need_plocks ls"
    and p: "\<not> ls_save_plocks (lo_plock ls)" "ls_repl (lo_plock ls)"
    and ev: "ev_ckpt_handle ev = Some hdl" "ev_ckpt_create ev = (\<lambda>_. True)" "apply_changes c ev ls io = Some (ls', io')"
      "Stored_sections secs \<in> set (drop (length (ci_effects io)) (ci_effects io'))"
  shows "serving c ls'" "lsview (lo_plock ls') = lsview (lo_plock ls)"
proof -
  obtain sig p where st: "store_plocks (cf_plock c) (ev_unlinked ev) (Some hdl) (\<lambda>_. True) (ev_sig0 ev) (lo_plock ls) (ci_plock io) = Some (sig, p, Some secs)"
    "lo_plock ls' = p" "lo_changes ls' = []" "\<not> lo_need_plocks ls'"
    using storing_start [OF a ev] by metis
  show "serving c ls'" "lsview (lo_plock ls') = lsview (lo_plock ls)"
    using store_frame [OF st(1)] store_disables [OF st(1)] st(2-4) p a(1)
    by (simp_all add: serving_def replicating_def ls_mode_def ls_repl_def about_to_start_def lsview_list)
qed

lemma resending_serves:
  assumes a: "about_to_start c ls cg older" "low_plock_node (cg_members cg) = us c" "us c \<noteq> 0" "\<not> lo_need_plocks ls" "\<not> nodes_added ls"
    and p: "\<not> ls_save_plocks (lo_plock ls)" "ls_repl (lo_plock ls)" and ap: "apply_changes c ev ls io = Some (ls', io')"
  shows "serving c ls'" "lo_plock ls' = lo_plock ls"
  using resending_start [OF a ap] a(1) p
  by (simp_all add: serving_def replicating_def ls_mode_def about_to_start_def) metis+

text \<open>A node that needs the state starts to save messages.\<close>

lemma waiting_start:
  assumes a: "about_to_start c ls cg older" and low: "low_plock_node (cg_members cg) \<noteq> 0" and n: "lo_need_plocks ls"
    and "apply_changes c ev ls io = Some (ls', io')"
  shows "saving c ls'" "ls_plock_resources (lo_plock ls') = ls_plock_resources (lo_plock ls)"
    "ls_saved_messages (lo_plock ls') = ls_saved_messages (lo_plock ls)" "lo_node_history ls' = lo_node_history ls"
    "\<exists>q. lo_started_change ls' = Some (cg\<lparr>cg_combined_seq := q\<rparr>)"
proof -
  obtain ls1 io1 where k: "start_kernel cg older ls io = (ls1, io1)" by fastforce
  note kf = start_kernel_frame [OF k]
  obtain ls2 where p: "prepare_plocks c ev cg ls1 io1 = Some (ls2, io')" "ls' = cleanup_changes cg older ls2"
    using assms(4) a k by (auto simp: apply_changes_def about_to_start_def split: option.splits prod.splits)
  have "ls2 = upd_plock (\<lambda>p. p\<lparr>ls_save_plocks := True\<rparr>) (set_plock_ckpt_node c cg ls1)"
    using p(1) a low n kf by (auto simp: prepare_plocks_def Let_def about_to_start_def set_plock_ckpt_node_def split: if_splits)
  then show "saving c ls'" "ls_plock_resources (lo_plock ls') = ls_plock_resources (lo_plock ls)"
    "ls_saved_messages (lo_plock ls') = ls_saved_messages (lo_plock ls)" "lo_node_history ls' = lo_node_history ls"
    "\<exists>q. lo_started_change ls' = Some (cg\<lparr>cg_combined_seq := q\<rparr>)"
    using p(2) kf n a
    by (auto simp: saving_def upd_plock_def set_plock_ckpt_node_def Let_def close_plock_checkpoint_def about_to_start_def cleanup_changes_def)
qed


section \<open>The transfer\<close>

text \<open>What node \<open>from\<close> calls \<open>cg\<close> and what we call \<open>cg'\<close> are the same change.\<close>

definition same_change :: "cpg_cfg \<Rightarrow> lockspace \<Rightarrow> u32 \<Rightarrow> change \<Rightarrow> change \<Rightarrow> bool" where
  "same_change c ls from cg cg' \<longleftrightarrow>
     set (format_member_ids cg) = set (format_member_ids cg') \<and> us c \<in> set (format_member_ids cg) \<and>
     cg_member_count cg = word_of_nat (length (cg_members cg)) \<and> length (cg_members cg) < 2 ^ 32 \<and>
     cg_member_count cg' = cg_member_count cg \<and> cg_joined_count cg' = cg_joined_count cg \<and>
     cg_remove_count cg' = cg_remove_count cg \<and> cg_failed_count cg' = cg_failed_count cg \<and>
     (case find_memb cg' from of None \<Rightarrow> False | Some m \<Rightarrow> \<not> flag_set (mb_start_flags m) DLM_MFLG_NACK) \<and>
     (case get_node_history ls from of None \<Rightarrow> False | Some n \<Rightarrow> hn_cluster_add_time n \<le> cg_create_time cg')"

lemma find_memb_ids: "find_memb cg i \<noteq> None \<longleftrightarrow> i \<in> set (format_member_ids cg)"
  by (auto simp: find_memb_def format_member_ids_def find_None_iff)

lemma ids_roundtrip:
  assumes "length (cg_members cg) < 2 ^ 32" and "li_id_info_count li = word_of_nat (length (cg_members cg))"
  shows "ids_in be li (map (\<lambda>m. cpu_to_le32 be (mb_nodeid m)) (cg_members cg)) = format_member_ids cg"
proof -
  have "unat (li_id_info_count li) = length (cg_members cg)" using assms by (simp add: unat_of_nat)
  then show ?thesis by (simp add: ids_in_def id_info_in_def format_member_ids_def)
qed

lemma stored_matches:
  assumes sc: "same_change c ls (us c0) cg cg'" and "big_endian (cf_plock c) = big_endian (cf_plock c0)"
    and m: "ci_effects (send_plocks_stored c0 ls0 cg sig io) = es @ [Send_info h li ids]"
  shows "match_change c ls (cg'\<lparr>cg_combined_seq := q\<rparr>) h (ls_info_in (big_endian (cf_plock c)) li)
      (ids_in (big_endian (cf_plock c)) (ls_info_in (big_endian (cf_plock c)) li) ids)"
    "dh_type h = DLM_MSG_PLOCKS_STORED" "dh_msgdata2 h = sig" "dh_nodeid h = us c0" "dh_version h = cf_daemon_run c0"
proof -
  define be where "be = big_endian (cf_plock c)"
  have h: "h = \<lparr>dh_version = cf_daemon_run c0, dh_type = DLM_MSG_PLOCKS_STORED, dh_nodeid = us c0, dh_to_nodeid = 0,
        dh_global_id = ls_global_id (lo_plock ls0), dh_flags = dh_flags h, dh_msgdata = cg_seq cg, dh_msgdata2 = sig\<rparr>"
    and ids: "ids = map (\<lambda>m. cpu_to_le32 be (mb_nodeid m)) (cg_members cg)"
    and li: "li_id_info_count (ls_info_in be li) = cg_member_count cg" "li_member_count (ls_info_in be li) = cg_member_count cg"
      "li_joined_count (ls_info_in be li) = cg_joined_count cg" "li_remove_count (ls_info_in be li) = cg_remove_count cg"
      "li_failed_count (ls_info_in be li) = cg_failed_count cg"
    using m assms(2) by (auto simp: send_plocks_stored_def send_info_def tell_def Let_def ls_info_in_def be_def)
  show "dh_type h = DLM_MSG_PLOCKS_STORED" "dh_msgdata2 h = sig" "dh_nodeid h = us c0" "dh_version h = cf_daemon_run c0"
    by (subst h, simp)+
  have i: "ids_in be (ls_info_in be li) ids = format_member_ids cg"
    using ids_roundtrip [of cg "ls_info_in be li" be] sc li(1) unfolding ids same_change_def by simp
  have f: "find_memb (cg'\<lparr>cg_combined_seq := q\<rparr>) j = find_memb cg' j" for j by (simp add: find_memb_def)
  have "match_change c ls (cg'\<lparr>cg_combined_seq := q\<rparr>) h (ls_info_in be li) (format_member_ids cg)"
    using sc li find_memb_ids [of cg'] \<open>dh_nodeid h = us c0\<close> \<open>dh_type h = DLM_MSG_PLOCKS_STORED\<close>
    by (auto simp: match_change_def same_change_def f not_less split: option.splits)
  then show "match_change c ls (cg'\<lparr>cg_combined_seq := q\<rparr>) h (ls_info_in (big_endian (cf_plock c)) li)
      (ids_in (big_endian (cf_plock c)) (ls_info_in (big_endian (cf_plock c)) li) ids)" using i unfolding be_def by simp
qed

lemma saved_of_view:
  "foldl (\<lambda>V sm. view_deliver V (hd_nodeid (sm_buf sm)) (info_bswap_in be (hd_info (sm_buf sm)))) V (saved_of ms) = view_msgs be V ms"
  by (induction ms arbitrary: V) (auto simp: saved_of_def view_msgs_def plock_of_def)

lemma receive_stored:
  assumes "saving c ls" and "lo_started_change ls = Some cg" and "ls_plock_resources (lo_plock ls) = []"
    and "ls_saved_messages (lo_plock ls) = saved_of ms" and nc: "\<not> cfgd_plock_ownership (cf_plock c)"
    and store: "store_plocks c0 u (Some hdl) (\<lambda>_. True) sig0 p0 pio0 = Some (sig, p1, Some secs)"
    and c0: "\<not> cfgd_plock_ownership c0" "big_endian (cf_plock c) = big_endian c0"
    and p0: "ls_repl p0" "list_all (\<lambda>r. not_syncing r \<and> wf_locks (r_locks r)) (ls_plock_resources p0)"
    and ev: "ev_ckpt_opened ev" "ev_ckpt_items ev = Some (map (\<lambda>(buf, pps). Section buf pps) secs)" "mem_ok (io_mem (ci_plock io))"
    and h: "dh_msgdata2 h = sig"
    and m: "match_change c (ls\<lparr>lo_last_plock_sig := sig\<rparr>) cg h (ls_info_in (big_endian (cf_plock c)) li)
      (ids_in (big_endian (cf_plock c)) (ls_info_in (big_endian (cf_plock c)) li) ids)"
  shows "\<exists>ls' io'. receive_plocks_stored c ev h li ids ls io = Some (ls', io') \<and> lo_changes ls' = [] \<and> \<not> lo_need_plocks ls' \<and>
    \<not> ls_save_plocks (lo_plock ls') \<and> lsview (lo_plock ls') = view_msgs (big_endian (cf_plock c)) (lsview p0) ms"
proof -
  have s: "lo_changes ls = []" "lo_need_plocks ls" "\<not> ls_disable_plock (lo_plock ls)" "cfgd_enable_plock (cf_plock c)"
    using assms(1) by (simp_all add: saving_def)
  obtain rs pio where r: "retrieve_plocks (cf_plock c) (ev_garbage ev) True (Some (map (\<lambda>(buf, pps). Section buf pps) secs)) (ev_sig0 ev)
        (lo_plock ls) (ci_plock io) = Some (sig, lo_plock ls\<lparr>ls_plock_resources := rs\<rparr>, pio)"
    "mem_ok (io_mem pio)" "ls_repl (lo_plock ls\<lparr>ls_plock_resources := rs\<rparr>)" "lsview (lo_plock ls\<lparr>ls_plock_resources := rs\<rparr>) = lsview p0"
    using ckpt_transfer [OF store c0(1) nc c0(2) p0 s(4,3) assms(3) ev(3)] by blast
  obtain p2 pio2 where q: "process_saved_plocks (cf_plock c) (lo_plock ls\<lparr>ls_plock_resources := rs\<rparr>) pio = (p2, pio2)" by fastforce
  have t: "\<forall>sm \<in> set (saved_of ms). sm_type sm = DLM_MSG_PLOCK" by (auto simp: saved_of_def)
  have "lsview p2 = view_msgs (big_endian (cf_plock c)) (lsview p0) ms"
    using process_saved_view [OF q [unfolded process_saved_plocks_def] _ nc r(3,2)] t assms(4) r(4) by (simp add: saved_of_view)
  then show ?thesis
    using s r(1) q m h ev(1,2) assms(2) by (simp add: receive_plocks_stored_def Let_def lsview_list)
qed

lemma send_stored_effects: "\<exists>es h li ids. ci_effects (send_plocks_stored c ls cg sig io) = es @ [Send_info h li ids]"
  by (auto simp: send_plocks_stored_def send_info_def tell_def Let_def)

text \<open>
  The joining node after its restart and the messages \<open>ms\<close>: when the message comes that the checkpoint is
  stored, it has the state \<open>p0\<close> that was stored, with \<open>ms\<close> applied.
\<close>

lemma joiner_reads:
  assumes J: "about_to_start cJ J cgJ olderJ" "low_plock_node (cg_members cgJ) \<noteq> 0" "lo_need_plocks J"
      "ls_plock_resources (lo_plock J) = []" "ls_saved_messages (lo_plock J) = []"
    and runJ: "apply_changes cJ evJ J ioJ = Some (J1, ioJ1)" "ls_run cJ xsJ J1 = Some J2" "plock_msgs (cf_daemon_run cJ) ms xsJ"
    and both: "same_change cJ J (us cA) cg cgJ" "big_endian (cf_plock cJ) = big_endian (cf_plock cA)" "cf_daemon_run cJ = cf_daemon_run cA"
    and store: "store_plocks (cf_plock cA) u (Some hdl) (\<lambda>_. True) sig0 p0 pio0 = Some (sig, p1, Some secs)"
      "\<not> cfgd_plock_ownership (cf_plock cA)" "ls_repl p0" "list_all (\<lambda>r. not_syncing r \<and> wf_locks (r_locks r)) (ls_plock_resources p0)"
    and io: "ioA = send_plocks_stored cA l2 cg sig io2"
    and ev: "ev_ckpt_opened ev" "ev_ckpt_items ev = Some (map (\<lambda>(buf, pps). Section buf pps) secs)" "mem_ok (io_mem (ci_plock io))"
  shows "\<exists>es h li ids. ci_effects ioA = es @ [Send_info h li ids] \<and> dh_type h = DLM_MSG_PLOCKS_STORED \<and>
    (\<exists>J3 io3. deliver_cb cJ ev (us cA) h (Info li ids) J2 io = Some (J3, io3) \<and> \<not> lo_need_plocks J3 \<and>
       \<not> ls_save_plocks (lo_plock J3) \<and> lsview (lo_plock J3) = view_msgs (big_endian (cf_plock cA)) (lsview p0) ms)"
proof -
  have en: "\<not> cfgd_plock_ownership (cf_plock cJ)" using J(1) by (simp add: about_to_start_def)
  note w = waiting_start [OF J(1-3) runJ(1)]
  obtain q where q: "lo_started_change J1 = Some (cgJ\<lparr>cg_combined_seq := q\<rparr>)" using w(5) by blast
  have J2: "J2 = J1\<lparr>lo_plock := lo_plock J1\<lparr>ls_saved_messages := saved_of ms\<rparr>\<rparr>"
    using saving_run [OF runJ(3) w(1)] runJ(2) w(3) J(5) by simp
  have sv: "saving cJ J2" using w(1) by (simp add: J2 saving_def)
  obtain es h li ids where m: "ci_effects ioA = es @ [Send_info h li ids]" using send_stored_effects io by metis
  have sc: "same_change cJ (J2\<lparr>lo_last_plock_sig := sig\<rparr>) (us cA) cg cgJ"
  proof -
    have "get_node_history (J2\<lparr>lo_last_plock_sig := sig\<rparr>) i = get_node_history J i" for i using w(4) by (simp add: get_node_history_def J2)
    then show ?thesis using both(1) unfolding same_change_def by metis
  qed
  note match = stored_matches [OF sc both(2) m [unfolded io]]
  have J2s: "lo_started_change J2 = Some (cgJ\<lparr>cg_combined_seq := q\<rparr>)" "ls_plock_resources (lo_plock J2) = []"
    "ls_saved_messages (lo_plock J2) = saved_of ms" using q w(2) J(4) by (simp_all add: J2)
  obtain J3 io3 where r: "receive_plocks_stored cJ ev h li ids J2 io = Some (J3, io3)" "lo_changes J3 = []" "\<not> lo_need_plocks J3"
    "\<not> ls_save_plocks (lo_plock J3)" "lsview (lo_plock J3) = view_msgs (big_endian (cf_plock cJ)) (lsview p0) ms"
    using receive_stored [OF sv J2s en store(1,2) both(2) store(3,4) ev match(3) match(1)] by blast
  have "deliver_cb cJ ev (us cA) h (Info li ids) J2 io = Some (J3, io3)"
    using sv r(1,2) match(2,4,5) both(3) by (simp add: deliver_cb_def deliver_switch_def saving_def Let_def)
  then show ?thesis using m match(2) r both(2) by auto
qed

lemma joiner_gets_state:
  assumes A: "about_to_start cA A cg older" "low_plock_node (cg_members cg) = us cA" "us cA \<noteq> 0" "\<not> lo_need_plocks A"
    and pA: "\<not> ls_save_plocks (lo_plock A)" "ls_repl (lo_plock A)"
      "list_all (\<lambda>r. not_syncing r \<and> wf_locks (r_locks r)) (ls_plock_resources (lo_plock A))"
    and evA: "ev_ckpt_handle evA = Some hdl" "ev_ckpt_create evA = (\<lambda>_. True)"
    and runA: "apply_changes cA evA A ioA = Some (A1, ioA1)"
      "Stored_sections secs \<in> set (drop (length (ci_effects ioA)) (ci_effects ioA1))" "ls_run cA xsA A1 = Some A2"
      "plock_msgs (cf_daemon_run cA) ms xsA"
    and J: "about_to_start cJ J cgJ olderJ" "low_plock_node (cg_members cgJ) \<noteq> 0" "lo_need_plocks J"
      "ls_plock_resources (lo_plock J) = []" "ls_saved_messages (lo_plock J) = []"
    and runJ: "apply_changes cJ evJ J ioJ = Some (J1, ioJ1)" "ls_run cJ xsJ J1 = Some J2" "plock_msgs (cf_daemon_run cJ) ms xsJ"
    and both: "same_change cJ J (us cA) cg cgJ" "big_endian (cf_plock cJ) = big_endian (cf_plock cA)" "cf_daemon_run cJ = cf_daemon_run cA"
    and ev: "ev_ckpt_opened ev" "ev_ckpt_items ev = Some (map (\<lambda>(buf, pps). Section buf pps) secs)" "mem_ok (io_mem (ci_plock io))"
  shows "\<exists>es h li ids. ci_effects ioA1 = es @ [Send_info h li ids] \<and> dh_type h = DLM_MSG_PLOCKS_STORED \<and>
    (\<exists>J3 io3. deliver_cb cJ ev (us cA) h (Info li ids) J2 io = Some (J3, io3) \<and> \<not> lo_need_plocks J3 \<and>
       \<not> ls_save_plocks (lo_plock J3) \<and> lsview (lo_plock J3) = lsview (lo_plock A2))"
proof -
  obtain sig p l2 io2 where st: "store_plocks (cf_plock cA) (ev_unlinked evA) (Some hdl) (\<lambda>_. True) (ev_sig0 evA) (lo_plock A) (ci_plock ioA) = Some (sig, p, Some secs)"
    "ioA1 = send_plocks_stored cA l2 cg sig io2"
    using storing_start [OF A evA runA(1,2)] by metis
  have en: "\<not> cfgd_plock_ownership (cf_plock cA)" using A(1) by (simp add: about_to_start_def)
  note sv = storing_serves [OF A pA(1,2) evA runA(1,2)]
  have "lsview (lo_plock A2) = view_msgs (big_endian (cf_plock cA)) (lsview (lo_plock A)) ms"
    using serving_run [OF runA(4) sv(1)] runA(3) sv(2) by simp
  then show ?thesis using joiner_reads [OF J runJ both st(1) en pA(2,3) st(2) ev] by simp
qed

text \<open>
  If the nodes restart once more before the joining node has read the checkpoint, and no node joined
  since, it reads the state \<open>p0\<close> of the first restart.
\<close>

lemma joiner_gets_old_state:
  assumes A: "about_to_start cA A cg older" "low_plock_node (cg_members cg) = us cA" "us cA \<noteq> 0" "\<not> lo_need_plocks A" "\<not> nodes_added A"
    and pA: "\<not> ls_save_plocks (lo_plock A)" "ls_repl (lo_plock A)"
    and runA: "apply_changes cA evA A ioA = Some (A1, ioA1)" "ls_run cA xsA A1 = Some A2" "plock_msgs (cf_daemon_run cA) ms xsA"
    and store: "store_plocks (cf_plock cA) u (Some hdl) (\<lambda>_. True) sig0 p0 pio0 = Some (lo_last_plock_sig A, p1, Some secs)"
      "ls_repl p0" "list_all (\<lambda>r. not_syncing r \<and> wf_locks (r_locks r)) (ls_plock_resources p0)"
    and J: "about_to_start cJ J cgJ olderJ" "low_plock_node (cg_members cgJ) \<noteq> 0" "lo_need_plocks J"
      "ls_plock_resources (lo_plock J) = []" "ls_saved_messages (lo_plock J) = []"
    and runJ: "apply_changes cJ evJ J ioJ = Some (J1, ioJ1)" "ls_run cJ xsJ J1 = Some J2" "plock_msgs (cf_daemon_run cJ) ms xsJ"
    and both: "same_change cJ J (us cA) cg cgJ" "big_endian (cf_plock cJ) = big_endian (cf_plock cA)" "cf_daemon_run cJ = cf_daemon_run cA"
    and ev: "ev_ckpt_opened ev" "ev_ckpt_items ev = Some (map (\<lambda>(buf, pps). Section buf pps) secs)" "mem_ok (io_mem (ci_plock io))"
  shows "\<exists>es h li ids. ci_effects ioA1 = es @ [Send_info h li ids] \<and> dh_type h = DLM_MSG_PLOCKS_STORED \<and>
    (\<exists>J3 io3. deliver_cb cJ ev (us cA) h (Info li ids) J2 io = Some (J3, io3) \<and> \<not> lo_need_plocks J3 \<and>
       lsview (lo_plock J3) = view_msgs (big_endian (cf_plock cA)) (lsview p0) ms) \<and>
    lsview (lo_plock A2) = view_msgs (big_endian (cf_plock cA)) (lsview (lo_plock A)) ms"
proof -
  obtain l2 io2 where st: "lo_plock A1 = lo_plock A" "ioA1 = send_plocks_stored cA l2 cg (lo_last_plock_sig A) io2"
    using resending_start [OF A runA(1)] by metis
  have en: "\<not> cfgd_plock_ownership (cf_plock cA)" using A(1) by (simp add: about_to_start_def)
  have "lsview (lo_plock A2) = view_msgs (big_endian (cf_plock cA)) (lsview (lo_plock A)) ms"
    using serving_run [OF runA(3) resending_serves(1) [OF A pA runA(1)]] runA(2) st(1) by simp
  then show ?thesis using joiner_reads [OF J runJ both store(1) en store(2,3) st(2) ev] by blast
qed

end
