(* ===== verification/Cpg_Protocol.thy ===== *)
theory Cpg_Protocol imports Cpg_Ops begin

text \<open>
  The choice of the protocol version that all daemons of the cluster run
  (\<^verbatim>\<open>group/dlm_controld/cpg.c\<close>, the daemon group), and the answers to queries about a lockspace.
\<close>

section \<open>Byte order\<close>

definition bswap_16 :: "u16 \<Rightarrow> u16" where
  "bswap_16 x = push_bit 8 x OR drop_bit 8 x"

definition le16_to_cpu :: "bool \<Rightarrow> u16 \<Rightarrow> u16" where
  "le16_to_cpu be x = (if be then bswap_16 x else x)"

definition cpu_to_le16 :: "bool \<Rightarrow> u16 \<Rightarrow> u16" where
  "cpu_to_le16 be x = (if be then bswap_16 x else x)"

definition pv_in :: "bool \<Rightarrow> pversion \<Rightarrow> pversion" where
  "pv_in be v = \<lparr>pv_major = le16_to_cpu be (pv_major v), pv_minor = le16_to_cpu be (pv_minor v),
     pv_patch = le16_to_cpu be (pv_patch v), pv_flags = le16_to_cpu be (pv_flags v)\<rparr>"

definition pv_out :: "bool \<Rightarrow> pversion \<Rightarrow> pversion" where
  "pv_out be v = \<lparr>pv_major = cpu_to_le16 be (pv_major v), pv_minor = cpu_to_le16 be (pv_minor v),
     pv_patch = cpu_to_le16 be (pv_patch v), pv_flags = cpu_to_le16 be (pv_flags v)\<rparr>"

definition protocol_in :: "bool \<Rightarrow> protocol \<Rightarrow> protocol" where
  "protocol_in be p = \<lparr>pr_daemon_max = pv_in be (pr_daemon_max p), pr_kernel_max = pv_in be (pr_kernel_max p),
     pr_daemon_run = pv_in be (pr_daemon_run p), pr_kernel_run = pv_in be (pr_kernel_run p)\<rparr>"

definition protocol_out :: "bool \<Rightarrow> protocol \<Rightarrow> protocol" where
  "protocol_out be p = \<lparr>pr_daemon_max = pv_out be (pr_daemon_max p), pr_kernel_max = pv_out be (pr_kernel_max p),
     pr_daemon_run = pv_out be (pr_daemon_run p), pr_kernel_run = pv_out be (pr_kernel_run p)\<rparr>"

section \<open>The daemon group\<close>

record cpg_daemon =
  da_protocol :: protocol
  da_nodes :: "hnode list"
  da_members :: "u32 list"
  da_sent :: "protocol list"

text \<open>The versions that \<^verbatim>\<open>setup_cpg_daemon\<close> announces.\<close>

definition daemon0 :: cpg_daemon where
  "daemon0 = \<lparr>da_protocol = zero_protocol\<lparr>pr_daemon_max := \<lparr>pv_major = 1, pv_minor = 1, pv_patch = 1, pv_flags = 0\<rparr>,
       pr_kernel_max := \<lparr>pv_major = 1, pv_minor = 1, pv_patch = 1, pv_flags = 0\<rparr>\<rparr>,
     da_nodes = [], da_members = [], da_sent = []\<rparr>"

definition get_node_daemon :: "cpg_daemon \<Rightarrow> u32 \<Rightarrow> hnode option" where
  "get_node_daemon d nodeid = find (\<lambda>n. hn_nodeid n = nodeid) (da_nodes d)"

definition add_node_daemon :: "u32 \<Rightarrow> cpg_daemon \<Rightarrow> cpg_daemon" where
  "add_node_daemon nodeid d =
     (if get_node_daemon d nodeid \<noteq> None then d else d\<lparr>da_nodes := da_nodes d @ [zero_hnode nodeid]\<rparr>)"

definition all_protocol_messages :: "cpg_daemon \<Rightarrow> bool" where
  "all_protocol_messages d \<longleftrightarrow> da_members d \<noteq> [] \<and>
     (\<forall>i \<in> set (da_members d). case get_node_daemon d i of
        None \<Rightarrow> False | Some n \<Rightarrow> pv_major (pr_daemon_max (hn_proto n)) \<noteq> 0)"

text \<open>One of the loops of \<^verbatim>\<open>pick_min_protocol\<close>: a minimum in which 0 stands for none so far.\<close>

definition min_nz :: "u16 list \<Rightarrow> u16" where
  "min_nz vs = foldl (\<lambda>m v. if m = 0 \<or> v < m then v else m) 0 vs"

definition min_version :: "pversion list \<Rightarrow> pversion" where
  "min_version vs =
     (let maj = min_nz (map pv_major vs);
          mi = min_nz (map pv_minor (filter (\<lambda>v. pv_major v = maj) vs));
          pat = min_nz (map pv_patch (filter (\<lambda>v. pv_major v = maj \<and> pv_minor v = mi) vs))
      in \<lparr>pv_major = maj, pv_minor = mi, pv_patch = pat, pv_flags = 0\<rparr>)"

definition zero_part :: "pversion \<Rightarrow> bool" where
  "zero_part v \<longleftrightarrow> pv_major v = 0 \<or> pv_minor v = 0 \<or> pv_patch v = 0"

text \<open>\<open>None\<close> if it fails. A zero major, minor or patch number of either version is an error.\<close>

definition pick_min_protocol :: "cpg_daemon \<Rightarrow> protocol \<Rightarrow> protocol option" where
  "pick_min_protocol d proto =
     (if \<exists>i \<in> set (da_members d). get_node_daemon d i = None then None
      else
        (let ps = map (\<lambda>i. hn_proto (the (get_node_daemon d i))) (da_members d);
             mind = min_version (map pr_daemon_max ps);
             mink = min_version (map pr_kernel_max ps)
         in if zero_part mind \<or> zero_part mink then None
            else Some (proto\<lparr>pr_daemon_run := mind, pr_kernel_run := mink\<rparr>)))"

text \<open>\<open>whole\<close> tells whether the message has room for a protocol; if not, the conversion in place has already gone beyond its end.\<close>

definition receive_protocol :: "bool \<Rightarrow> bool \<Rightarrow> u32 \<Rightarrow> protocol \<Rightarrow> cpg_daemon \<Rightarrow> cpg_daemon option" where
  "receive_protocol be whole nodeid wire d =
     (if \<not> whole then None
      else
        (let p = protocol_in be wire in
         Some
           (if zero_part (pr_daemon_max p) \<or> zero_part (pr_kernel_max p) then d
            else if pv_major (pr_daemon_run p) \<noteq> 0 \<and> (zero_part (pr_daemon_run p) \<or> zero_part (pr_kernel_run p)) then d
            else if pv_major (pr_daemon_run (da_protocol d)) \<noteq> 0 then d
            else if pv_major (pr_daemon_run p) \<noteq> 0
              then d\<lparr>da_protocol := (da_protocol d)\<lparr>pr_daemon_run := pr_daemon_run p, pr_kernel_run := pr_kernel_run p\<rparr>\<rparr>
            else d\<lparr>da_nodes := update_first (\<lambda>n. hn_nodeid n = nodeid) (\<lambda>n. n\<lparr>hn_proto := p\<rparr>) (da_nodes d)\<rparr>)))"

definition send_protocol :: "bool \<Rightarrow> protocol \<Rightarrow> cpg_daemon \<Rightarrow> cpg_daemon" where
  "send_protocol be p d = d\<lparr>da_sent := da_sent d @ [protocol_out be p]\<rparr>"

definition confchg_cb_daemon :: "bool \<Rightarrow> u32 list \<Rightarrow> u32 list \<Rightarrow> cpg_daemon \<Rightarrow> cpg_daemon" where
  "confchg_cb_daemon be members joined d =
     (let d1 = (if joined \<noteq> [] then send_protocol be (da_protocol d) d else d)
      in foldl (\<lambda>d i. add_node_daemon i d) (d1\<lparr>da_members := members\<rparr>) members)"

datatype daemon_event = Protocol_message bool u32 protocol | Daemon_confchg "u32 list" "u32 list"

fun daemon_callback :: "bool \<Rightarrow> daemon_event \<Rightarrow> cpg_daemon \<Rightarrow> cpg_daemon option" where
  "daemon_callback be (Protocol_message whole nodeid p) d = receive_protocol be whole nodeid p d"
| "daemon_callback be (Daemon_confchg members joined) d = Some (confchg_cb_daemon be members joined d)"

fun daemon_events :: "bool \<Rightarrow> daemon_event list \<Rightarrow> cpg_daemon \<Rightarrow> cpg_daemon option" where
  "daemon_events be [] d = Some d"
| "daemon_events be (e # es) d = (case daemon_callback be e d of None \<Rightarrow> None | Some d1 \<Rightarrow> daemon_events be es d1)"

definition compatible :: "pversion \<Rightarrow> pversion \<Rightarrow> bool" where
  "compatible run mx \<longleftrightarrow> \<not> (pv_major run \<noteq> pv_major mx \<or> pv_minor run > pv_minor mx)"

text \<open>
  \<^verbatim>\<open>set_protocol\<close>: each element of the list is what one wait for the group brings; the loop still
  waits when the list ends (\<open>Waiting\<close>).
\<close>

datatype negotiation = Waiting cpg_daemon | Returned int cpg_daemon | Undefined

definition protocol_set :: "bool \<Rightarrow> cpg_daemon \<Rightarrow> negotiation" where
  "protocol_set be d =
     (let p = da_protocol d in
      if \<not> compatible (pr_daemon_run p) (pr_daemon_max p) then Returned (-1) d
      else if \<not> compatible (pr_kernel_run p) (pr_kernel_max p) then Returned (-1) d
      else Returned 0 (send_protocol be p d))"

text \<open>A proposal is sent once, when every member has announced its versions; \<open>None\<close> if none can be made.\<close>

definition propose :: "bool \<Rightarrow> bool \<Rightarrow> cpg_daemon \<Rightarrow> (bool \<times> cpg_daemon) option" where
  "propose be sent d =
     (if \<not> sent \<and> all_protocol_messages d
      then (case pick_min_protocol d (da_protocol d) of None \<Rightarrow> None | Some p \<Rightarrow> Some (True, send_protocol be p d))
      else Some (sent, d))"

fun set_protocol :: "bool \<Rightarrow> bool \<Rightarrow> daemon_event list list \<Rightarrow> cpg_daemon \<Rightarrow> negotiation" where
  "set_protocol be sent [] d =
     (if pv_major (pr_daemon_run (da_protocol d)) \<noteq> 0 then protocol_set be d
      else (case propose be sent d of None \<Rightarrow> Returned (-1) d | Some (sent1, d1) \<Rightarrow> Waiting d1))"
| "set_protocol be sent (b # bs) d =
     (if pv_major (pr_daemon_run (da_protocol d)) \<noteq> 0 then protocol_set be d
      else
        (case propose be sent d of
           None \<Rightarrow> Returned (-1) d
         | Some (sent1, d1) \<Rightarrow>
             (case daemon_events be b d1 of None \<Rightarrow> Undefined | Some d2 \<Rightarrow> set_protocol be sent1 bs d2)))"

section \<open>Queries\<close>

record dlmc_change =
  dc_member_count :: u32
  dc_joined_count :: u32
  dc_remove_count :: u32
  dc_failed_count :: u32
  dc_wait_condition :: nat
  dc_wait_messages :: bool
  dc_seq :: u32
  dc_combined_seq :: u32

definition zero_dlmc_change :: dlmc_change where
  "zero_dlmc_change = \<lparr>dc_member_count = 0, dc_joined_count = 0, dc_remove_count = 0, dc_failed_count = 0,
     dc_wait_condition = 0, dc_wait_messages = False, dc_seq = 0, dc_combined_seq = 0\<rparr>"

definition copy_change :: "change \<Rightarrow> u32 \<Rightarrow> dlmc_change" where
  "copy_change cg combined = \<lparr>dc_member_count = cg_member_count cg, dc_joined_count = cg_joined_count cg,
     dc_remove_count = cg_remove_count cg, dc_failed_count = cg_failed_count cg, dc_wait_condition = 0,
     dc_wait_messages = False, dc_seq = cg_seq cg, dc_combined_seq = combined\<rparr>"

record dlmc_lockspace =
  dk_name :: string
  dk_global_id :: u32
  dk_flags :: u32
  dk_cg_prev :: dlmc_change
  dk_cg_next :: dlmc_change

definition set_lockspace_info :: "cpg_io \<Rightarrow> lockspace \<Rightarrow> dlmc_lockspace" where
  "set_lockspace_info io ls =
     \<lparr>dk_name = ls_name (lo_plock ls), dk_global_id = ls_global_id (lo_plock ls),
      dk_flags = (if lo_joining ls then 1 else 0) OR (if lo_leaving ls then 2 else 0) OR (if lo_kernel_stopped ls then 4 else 0) OR
                 (if lo_fs_registered ls then 8 else 0) OR (if lo_need_plocks ls then 16 else 0) OR
                 (if ls_save_plocks (lo_plock ls) then 32 else 0),
      dk_cg_prev = (case lo_started_change ls of None \<Rightarrow> zero_dlmc_change | Some cg \<Rightarrow> copy_change cg (cg_combined_seq cg)),
      dk_cg_next =
        (case lo_changes ls of
           [] \<Rightarrow> zero_dlmc_change
         | cg # older \<Rightarrow>
             (copy_change cg (cg_seq (last (cg # older))))
               \<lparr>dc_wait_condition := (if ci_poll_fencing io \<noteq> 0 then 1 else if ci_poll_quorum io \<noteq> 0 then 2
                                    else if ci_poll_fs io \<noteq> 0 then 3
                                    else if cg_state cg = CGST_WAIT_CONDITIONS then 4 else 0),
                dc_wait_messages := (cg_state cg = CGST_WAIT_MESSAGES)\<rparr>)\<rparr>"

record dlmc_node =
  dn_nodeid :: u32
  dn_flags :: u32
  dn_added_seq :: u32
  dn_removed_seq :: u32
  dn_failed_reason :: int

definition node_info_of :: "lockspace \<Rightarrow> change option \<Rightarrow> u32 \<Rightarrow> dlmc_node" where
  "node_info_of ls cg nodeid =
     (let mf = (case (case cg of None \<Rightarrow> None | Some g \<Rightarrow> find_memb g nodeid) of
                  None \<Rightarrow> 0
                | Some m \<Rightarrow> 1 OR (if mb_start m then 2 else 0) OR (if mb_disallowed m then 4 else 0))
      in case get_node_history ls nodeid of
           None \<Rightarrow> \<lparr>dn_nodeid = nodeid, dn_flags = mf, dn_added_seq = 0, dn_removed_seq = 0, dn_failed_reason = 0\<rparr>
         | Some n \<Rightarrow>
             \<lparr>dn_nodeid = nodeid,
              dn_flags = mf OR (if hn_check_fencing n then 8 else 0) OR (if hn_check_quorum n then 16 else 0) OR
                         (if hn_check_fs n then 32 else 0),
              dn_added_seq = hn_added_seq n, dn_removed_seq = hn_removed_seq n, dn_failed_reason = hn_failed_reason n\<rparr>)"

definition set_node_info :: "lockspace \<Rightarrow> u32 \<Rightarrow> dlmc_node" where
  "set_node_info ls nodeid =
     node_info_of ls (case lo_changes ls of cg # _ \<Rightarrow> Some cg | [] \<Rightarrow> lo_started_change ls) nodeid"

datatype nodes_option = DLMC_NODES_ALL | DLMC_NODES_MEMBERS | DLMC_NODES_NEXT | Nodes_other

definition set_lockspace_nodes :: "lockspace \<Rightarrow> nodes_option \<Rightarrow> dlmc_node list" where
  "set_lockspace_nodes ls opt =
     (let next = (case lo_changes ls of cg # _ \<Rightarrow> Some cg | [] \<Rightarrow> None);
          of_members = (\<lambda>cg. map (\<lambda>m. node_info_of ls (Some cg) (mb_nodeid m)) (cg_members cg))
      in case opt of
           DLMC_NODES_ALL \<Rightarrow>
             map (\<lambda>n. node_info_of ls (case next of Some cg \<Rightarrow> Some cg | None \<Rightarrow> lo_started_change ls) (hn_nodeid n)) (lo_node_history ls)
         | DLMC_NODES_MEMBERS \<Rightarrow> (case lo_started_change ls of Some cg \<Rightarrow> of_members cg | None \<Rightarrow> [])
         | DLMC_NODES_NEXT \<Rightarrow> (case next of Some cg \<Rightarrow> of_members cg | None \<Rightarrow> [])
         | Nodes_other \<Rightarrow> [])"

section \<open>The version that is chosen\<close>

text \<open>Versions are compared by major, then minor, then patch number.\<close>

definition version_le :: "pversion \<Rightarrow> pversion \<Rightarrow> bool" where
  "version_le v w \<longleftrightarrow> pv_major v < pv_major w \<or> pv_major v = pv_major w \<and>
     (pv_minor v < pv_minor w \<or> pv_minor v = pv_minor w \<and> pv_patch v \<le> pv_patch w)"

definition same_version :: "pversion \<Rightarrow> pversion \<Rightarrow> bool" where
  "same_version v w \<longleftrightarrow> pv_major v = pv_major w \<and> pv_minor v = pv_minor w \<and> pv_patch v = pv_patch w"

lemma min_nz_fold:
  assumes "m \<noteq> (0 :: u16)" "0 \<notin> set vs"
  shows "\<exists>r. foldl (\<lambda>m v. if m = 0 \<or> v < m then v else m) m vs = r \<and> r \<in> insert m (set vs) \<and> r \<le> m \<and> (\<forall>v \<in> set vs. r \<le> v)"
  using assms
proof (induction vs arbitrary: m)
  case (Cons v vs)
  define k where "k = (if m = 0 \<or> v < m then v else m)"
  have k: "k \<noteq> 0" "k \<le> m" "k \<le> v" "k \<in> {m, v}" using Cons.prems by (auto simp: k_def)
  obtain r where "foldl (\<lambda>m v. if m = 0 \<or> v < m then v else m) k vs = r" "r \<in> insert k (set vs)" "r \<le> k" "\<forall>v \<in> set vs. r \<le> v"
    using Cons.IH [OF k(1)] Cons.prems(2) by auto
  then show ?case using k by (auto simp: k_def [symmetric] intro: order_trans)
qed simp

lemma min_nz_least:
  assumes "vs \<noteq> []" "0 \<notin> set vs"
  shows "min_nz vs \<in> set vs" "\<forall>v \<in> set vs. min_nz vs \<le> v"
proof -
  obtain v ws where v: "vs = v # ws" using assms(1) by (cases vs) auto
  show "min_nz vs \<in> set vs" "\<forall>v \<in> set vs. min_nz vs \<le> v"
    using min_nz_fold [of v ws] assms(2) by (auto simp: v min_nz_def)
qed

lemma min_version_least:
  assumes "vs \<noteq> []" "\<forall>v \<in> set vs. \<not> zero_part v"
  shows "\<not> zero_part (min_version vs)" "\<exists>v \<in> set vs. same_version (min_version vs) v" "\<forall>v \<in> set vs. version_le (min_version vs) v"
proof -
  define maj where "maj = min_nz (map pv_major vs)"
  define vs1 where "vs1 = filter (\<lambda>v. pv_major v = maj) vs"
  define mi where "mi = min_nz (map pv_minor vs1)"
  define vs2 where "vs2 = filter (\<lambda>v. pv_major v = maj \<and> pv_minor v = mi) vs"
  define pat where "pat = min_nz (map pv_patch vs2)"
  have m: "min_version vs = \<lparr>pv_major = maj, pv_minor = mi, pv_patch = pat, pv_flags = 0\<rparr>"
    by (simp add: min_version_def Let_def maj_def vs1_def mi_def vs2_def pat_def)
  have nz: "0 \<notin> set (map pv_major vs)" "0 \<notin> set (map pv_minor vs1)" "0 \<notin> set (map pv_patch vs2)"
    using assms(2) by (auto simp: zero_part_def vs1_def vs2_def)
  have maj: "maj \<in> set (map pv_major vs)" "\<forall>v \<in> set vs. maj \<le> pv_major v"
    using min_nz_least [OF _ nz(1)] assms(1) by (auto simp: maj_def)
  have "vs1 \<noteq> []" using maj(1) by (auto simp: vs1_def filter_empty_conv)
  then have mi: "mi \<in> set (map pv_minor vs1)" "\<forall>v \<in> set vs1. mi \<le> pv_minor v"
    using min_nz_least [OF _ nz(2)] by (auto simp: mi_def)
  then have "vs2 \<noteq> []" by (auto simp: vs1_def vs2_def filter_empty_conv)
  then have pat: "pat \<in> set (map pv_patch vs2)" "\<forall>v \<in> set vs2. pat \<le> pv_patch v"
    using min_nz_least [OF _ nz(3)] by (auto simp: pat_def)
  show "\<not> zero_part (min_version vs)" using maj(1) mi(1) pat(1) nz by (auto simp: m zero_part_def)
  show "\<exists>v \<in> set vs. same_version (min_version vs) v" using pat(1) by (auto simp: m same_version_def vs2_def)
  show "\<forall>v \<in> set vs. version_le (min_version vs) v"
    using maj(2) mi(2) pat(2) by (auto simp: m version_le_def vs1_def vs2_def less_le)
qed

text \<open>The versions a node has announced: none yet, or both without a zero part.\<close>

definition announced :: "protocol \<Rightarrow> bool" where
  "announced p \<longleftrightarrow> \<not> zero_part (pr_daemon_max p) \<and> \<not> zero_part (pr_kernel_max p)"

definition daemon_ok :: "cpg_daemon \<Rightarrow> bool" where
  "daemon_ok d \<longleftrightarrow> (\<forall>n \<in> set (da_nodes d). hn_proto n = zero_protocol \<or> announced (hn_proto n))"

lemma receive_protocol_ok: "receive_protocol be whole i p d = Some d' \<Longrightarrow> daemon_ok d \<Longrightarrow> daemon_ok d'"
  by (auto simp: receive_protocol_def daemon_ok_def announced_def Let_def dest!: set_update_first [THEN subsetD] split: if_splits)

lemma add_node_ok: "daemon_ok d \<Longrightarrow> daemon_ok (add_node_daemon i d)"
  by (auto simp: add_node_daemon_def daemon_ok_def zero_hnode_def)

lemma add_nodes_ok: "daemon_ok d \<Longrightarrow> daemon_ok (foldl (\<lambda>d i. add_node_daemon i d) d is)"
  by (induction "is" arbitrary: d) (simp_all add: add_node_ok)

lemma confchg_daemon_ok: "daemon_ok d \<Longrightarrow> daemon_ok (confchg_cb_daemon be members joined d)"
  unfolding confchg_cb_daemon_def Let_def
  by (rule add_nodes_ok) (simp add: send_protocol_def daemon_ok_def)

lemma daemon_events_ok: "daemon_events be es d = Some d' \<Longrightarrow> daemon_ok d \<Longrightarrow> daemon_ok d'"
proof (induction es arbitrary: d)
  case (Cons e es)
  then show ?case by (cases e) (auto simp: receive_protocol_ok confchg_daemon_ok split: option.splits)
qed simp

lemma picked_least:
  assumes ok: "daemon_ok d" and all: "all_protocol_messages d"
  shows "\<exists>q. pick_min_protocol d p = Some q \<and>
    (\<forall>i \<in> set (da_members d). \<exists>n. get_node_daemon d i = Some n \<and>
       version_le (pr_daemon_run q) (pr_daemon_max (hn_proto n)) \<and> version_le (pr_kernel_run q) (pr_kernel_max (hn_proto n))) \<and>
    (\<exists>i \<in> set (da_members d). \<exists>n. get_node_daemon d i = Some n \<and> same_version (pr_daemon_run q) (pr_daemon_max (hn_proto n))) \<and>
    (\<exists>i \<in> set (da_members d). \<exists>n. get_node_daemon d i = Some n \<and> same_version (pr_kernel_run q) (pr_kernel_max (hn_proto n)))"
proof -
  define ps where "ps = map (\<lambda>i. hn_proto (the (get_node_daemon d i))) (da_members d)"
  have known: "\<exists>n. get_node_daemon d i = Some n \<and> announced (hn_proto n)" if mem: "i \<in> set (da_members d)" for i
  proof -
    obtain n where n: "get_node_daemon d i = Some n" "pv_major (pr_daemon_max (hn_proto n)) \<noteq> 0"
      using bspec [OF conjunct2 [OF all [unfolded all_protocol_messages_def]] mem] by (auto split: option.splits)
    then have "n \<in> set (da_nodes d)" by (auto simp: get_node_daemon_def find_Some_iff)
    then show ?thesis using ok n by (auto simp: daemon_ok_def zero_protocol_def zero_pversion_def)
  qed
  have none: "\<not> (\<exists>i \<in> set (da_members d). get_node_daemon d i = None)" using known by fastforce
  have node: "get_node_daemon d i = Some (the (get_node_daemon d i))" "announced (hn_proto (the (get_node_daemon d i)))"
    if "i \<in> set (da_members d)" for i using known [OF that] by auto
  have ps: "ps \<noteq> []" "\<forall>p \<in> set ps. announced p" using all node(2) by (auto simp: ps_def all_protocol_messages_def)
  define md mk where "md = min_version (map pr_daemon_max ps)" and "mk = min_version (map pr_kernel_max ps)"
  have d: "\<not> zero_part md" "\<exists>p \<in> set ps. same_version md (pr_daemon_max p)" "\<forall>p \<in> set ps. version_le md (pr_daemon_max p)"
    using min_version_least [of "map pr_daemon_max ps"] ps by (auto simp: md_def announced_def)
  have k: "\<not> zero_part mk" "\<exists>p \<in> set ps. same_version mk (pr_kernel_max p)" "\<forall>p \<in> set ps. version_le mk (pr_kernel_max p)"
    using min_version_least [of "map pr_kernel_max ps"] ps by (auto simp: mk_def announced_def)
  have "pick_min_protocol d p = Some (p\<lparr>pr_daemon_run := md, pr_kernel_run := mk\<rparr>)"
    using none d(1) k(1) by (simp add: pick_min_protocol_def Let_def ps_def [symmetric] md_def [symmetric] mk_def [symmetric])
  moreover have "\<exists>n. get_node_daemon d i = Some n \<and> version_le md (pr_daemon_max (hn_proto n)) \<and> version_le mk (pr_kernel_max (hn_proto n))"
    if "i \<in> set (da_members d)" for i
    using node(1) [OF that] d(3) k(3) that by (intro exI [of _ "the (get_node_daemon d i)"]) (simp add: ps_def)
  moreover have "\<exists>i \<in> set (da_members d). \<exists>n. get_node_daemon d i = Some n \<and> same_version md (pr_daemon_max (hn_proto n))"
    "\<exists>i \<in> set (da_members d). \<exists>n. get_node_daemon d i = Some n \<and> same_version mk (pr_kernel_max (hn_proto n))"
    using node(1) d(2) k(2) by (auto simp: ps_def)
  ultimately show ?thesis by auto
qed

end
