(* ===== verification/Cpg_Props.thy ===== *)
theory Cpg_Props imports Cpg_Transfer Cpg_Protocol Plock_Props Deadlock_Props begin

text \<open>
  Properties of the lockspace membership protocol and of the choice of a protocol version.
\<close>

section \<open>Example data\<close>

definition ex_ccfg :: "u32 \<Rightarrow> bool \<Rightarrow> cpg_cfg" where
  "ex_ccfg i fencing = \<lparr>cf_plock = ex_cfg False i, cf_enable_fencing = fencing, cf_enable_quorum = False,
     cf_enable_deadlk = False, cf_daemon_run = (1, 1, 1)\<rparr>"

definition ex_env :: "(u32 \<Rightarrow> u64 option) \<Rightarrow> ckpt_section list \<Rightarrow> cpg_env" where
  "ex_env fenced secs = \<lparr>ev_fenced = fenced, ev_uninit = 0, ev_fence_progress = Some 0, ev_cluster_member = (\<lambda>_. False), ev_quorate = True,
     ev_unlinked = True, ev_ckpt_handle = Some 8, ev_ckpt_create = (\<lambda>_. True), ev_sig0 = 0, ev_garbage = (\<lambda>_. zero_info),
     ev_ckpt_opened = True, ev_ckpt_items = Some (map (\<lambda>(buf, pps). Section buf pps) secs), ev_debugfs = None,
     ev_dl_unlinked = True, ev_dl_attempts = [], ev_dl_items = None\<rparr>"

definition ex_cio :: "int \<Rightarrow> cpg_io" where
  "ex_cio t = \<lparr>ci_plock = (ex_io [])\<lparr>io_now := \<lparr>tv_sec = t, tv_usec = 0\<rparr>\<rparr>, ci_effects = [], ci_poll_fencing = 0, ci_poll_quorum = 0, ci_poll_fs = 0\<rparr>"

definition ex_new :: "plock_ls \<Rightarrow> lockspace" where
  "ex_new p = \<lparr>lo_plock = p, lo_deadlk = dl_init, lo_joining = False, lo_leaving = False, lo_kernel_stopped = False,
     lo_fs_registered = False, lo_change_seq = 0, lo_started_count = 0, lo_started_change = None, lo_changes = [],
     lo_node_history = [], lo_plock_ckpt_node = 0, lo_need_plocks = False, lo_last_plock_sig = 0\<rparr>"

definition ex_hdr :: "msg_type \<Rightarrow> u32 \<Rightarrow> u32 \<Rightarrow> u32 \<Rightarrow> dlm_header" where
  "ex_hdr ty i fl d = \<lparr>dh_version = (1, 1, 1), dh_type = ty, dh_nodeid = i, dh_to_nodeid = 0, dh_global_id = 5, dh_flags = fl,
     dh_msgdata = 0, dh_msgdata2 = d\<rparr>"

definition ex_li :: "u32 \<Rightarrow> u32 \<Rightarrow> u32 \<Rightarrow> u32 \<Rightarrow> u32 \<Rightarrow> ls_info" where
  "ex_li started m j r f = \<lparr>li_ls_info_size = 32, li_id_info_size = 4, li_id_info_count = m, li_started_count = started,
     li_member_count = m, li_joined_count = j, li_remove_count = r, li_failed_count = f\<rparr>"

definition ex_before :: "(ls_event \<times> cpg_env \<times> cpg_io) list" where
  "ex_before =
    [(Confchg [1, 2] [] [1, 2], ex_env (\<lambda>_. Some 0) [], ex_cio 900),
     (Deliver_msg 1 (ex_hdr DLM_MSG_START 1 1 0) (Info (ex_li 0 2 2 0 0) [1, 2]), ex_env (\<lambda>_. Some 0) [], ex_cio 901),
     (Deliver_msg 2 (ex_hdr DLM_MSG_START 2 1 0) (Info (ex_li 0 2 2 0 0) [1, 2]), ex_env (\<lambda>_. Some 0) [], ex_cio 902)]"

definition ex_after :: "(ls_event \<times> cpg_env \<times> cpg_io) list" where
  "ex_after =
    [(Poll, ex_env (\<lambda>_. Some 1001) [], ex_cio 1002),
     (Deliver_msg 1 (ex_hdr DLM_MSG_START 1 2 0) (Info (ex_li 1 1 0 1 1) [1]), ex_env (\<lambda>_. Some 0) [], ex_cio 1003)]"


definition ex_ls0 :: lockspace where
  "ex_ls0 = (ex_new (ex_ls []))\<lparr>lo_kernel_stopped := True, lo_need_plocks := True, lo_joining := True\<rparr>"

lemmas cpg_ex_defs = ex_ccfg_def ex_env_def ex_cio_def ex_new_def ex_hdr_def ex_li_def ex_ls0_def

section \<open>Restarting the kernel's lockspace\<close>

text \<open>C29: With fencing on, the kernel's lockspace does not run again after the failure of a node that had
  started until fenced has said that it fenced the node at or after the time of the failure. The run is any sequence of
  messages, configuration changes, polls and notifications after the join; the queries of fenced are
  taken to succeed and the clock not to go back behind the failure.\<close>

theorem restart_waits_for_fencing:
  assumes "dlm_join_lockspace c ev0 initialized crc joins new io0 = (0, Some ls0, io1)" "lo_changes new = []"
    and "ls_run c before ls0 = Some ls" "\<forall>x \<in> set before. wf_event (fst x)" "cf_enable_fencing c"
    and "get_node_history ls i = Some n" "hn_add_time n \<noteq> 0"
    and "distinct (map fst left)" "(i, r) \<in> set left" "reason_failed r" "set joined \<subseteq> set members"
    and "ls_run c ((Confchg members left joined, ev, io) # after) ls = Some ls'"
    and "\<forall>(e, ev', io') \<in> set after. wf_event e \<and> now_of io \<le> now_of io'"
    and "\<forall>(e, ev', io') \<in> set ((Confchg members left joined, ev, io) # after). ev_fenced ev' i \<noteq> None"
    and "\<not> lo_kernel_stopped ls'"
  shows "\<exists>(e, ev', io') \<in> set ((Confchg members left joined, ev, io) # after). \<exists>t. ev_fenced ev' i = Some t \<and> now_of io \<le> t"
proof -
  have "started_ok ls" using run_started [OF assms(3,4,5) joined_started [OF assms(1,2)]] .
  from restart_answered [OF assms(12) this assms(5,8,9,10,6,7,11,13,15)] assms(14)
  show ?thesis by (fastforce simp: answered_def split: option.splits)
qed

theorem restart_waits_for_fencing_witness:
  "\<exists>ls n ls'. ls_run (ex_ccfg 1 True) ex_before ex_ls0 = Some ls \<and> get_node_history ls 2 = Some n \<and> hn_add_time n = 902 \<and>
     ls_run (ex_ccfg 1 True) ((Confchg [1] [(2, CPG_REASON_NODEDOWN)] [], ex_env (\<lambda>_. Some 0) [], ex_cio 1000) # ex_after) ls = Some ls' \<and>
     \<not> lo_kernel_stopped ls' \<and>
     (\<exists>(e, ev', io') \<in> set ((Confchg [1] [(2, CPG_REASON_NODEDOWN)] [], ex_env (\<lambda>_. Some 0) [], ex_cio 1000) # ex_after).
        \<exists>t. ev_fenced ev' 2 = Some t \<and> now_of (ex_cio 1000) \<le> t)"
proof -
  let ?fail = "(Confchg [1] [(2, CPG_REASON_NODEDOWN)] [], ex_env (\<lambda>_. Some 0) [], ex_cio 1000)"
  have j: "dlm_join_lockspace (ex_ccfg 1 True) (ex_env (\<lambda>_. Some 0) []) True 5 True (ex_new (ex_ls [])) (ex_cio 899) = (0, Some ex_ls0, ex_cio 899)"
    "lo_changes (ex_new (ex_ls [])) = []" by (simp_all add: dlm_join_lockspace_def cpg_ex_defs ex_ls_def upd_plock_def)
  have "map_option (\<lambda>ls. map_option hn_add_time (get_node_history ls 2)) (ls_run (ex_ccfg 1 True) ex_before ex_ls0) = Some (Some 902)"
    by code_simp
  then obtain ls n where b: "ls_run (ex_ccfg 1 True) ex_before ex_ls0 = Some ls" "get_node_history ls 2 = Some n" "hn_add_time n = 902"
    by auto
  have "Option.bind (ls_run (ex_ccfg 1 True) ex_before ex_ls0) (\<lambda>ls. map_option lo_kernel_stopped (ls_run (ex_ccfg 1 True) (?fail # ex_after) ls)) = Some False"
    by code_simp
  then obtain ls' where a: "ls_run (ex_ccfg 1 True) (?fail # ex_after) ls = Some ls'" "\<not> lo_kernel_stopped ls'"
    unfolding b(1) by auto
  have "\<exists>(e, ev', io') \<in> set (?fail # ex_after). \<exists>t. ev_fenced ev' 2 = Some t \<and> now_of (ex_cio 1000) \<le> t"
    by (rule restart_waits_for_fencing [where r = CPG_REASON_NODEDOWN, OF j b(1) _ _ b(2) _ _ _ _ _ a(1) _ _ a(2)])
       (simp_all add: b(3) ex_before_def ex_after_def ex_ccfg_def ex_env_def ex_cio_def now_of_def wf_event_def reason_failed_def)
  then show ?thesis using a b by blast
qed



text \<open>C34: Once the file system has been notified of the failure of a node, the node stays notified whatever
  happens, its return and its next failure included, so that the next restart does not wait for the file system.\<close>

theorem notification_never_expires:
  assumes "ls_run c xs ls = Some ls'" and "\<forall>x \<in> set xs. wf_event (fst x)"
    and "get_node_history ls i = Some n" and "hn_fs_notified n"
  shows "\<exists>m. get_node_history ls' i = Some m \<and> hn_fs_notified m"
  by (rule run_notified [OF assms])

definition ex_fs :: lockspace where
  "ex_fs = (ex_new (ex_ls []))\<lparr>lo_fs_registered := True, lo_change_seq := 4, lo_started_count := 2,
     lo_node_history := [zero_hnode 1, (zero_hnode 2)\<lparr>hn_fs_notified := True\<rparr>]\<rparr>"

theorem notification_never_expires_witness:
  "\<exists>ls' m. ls_run (ex_ccfg 1 False) [(Confchg [1, 2] [] [2], ex_env (\<lambda>_. None) [], ex_cio 1000),
        (Confchg [1] [(2, CPG_REASON_NODEDOWN)] [], ex_env (\<lambda>_. None) [], ex_cio 1010)] ex_fs = Some ls' \<and>
     get_node_history ls' 2 = Some m \<and> hn_fs_notified m \<and> lo_changes ls' \<noteq> [] \<and> cg_state (hd (lo_changes ls')) = CGST_WAIT_MESSAGES"
proof -
  define xs where "xs = [(Confchg [1, 2] [] [2], ex_env (\<lambda>_. None) [], ex_cio 1000), (Confchg [1] [(2, CPG_REASON_NODEDOWN)] [], ex_env (\<lambda>_. None) [], ex_cio 1010)]"
  have "map_option (\<lambda>ls. map cg_state (lo_changes ls)) (ls_run (ex_ccfg 1 False) xs ex_fs) = Some [CGST_WAIT_MESSAGES, CGST_WAIT_MESSAGES]"
    unfolding xs_def by code_simp
  then obtain ls' where r: "ls_run (ex_ccfg 1 False) xs ex_fs = Some ls'" "map cg_state (lo_changes ls') = [CGST_WAIT_MESSAGES, CGST_WAIT_MESSAGES]"
    by auto
  have n: "get_node_history ex_fs 2 = Some ((zero_hnode 2)\<lparr>hn_fs_notified := True\<rparr>)"
    by (simp add: get_node_history_def ex_fs_def zero_hnode_def)
  have w: "\<forall>x \<in> set xs. wf_event (fst x)" by (simp add: xs_def wf_event_def)
  obtain m where "get_node_history ls' 2 = Some m" "hn_fs_notified m"
    using notification_never_expires [OF r(1) w n] by (auto simp: zero_hnode_def)
  moreover have "lo_changes ls' \<noteq> []" "cg_state (hd (lo_changes ls')) = CGST_WAIT_MESSAGES" using r(2) by auto
  ultimately show ?thesis using r(1) unfolding xs_def by auto
qed

text \<open>C31: Whatever protocol messages and configuration changes the daemon group has brought, once every member has
  announced its versions the proposal succeeds and its versions are the least that some member announced, so that
  no member is asked to run a version above its own.\<close>

theorem proposal_is_least:
  assumes "daemon_events be es daemon0 = Some d" "all_protocol_messages d"
  shows "\<exists>q. pick_min_protocol d p = Some q \<and>
    (\<forall>i \<in> set (da_members d). \<exists>n. get_node_daemon d i = Some n \<and>
       version_le (pr_daemon_run q) (pr_daemon_max (hn_proto n)) \<and> version_le (pr_kernel_run q) (pr_kernel_max (hn_proto n))) \<and>
    (\<exists>i \<in> set (da_members d). \<exists>n. get_node_daemon d i = Some n \<and> same_version (pr_daemon_run q) (pr_daemon_max (hn_proto n))) \<and>
    (\<exists>i \<in> set (da_members d). \<exists>n. get_node_daemon d i = Some n \<and> same_version (pr_kernel_run q) (pr_kernel_max (hn_proto n)))"
proof -
  have "daemon_ok daemon0" by (simp add: daemon_ok_def daemon0_def)
  then show ?thesis using picked_least [OF daemon_events_ok [OF assms(1)] assms(2)] by blast
qed

definition ex_proto :: "u16 \<Rightarrow> protocol" where
  "ex_proto m = zero_protocol\<lparr>pr_daemon_max := \<lparr>pv_major = 1, pv_minor = m, pv_patch = 1, pv_flags = 0\<rparr>,
     pr_kernel_max := \<lparr>pv_major = 1, pv_minor = 1, pv_patch = 1, pv_flags = 0\<rparr>\<rparr>"

theorem proposal_is_least_witness:
  "\<exists>d q n. daemon_events False [Daemon_confchg [1, 2] [1, 2], Protocol_message True 1 (ex_proto 3), Protocol_message True 2 (ex_proto 2)] daemon0 = Some d \<and>
     pick_min_protocol d (ex_proto 3) = Some q \<and> get_node_daemon d 2 = Some n \<and>
     version_le (pr_daemon_run q) (pr_daemon_max (hn_proto n)) \<and> pv_minor (pr_daemon_max (hn_proto n)) = 2"
proof -
  let ?es = "[Daemon_confchg [1, 2] [1, 2], Protocol_message True 1 (ex_proto 3), Protocol_message True 2 (ex_proto 2)]"
  have "map_option (\<lambda>d. (all_protocol_messages d, da_members d, map_option (\<lambda>n. pv_minor (pr_daemon_max (hn_proto n))) (get_node_daemon d 2)))
      (daemon_events False ?es daemon0) = Some (True, [1, 2], Some 2)" by code_simp
  then obtain d n where d: "daemon_events False ?es daemon0 = Some d" "all_protocol_messages d" "da_members d = [1, 2]"
    "get_node_daemon d 2 = Some n" "pv_minor (pr_daemon_max (hn_proto n)) = 2" by auto
  obtain q where "pick_min_protocol d (ex_proto 3) = Some q" "\<forall>i \<in> set (da_members d). \<exists>n. get_node_daemon d i = Some n \<and>
       version_le (pr_daemon_run q) (pr_daemon_max (hn_proto n)) \<and> version_le (pr_kernel_run q) (pr_kernel_max (hn_proto n))"
    using proposal_is_least [OF d(1,2), of "ex_proto 3"] by blast
  then show ?thesis using d by auto
qed

section \<open>The transfer of plock state\<close>























end
