(* ===== verification/Gfs2_Bits.thy ===== *)
theory Gfs2_Bits imports Prelude begin

text \<open>
  The bitmaps of GFS2 (\<^verbatim>\<open>gfs2/libgfs2/fs_bits.c\<close>): the search for a block in a given state, which looks at 32 blocks
  at a time, and the count of the blocks in a state. Both agree with the reference \<open>block_state\<close>, which
  reads one block. A buffer is the list of bytes that may be read; reading past it is \<open>None\<close>.
\<close>

section \<open>Constants\<close>

text \<open>
  Two bits per block and four blocks per byte, as the comments in \<^verbatim>\<open>fs_bits.c\<close> and \<^verbatim>\<open>rgrp.c\<close> say of the macros
  of the kernel's header.
\<close>

definition GFS2_NBBY :: nat where "GFS2_NBBY = 4"
definition GFS2_BIT_SIZE :: nat where "GFS2_BIT_SIZE = 2"
definition GFS2_BIT_MASK :: u8 where "GFS2_BIT_MASK = 3"

definition BFITNOENT :: u64 where "BFITNOENT = 0xFFFFFFFF"

section \<open>Searching\<close>

definition search_pattern :: "u8 \<Rightarrow> u64" where
  "search_pattern state = (if state = 0 then 0xffffffffffffffff else if state = 1 then 0xaaaaaaaaaaaaaaaa
     else if state = 2 then 0x5555555555555555 else 0)"

text \<open>The little endian word of eight bytes.\<close>

fun le64_of :: "u8 list \<Rightarrow> u64" where
  "le64_of [] = 0"
| "le64_of (b # bs) = ucast b OR push_bit 8 (le64_of bs)"

text \<open>Word \<open>k\<close> of the bytes that can be read from the buffer on; \<open>None\<close> if they end before.\<close>

definition word_at :: "u8 list \<Rightarrow> nat \<Rightarrow> u64 option" where
  "word_at buf k = (if 8 * k + 8 \<le> length buf then Some (le64_of (take 8 (drop (8 * k) buf))) else None)"

definition gfs2_bit_search :: "u64 \<Rightarrow> u64 \<Rightarrow> u8 \<Rightarrow> u64" where
  "gfs2_bit_search w msk state =
     (let tmp = w XOR search_pattern state; tmp1 = tmp AND drop_bit 1 tmp in tmp1 AND msk)"

text \<open>The library function: the position of the least significant bit that is set, from 1.\<close>

definition ffsll :: "u64 \<Rightarrow> nat" where
  "ffsll w = (case find (bit w) [0..<64] of None \<Rightarrow> 0 | Some n \<Rightarrow> n + 1)"

text \<open>The loop over the words; \<open>ptr\<close> is the word after the one \<open>tmp\<close> comes from.\<close>

function bitfit_loop :: "u8 list \<Rightarrow> nat \<Rightarrow> u8 \<Rightarrow> u64 \<Rightarrow> nat \<Rightarrow> (u64 \<times> nat) option" where
  "bitfit_loop buf stop state tmp ptr =
     (if tmp = 0 \<and> ptr < stop
      then (case word_at buf ptr of
              None \<Rightarrow> None
            | Some w \<Rightarrow> bitfit_loop buf stop state (gfs2_bit_search w 0x5555555555555555 state) (ptr + 1))
      else Some (tmp, ptr))"
  by pat_completeness auto
termination by (relation "measure (\<lambda>(buf, stop, state, tmp, ptr). stop - ptr)") auto

declare bitfit_loop.simps [simp del]

definition gfs2_bitfit :: "u8 list \<Rightarrow> u32 \<Rightarrow> u64 \<Rightarrow> u8 \<Rightarrow> u64 option" where
  "gfs2_bitfit buf len goal state =
     (let spoint = unat (push_bit 1 goal AND 63);
          ptr = unat (drop_bit 5 goal);
          stop = (unat len + 7) div 8
      in if state > 3 then Some 0
         else
           (case word_at buf ptr of
              None \<Rightarrow> None
            | Some w \<Rightarrow>
                (case bitfit_loop buf stop state (gfs2_bit_search w (push_bit spoint 0x5555555555555555) state) (ptr + 1) of
                   None \<Rightarrow> None
                 | Some (tmp, p) \<Rightarrow>
                     (let tmp1 = (if p = stop \<and> unat len mod 8 \<noteq> 0 then tmp AND drop_bit (64 - 8 * (unat len mod 8)) (- 1) else tmp) in
                      if tmp1 = 0 then Some BFITNOENT
                      else Some (word_of_nat ((p - 1) * 8 * GFS2_NBBY + ffsll tmp1 div 2))))))"

section \<open>Counting\<close>

text \<open>The loop of \<^verbatim>\<open>gfs2_bitcount\<close>, at bit \<open>bit\<close> of byte \<open>byte\<close>.\<close>

function bitcount_loop :: "u8 list \<Rightarrow> nat \<Rightarrow> u8 \<Rightarrow> nat \<Rightarrow> nat \<Rightarrow> u32 \<Rightarrow> u32" where
  "bitcount_loop buf stop state i b count =
     (if i < stop
      then
        (let count1 = (if drop_bit b (buf ! i) AND GFS2_BIT_MASK = state then count + 1 else count);
             b1 = b + GFS2_BIT_SIZE
         in if b1 \<ge> 8 then bitcount_loop buf stop state (i + 1) 0 count1 else bitcount_loop buf stop state i b1 count1)
      else count)"
  by pat_completeness auto
termination
  by (relation "measures [\<lambda>(buf, stop, state, i, b, count). stop - i, \<lambda>(buf, stop, state, i, b, count). 8 - b]") (auto simp: GFS2_BIT_SIZE_def)

declare bitcount_loop.simps [simp del]

definition gfs2_bitcount :: "u8 list \<Rightarrow> u32 \<Rightarrow> u8 \<Rightarrow> u32 option" where
  "gfs2_bitcount buf buflen state = (if unat buflen \<le> length buf then Some (bitcount_loop buf (unat buflen) state 0 0 0) else None)"

section \<open>The states of blocks\<close>

text \<open>The reference: block \<open>g\<close> of a bitmap, two bits at a time.\<close>

definition block_state :: "u8 list \<Rightarrow> nat \<Rightarrow> u8" where
  "block_state buf g = drop_bit (2 * (g mod 4)) (buf ! (g div 4)) AND 3"

lemma bit_le64_of: "bit (le64_of bs) n \<longleftrightarrow> n < 64 \<and> n div 8 < length bs \<and> bit (bs ! (n div 8)) (n mod 8)"
proof (induction bs arbitrary: n)
  case (Cons b bs)
  show ?case
  proof (cases "n < 8")
    case True
    then show ?thesis by (simp add: bit_simps)
  next
    case False
    then obtain m where n: "n = m + 8" using le_Suc_ex [of 8 n] by (auto simp: add.commute)
    have "\<not> bit b n" using False by (auto dest: bit_imp_le_length)
    moreover have "(m + 8) div 8 = Suc (m div 8)" by simp
    ultimately show ?thesis using Cons [of m] by (auto simp: n bit_simps)
  qed
qed simp

lemma bit_word_at:
  assumes "word_at buf k = Some w" "n < 64"
  shows "bit w n \<longleftrightarrow> bit (buf ! (8 * k + n div 8)) (n mod 8)"
proof -
  have "n div 8 < 8" using assms(2) by simp
  then show ?thesis using assms by (auto simp: word_at_def bit_le64_of split: if_splits)
qed

lemma bit_state: "s \<le> (3 :: u8) \<Longrightarrow> bit s n \<Longrightarrow> n < 2"
proof (rule ccontr)
  assume "s \<le> 3" "bit s n" "\<not> n < 2"
  have "s < 2 ^ 2" using \<open>s \<le> 3\<close> by (simp add: word_le_nat_alt word_less_nat_alt)
  then have "s AND mask 2 = s" by (rule less_mask_eq)
  then show False using \<open>bit s n\<close> \<open>\<not> n < 2\<close> by (metis bit_and_iff bit_mask_iff)
qed

lemma state_eq:
  assumes "s \<le> 3"
  shows "block_state buf g = s \<longleftrightarrow>
    (bit (buf ! (g div 4)) (2 * (g mod 4)) = bit s 0) \<and> (bit (buf ! (g div 4)) (2 * (g mod 4) + 1) = bit s 1)"
proof -
  have "\<forall>n \<in> set [0..<8]. bit (3 :: u8) n \<longleftrightarrow> n < 2" by code_simp
  then have three: "bit (3 :: u8) n \<longleftrightarrow> n < 2" for n by (auto dest: bit_imp_le_length)
  have b: "bit (block_state buf g) n \<longleftrightarrow> n < 2 \<and> bit (buf ! (g div 4)) (2 * (g mod 4) + n)" for n
    unfolding block_state_def bit_and_iff three bit_drop_bit_eq o_def by auto
  have high: "\<not> bit s n" if "2 \<le> n" for n using bit_state [OF assms, of n] that by auto
  show ?thesis
  proof
    assume "block_state buf g = s"
    then show "(bit (buf ! (g div 4)) (2 * (g mod 4)) = bit s 0) \<and> (bit (buf ! (g div 4)) (2 * (g mod 4) + 1) = bit s 1)"
      using b [of 0] b [of 1] by simp
  next
    assume e: "(bit (buf ! (g div 4)) (2 * (g mod 4)) = bit s 0) \<and> (bit (buf ! (g div 4)) (2 * (g mod 4) + 1) = bit s 1)"
    show "block_state buf g = s"
    proof (rule bit_word_eqI)
      fix n :: nat
      consider "n = 0" | "n = 1" | "2 \<le> n" by linarith
      then show "bit (block_state buf g) n = bit s n" using e high b [of n] by cases auto
    qed
  qed
qed

lemma bits_listed:
  assumes "\<forall>n \<in> set [0..<64]. bit (w :: u64) n = P n"
  shows "bit w n \<longleftrightarrow> n < 64 \<and> P n"
  using assms bit_imp_le_length [of w n] by auto

lemma bit_pattern5: "bit (0x5555555555555555 :: u64) n \<longleftrightarrow> n < 64 \<and> even n"
  by (rule bits_listed) code_simp

lemma search_patterns:
  "bit (search_pattern 0) n \<longleftrightarrow> n < 64 \<and> True" "bit (search_pattern 1) n \<longleftrightarrow> n < 64 \<and> odd n"
  "bit (search_pattern 2) n \<longleftrightarrow> n < 64 \<and> even n" "bit (search_pattern 3) n \<longleftrightarrow> n < 64 \<and> False"
  by (rule bits_listed, code_simp)+

lemma bit_search_pattern:
  assumes "s \<le> 3" "n < 64"
  shows "bit (search_pattern s) n \<longleftrightarrow> (if even n then \<not> bit s 0 else \<not> bit s 1)"
proof -
  have "unat s \<le> 3" using assms(1) by (simp add: word_le_nat_alt)
  then have "unat s = 0 \<or> unat s = 1 \<or> unat s = 2 \<or> unat s = 3" by linarith
  then have "s = 0 \<or> s = 1 \<or> s = 2 \<or> s = 3" by (auto simp: word_unat_eq_iff)
  moreover have "\<not> bit (2 :: u8) 0" "bit (2 :: u8) 1" "bit (3 :: u8) 0" "bit (3 :: u8) 1" "bit (1 :: u8) 0" "\<not> bit (1 :: u8) 1" by code_simp+
  ultimately show ?thesis using assms(2) by (elim disjE) (simp_all only: search_patterns, simp_all)
qed

lemma word_position:
  fixes j k :: nat
  shows "(32 * k + j) div 4 = 8 * k + (2 * j) div 8" "2 * ((32 * k + j) mod 4) = (2 * j) mod 8"
    "8 * k + (2 * j + 1) div 8 = 8 * k + (2 * j) div 8" "(2 * j + 1) mod 8 = (2 * j) mod 8 + 1"
proof -
  define a b where "a = j div 4" and "b = j mod 4"
  have j: "j = 4 * a + b" "b < 4" by (simp_all add: a_def b_def)
  have d: "(2 * j) div 8 = a" "(2 * j + 1) div 8 = a" "(32 * k + j) div 4 = 8 * k + a"
    by (rule div_nat_eqI; use j in simp)+
  have m: "(2 * j) mod 8 = 2 * b" "(2 * j + 1) mod 8 = 2 * b + 1" "(32 * k + j) mod 4 = b"
    unfolding modulo_nat_def d by (simp_all add: j(1))
  show "(32 * k + j) div 4 = 8 * k + (2 * j) div 8" "2 * ((32 * k + j) mod 4) = (2 * j) mod 8"
    "8 * k + (2 * j + 1) div 8 = 8 * k + (2 * j) div 8" "(2 * j + 1) mod 8 = (2 * j) mod 8 + 1"
    unfolding d m by simp_all
qed

lemma search_hit:
  assumes w: "word_at buf k = Some w" and s: "s \<le> 3"
  shows "bit (gfs2_bit_search w msk s) (2 * j) \<longleftrightarrow> j < 32 \<and> bit msk (2 * j) \<and> block_state buf (32 * k + j) = s"
proof (cases "j < 32")
  case True
  have n: "2 * j < 64" "2 * j + 1 < 64" using True by simp_all
  note d = word_position
  have "block_state buf (32 * k + j) = s \<longleftrightarrow> bit w (2 * j) = bit s 0 \<and> bit w (2 * j + 1) = bit s 1"
    unfolding state_eq [OF s] d(1,2) bit_word_at [OF w n(1)] bit_word_at [OF w n(2)] d(3,4) ..
  then show ?thesis using n bit_search_pattern [OF s n(1)] bit_search_pattern [OF s n(2)] True
    by (auto simp: gfs2_bit_search_def Let_def bit_simps)
next
  case False
  then show ?thesis by (auto dest!: bit_imp_le_length)
qed

lemma search_odd: "(\<And>n. bit msk n \<Longrightarrow> even n) \<Longrightarrow> odd n \<Longrightarrow> \<not> bit (gfs2_bit_search w msk s) n"
  by (auto simp: gfs2_bit_search_def Let_def bit_simps)

text \<open>
  \<open>hits buf s lo k tmp\<close>: the bits of \<open>tmp\<close> are the blocks of word \<open>k\<close> from \<open>lo\<close> on that are in state \<open>s\<close>.
\<close>

definition hits :: "u8 list \<Rightarrow> u8 \<Rightarrow> nat \<Rightarrow> nat \<Rightarrow> u64 \<Rightarrow> bool" where
  "hits buf s lo k tmp \<longleftrightarrow> (\<forall>n. bit tmp n \<longleftrightarrow> even n \<and> n < 64 \<and> lo \<le> 32 * k + n div 2 \<and> block_state buf (32 * k + n div 2) = s)"

lemma hits_search:
  assumes "word_at buf k = Some w" "s \<le> 3" and msk: "\<And>n. bit msk n \<longleftrightarrow> even n \<and> n < 64 \<and> lo \<le> 32 * k + n div 2"
  shows "hits buf s lo k (gfs2_bit_search w msk s)"
  unfolding hits_def
proof
  fix n
  show "bit (gfs2_bit_search w msk s) n \<longleftrightarrow> even n \<and> n < 64 \<and> lo \<le> 32 * k + n div 2 \<and> block_state buf (32 * k + n div 2) = s"
  proof (cases "even n")
    case True
    then obtain j where n: "n = 2 * j" by (rule evenE)
    show ?thesis unfolding n search_hit [OF assms(1,2)] msk by auto
  next
    case False
    then show ?thesis using search_odd [of msk n w s] msk by auto
  qed
qed

lemma hits_zero: "hits buf s lo k 0 \<Longrightarrow> lo \<le> g \<Longrightarrow> 32 * k \<le> g \<Longrightarrow> g < 32 * (k + 1) \<Longrightarrow> block_state buf g \<noteq> s"
proof -
  assume h: "hits buf s lo k 0" and g: "lo \<le> g" "32 * k \<le> g" "g < 32 * (k + 1)"
  define j where "j = g - 32 * k"
  have "g = 32 * k + j" "j < 32" using g by (simp_all add: j_def)
  then show ?thesis using h [unfolded hits_def, rule_format, of "2 * j"] g(1) by auto
qed

lemma ffsll_least:
  assumes "w \<noteq> 0"
  shows "\<exists>n < 64. bit w n \<and> ffsll w = n + 1 \<and> (\<forall>m < n. \<not> bit w m)"
proof -
  obtain m where "bit w m" using assms by (auto simp: bit_eq_iff)
  then have "m \<in> set [0..<64]" using bit_imp_le_length by fastforce
  then obtain n where n: "find (bit w) [0..<64] = Some n" using \<open>bit w m\<close> by (metis find_None_iff not_None_eq)
  then obtain i where i: "i < 64" "bit w ([0..<64] ! i)" "n = [0..<64] ! i" "\<forall>j < i. \<not> bit w ([0..<64] ! j)" by (auto simp: find_Some_iff)
  then show ?thesis using n by (auto simp: ffsll_def)
qed

lemma find_upt:
  assumes "a \<le> g" "g < b" "P g" "\<And>i. a \<le> i \<Longrightarrow> i < g \<Longrightarrow> \<not> P i"
  shows "find P [a..<b] = Some g"
  unfolding find_Some_iff using assms by (intro exI [of _ "g - a"]) auto


lemma hits_whole:
  assumes "word_at buf k = Some w" "s \<le> 3"
  shows "hits buf s (32 * k) k (gfs2_bit_search w 0x5555555555555555 s)"
  by (rule hits_search [OF assms]) (auto simp only: bit_pattern5 le_add1)

lemma bitfit_loop_hits:
  assumes "s \<le> 3" "8 * stop \<le> length buf" "1 \<le> ptr" "ptr \<le> stop"
    and "hits buf s lo (ptr - 1) tmp" "goal \<le> lo" "lo \<le> 32 * ptr" "32 * (ptr - 1) \<le> lo" "\<forall>g. goal \<le> g \<and> g < lo \<longrightarrow> block_state buf g \<noteq> s"
  shows "\<exists>tmp' p lo'. bitfit_loop buf stop s tmp ptr = Some (tmp', p) \<and> 1 \<le> p \<and> p \<le> stop \<and> hits buf s lo' (p - 1) tmp' \<and>
    goal \<le> lo' \<and> lo' \<le> 32 * p \<and> 32 * (p - 1) \<le> lo' \<and> (\<forall>g. goal \<le> g \<and> g < lo' \<longrightarrow> block_state buf g \<noteq> s) \<and> (tmp' = 0 \<longrightarrow> p = stop)"
  using assms
proof (induction buf stop s tmp ptr arbitrary: lo rule: bitfit_loop.induct)
  case (1 buf stop s tmp ptr)
  show ?case
  proof (cases "tmp = 0 \<and> ptr < stop")
    case True
    have "8 * ptr + 8 \<le> length buf" using True "1.prems"(2) by linarith
    then obtain w where w: "word_at buf ptr = Some w" by (simp add: word_at_def)
    have run: "bitfit_loop buf stop s tmp ptr = bitfit_loop buf stop s (gfs2_bit_search w 0x5555555555555555 s) (ptr + 1)"
      using True w by (subst bitfit_loop.simps) simp
    have none: "\<forall>g. goal \<le> g \<and> g < 32 * ptr \<longrightarrow> block_state buf g \<noteq> s"
    proof (intro allI impI)
      fix g assume g: "goal \<le> g \<and> g < 32 * ptr"
      have "hits buf s lo (ptr - 1) 0" using "1.prems"(5) True by simp
      from hits_zero [OF this, of g] show "block_state buf g \<noteq> s" using g "1.prems"(3,8,9) by (cases "g < lo") auto
    qed
    have "goal \<le> 32 * ptr" using "1.prems"(6,7) by linarith
    then show ?thesis unfolding run
      using "1.IH" [OF True w, of "32 * ptr"] "1.prems"(1,2,4) True none hits_whole [OF w "1.prems"(1)] by simp
  next
    case False
    then have "bitfit_loop buf stop s tmp ptr = Some (tmp, ptr)" by (subst bitfit_loop.simps) (simp only: if_False)
    moreover have "tmp = 0 \<longrightarrow> ptr = stop" using False "1.prems"(4) by linarith
    ultimately have "bitfit_loop buf stop s tmp ptr = Some (tmp, ptr) \<and> 1 \<le> ptr \<and> ptr \<le> stop \<and> hits buf s lo (ptr - 1) tmp \<and>
      goal \<le> lo \<and> lo \<le> 32 * ptr \<and> 32 * (ptr - 1) \<le> lo \<and> (\<forall>g. goal \<le> g \<and> g < lo \<longrightarrow> block_state buf g \<noteq> s) \<and> (tmp = 0 \<longrightarrow> ptr = stop)"
      using "1.prems"(3-9) by (intro conjI)
    then show ?thesis by (intro exI)
  qed
qed

text \<open>The first block from the goal on that is in the state, or none.\<close>

definition first_block :: "u8 list \<Rightarrow> nat \<Rightarrow> nat \<Rightarrow> u8 \<Rightarrow> u64" where
  "first_block buf len goal s = (case find (\<lambda>g. block_state buf g = s) [goal..<4 * len] of None \<Rightarrow> BFITNOENT | Some g \<Rightarrow> word_of_nat g)"

lemma first_mask:
  fixes goal :: u64
  assumes "unat goal < 2 ^ 60"
  shows "unat (drop_bit 5 goal) = unat goal div 32" "unat (push_bit 1 goal AND 63) = 2 * (unat goal mod 32)"
proof -
  show "unat (drop_bit 5 goal) = unat goal div 32" unfolding unat_drop_bit_eq by (simp add: drop_bit_eq_div)
  have "push_bit 1 goal AND 63 = take_bit 6 (push_bit 1 goal)" by (simp only: take_bit_eq_mask mask_eq_exp_minus_1) simp
  then have "unat (push_bit 1 goal AND 63) = unat (push_bit 1 goal) mod 64" by (simp only: unsigned_take_bit_eq) (simp add: take_bit_eq_mod)
  moreover have "unat (push_bit 1 goal) = 2 * unat goal"
    using assms by (simp add: push_bit_eq_mult unat_word_ariths)
  moreover have "2 * unat goal mod 64 = 2 * (unat goal mod 32)" using mult_mod_right [of 2 "unat goal" 32] by simp
  ultimately show "unat (push_bit 1 goal AND 63) = 2 * (unat goal mod 32)" by simp
qed

lemma bit_first_mask: "bit (push_bit (2 * a) (0x5555555555555555 :: u64)) n \<longleftrightarrow> even n \<and> n < 64 \<and> a \<le> n div 2"
  unfolding bit_push_bit_iff bit_pattern5 by auto

lemma hits_goal:
  assumes "word_at buf (unat goal div 32) = Some w" "s \<le> 3"
  shows "hits buf s (unat goal) (unat goal div 32) (gfs2_bit_search w (push_bit (2 * (unat goal mod 32)) 0x5555555555555555) s)"
proof (rule hits_search [OF assms])
  fix n
  have "unat goal = 32 * (unat goal div 32) + unat goal mod 32" by simp
  then have "unat goal mod 32 \<le> n div 2 \<longleftrightarrow> unat goal \<le> 32 * (unat goal div 32) + n div 2" by linarith
  then show "bit (push_bit (2 * (unat goal mod 32)) (0x5555555555555555 :: u64)) n \<longleftrightarrow> even n \<and> n < 64 \<and> unat goal \<le> 32 * (unat goal div 32) + n div 2"
    unfolding bit_first_mask by (rule arg_cong)
qed

text \<open>The mask of the last word leaves the blocks below the end of the bitmap.\<close>

lemma align8: "((len :: nat) + 7) div 8 = len div 8 + (if len mod 8 = 0 then 0 else 1)"
proof -
  define q r where "q = len div 8" and "r = len mod 8"
  have len: "len = 8 * q + r" "r < 8" by (simp_all add: q_def r_def)
  show ?thesis
  proof (cases "r = 0")
    case True
    have "(len + 7) div 8 = q" by (rule div_nat_eqI) (use True len in simp_all)
    then show ?thesis using True unfolding q_def r_def by simp
  next
    case False
    have "(len + 7) div 8 = q + 1" by (rule div_nat_eqI) (use False len in simp_all)
    then show ?thesis using False unfolding q_def r_def by simp
  qed
qed

lemma drop_ones: "r < 8 \<Longrightarrow> bit (drop_bit (64 - 8 * r) (- 1 :: u64)) n \<longleftrightarrow> n < 8 * r" 
 unfolding bit_drop_bit_eq comp_def bit_minus_1_iff by auto

lemma tail_arith: "p = q + 1 \<Longrightarrow> 32 * (p - 1) + n div 2 < 4 * (8 * q + r) \<longleftrightarrow> n < 8 * (r::nat)"
proof -
  assume "p = q + 1"
  then have "32 * (p - 1) + n div 2 < 4 * (8 * q + r) \<longleftrightarrow> n div 2 < 4 * r" by simp
  also have "\<dots> \<longleftrightarrow> n < 4 * r * 2" by (rule div_less_iff_less_mult) simp
  finally show ?thesis by simp
qed

lemma hits_tail:
  assumes "hits buf s lo (p - 1) tmp" "1 \<le> p" "p \<le> (len + 7) div 8"
    and "tmp1 = (if p = (len + 7) div 8 \<and> len mod 8 \<noteq> 0 then tmp AND drop_bit (64 - 8 * (len mod 8)) (- 1) else tmp)"
  shows "bit tmp1 n \<longleftrightarrow> bit tmp n \<and> 32 * (p - 1) + n div 2 < 4 * len"
proof -
  define q r where "q = len div 8" and "r = len mod 8"
  have len: "len = 8 * q + r" "r < 8" by (simp_all add: q_def r_def)
  note al = align8 [of len, folded q_def r_def]
  show ?thesis
  proof (cases "p = (len + 7) div 8 \<and> r \<noteq> 0")
    case True
    then have p: "p = q + 1" by (simp add: al)
    have "tmp1 = tmp AND drop_bit (64 - 8 * r) (- 1)" using True assms(4) by (simp add: r_def)
    then show ?thesis unfolding len(1) tail_arith [OF p] by (simp only: bit_and_iff drop_ones [OF len(2)])
  next
    case False
    have "p \<le> q"
    proof (cases "r = 0")
      case True
      then show ?thesis using assms(3) al by simp
    next
      case nz: False
      then have "p \<noteq> q + 1" "p \<le> q + 1" using False assms(3) al by simp_all
      then show ?thesis by linarith
    qed
    have "32 * (p - 1) + n div 2 < 4 * len" if b: "bit tmp n"
    proof -
      have "n < 64" using assms(1) b unfolding hits_def by blast
      then have "n div 2 < 32" by simp
      moreover have "32 * (p - 1) + 32 \<le> 32 * q" using \<open>p \<le> q\<close> assms(2) by simp
      ultimately show ?thesis using len(1) by linarith
    qed
    moreover have "tmp1 = tmp" using False assms(4) by (auto simp: r_def)
    ultimately show ?thesis by blast
  qed
qed

lemma hits_member:
  assumes "hits buf s lo (p - 1) tmp" "1 \<le> p" "32 * (p - 1) \<le> lo" "\<And>n. bit tmp1 n \<longleftrightarrow> bit tmp n \<and> 32 * (p - 1) + n div 2 < 4 * len"
    and "lo \<le> g" "g < 4 * len" "g < 32 * p" "block_state buf g = s"
  shows "bit tmp1 (2 * (g - 32 * (p - 1)))"
proof -
  have "32 * (p - 1) + 2 * (g - 32 * (p - 1)) div 2 = g" "2 * (g - 32 * (p - 1)) < 64" using assms(2,3,5,7) by simp_all
  then show ?thesis using assms(1,5,6,8) unfolding assms(4) hits_def by simp
qed

lemma tail_none:
  assumes "hits buf s lo (p - 1) tmp" "1 \<le> p" "32 * (p - 1) \<le> lo" "\<And>n. bit tmp1 n \<longleftrightarrow> bit tmp n \<and> 32 * (p - 1) + n div 2 < 4 * len"
    and "\<And>g. goal \<le> g \<Longrightarrow> g < lo \<Longrightarrow> block_state buf g \<noteq> s" "4 * len \<le> 32 * p" "tmp1 = 0"
  shows "find (\<lambda>g. block_state buf g = s) [goal..<4 * len] = None"
  unfolding find_None_iff
proof
  assume "\<exists>g. g \<in> set [goal..<4 * len] \<and> block_state buf g = s"
  then obtain g where g: "goal \<le> g" "g < 4 * len" "block_state buf g = s" by auto
  then have "lo \<le> g" using assms(5) [OF g(1)] by (metis not_less)
  have "bit tmp1 (2 * (g - 32 * (p - 1)))" using hits_member [OF assms(1-4) \<open>lo \<le> g\<close> g(2) _ g(3)] g(2) assms(6) by linarith
  then show False using assms(7) by simp
qed

lemma tail_some:
  assumes "hits buf s lo (p - 1) tmp" "1 \<le> p" "32 * (p - 1) \<le> lo" "\<And>n. bit tmp1 n \<longleftrightarrow> bit tmp n \<and> 32 * (p - 1) + n div 2 < 4 * len"
    and "goal \<le> lo" "\<And>g. goal \<le> g \<Longrightarrow> g < lo \<Longrightarrow> block_state buf g \<noteq> s" "tmp1 \<noteq> 0"
  shows "find (\<lambda>g. block_state buf g = s) [goal..<4 * len] = Some ((p - 1) * 8 * GFS2_NBBY + ffsll tmp1 div 2)"
proof -
  obtain n where n: "n < 64" "bit tmp1 n" "ffsll tmp1 = n + 1" "\<And>m. m < n \<Longrightarrow> \<not> bit tmp1 m"
    using ffsll_least [OF assms(7)] by blast
  define g where "g = 32 * (p - 1) + n div 2"
  have b: "even n" "lo \<le> g" "block_state buf g = s" "g < 4 * len" using n(2) assms(1) unfolding assms(4) hits_def g_def by simp_all
  have "find (\<lambda>g. block_state buf g = s) [goal..<4 * len] = Some g"
  proof (rule find_upt)
    show "goal \<le> g" using assms(5) b(2) by linarith
    show "g < 4 * len" "block_state buf g = s" using b by simp_all
    fix i assume i: "goal \<le> i" "i < g"
    show "block_state buf i \<noteq> s"
    proof
      assume e: "block_state buf i = s"
      have "lo \<le> i" using assms(6) [OF i(1)] e by (metis not_less)
      moreover have "g < 32 * p" using n(1) assms(2) unfolding g_def by simp
      ultimately have "bit tmp1 (2 * (i - 32 * (p - 1)))" using hits_member [OF assms(1-4) _ _ _ e] i(2) b(4) by simp
      moreover have "i - 32 * (p - 1) < n div 2" using \<open>lo \<le> i\<close> assms(3) i(2) unfolding g_def by linarith
      then have "2 * (i - 32 * (p - 1)) < n" by linarith
      ultimately show False using n(4) by blast
    qed
  qed
  moreover have "(p - 1) * 8 * GFS2_NBBY + ffsll tmp1 div 2 = g" using b(1) unfolding n(3) g_def GFS2_NBBY_def by simp
  ultimately show ?thesis by simp
qed

lemma bitfit_unfold:
  fixes goal :: u64
  assumes "\<not> 3 < state" "unat goal < 2 ^ 60" "word_at buf (unat goal div 32) = Some w"
    and "bitfit_loop buf ((unat len + 7) div 8) state
      (gfs2_bit_search w (push_bit (2 * (unat goal mod 32)) 0x5555555555555555) state) (unat goal div 32 + 1) = Some (tmp, p)"
    and "tmp1 = (if p = (unat len + 7) div 8 \<and> unat len mod 8 \<noteq> 0 then tmp AND drop_bit (64 - 8 * (unat len mod 8)) (- 1) else tmp)"
  shows "gfs2_bitfit buf len goal state = (if tmp1 = 0 then Some BFITNOENT else Some (word_of_nat ((p - 1) * 8 * GFS2_NBBY + ffsll tmp1 div 2)))"
  unfolding gfs2_bitfit_def Let_def first_mask [OF assms(2)] assms(3) by (simp only: assms(1,4,5) if_False option.case prod.case)

text \<open>The search finds the first block in the state at or after the goal.\<close>

lemma bitfit_first_block:
  assumes "state \<le> 3" "unat goal < 4 * unat len" "8 * ((unat len + 7) div 8) \<le> length buf"
  shows "gfs2_bitfit buf len goal state = Some (first_block buf (unat len) (unat goal) state)"
proof -
  define stop where "stop = (unat len + 7) div 8"
  define k where "k = unat goal div 32"
  have "unat len < 2 ^ 32" using unsigned_less [of len] by simp
  then have g60: "unat goal < 2 ^ 60" using assms(2) by simp
  have "4 * unat len \<le> stop * 32" unfolding stop_def by linarith
  then have kstop: "k < stop" using assms(2) unfolding k_def by (intro less_mult_imp_div_less) linarith
  then have "8 * k + 8 \<le> length buf" using assms(3) unfolding stop_def [symmetric] by linarith
  then obtain w where w: "word_at buf k = Some w" by (simp add: word_at_def)
  define tmp0 where "tmp0 = gfs2_bit_search w (push_bit (2 * (unat goal mod 32)) 0x5555555555555555) state"
  have h0: "hits buf state (unat goal) (k + 1 - 1) tmp0"
    using hits_goal [OF w [unfolded k_def] assms(1)] unfolding tmp0_def k_def by simp
  have "\<exists>tmp p lo. bitfit_loop buf stop state tmp0 (k + 1) = Some (tmp, p) \<and> 1 \<le> p \<and> p \<le> stop \<and> hits buf state lo (p - 1) tmp \<and>
    unat goal \<le> lo \<and> lo \<le> 32 * p \<and> 32 * (p - 1) \<le> lo \<and> (\<forall>g. unat goal \<le> g \<and> g < lo \<longrightarrow> block_state buf g \<noteq> state) \<and> (tmp = 0 \<longrightarrow> p = stop)"
    by (rule bitfit_loop_hits [OF assms(1) _ _ _ h0]) (use assms(3) kstop in \<open>auto simp: stop_def [symmetric] k_def\<close>)
  then obtain tmp p lo where r: "bitfit_loop buf stop state tmp0 (k + 1) = Some (tmp, p)" "1 \<le> p" "p \<le> stop" "hits buf state lo (p - 1) tmp"
    "unat goal \<le> lo" "32 * (p - 1) \<le> lo" "\<And>g. unat goal \<le> g \<Longrightarrow> g < lo \<Longrightarrow> block_state buf g \<noteq> state" "tmp = 0 \<Longrightarrow> p = stop"
    by blast
  define tmp1 where "tmp1 = (if p = stop \<and> unat len mod 8 \<noteq> 0 then tmp AND drop_bit (64 - 8 * (unat len mod 8)) (- 1) else tmp)"
  note run = bitfit_unfold [OF assms(1)[folded linorder_not_less] g60 w[unfolded k_def] r(1)[unfolded tmp0_def k_def stop_def] tmp1_def[unfolded stop_def]]
  note bits = hits_tail [OF r(4,2) r(3)[unfolded stop_def] tmp1_def[unfolded stop_def]]
  show ?thesis
  proof (cases "tmp1 = 0")
    case True
    then have "p = stop" using r(8) unfolding tmp1_def by (metis (full_types))
    then have "4 * unat len \<le> 32 * p" unfolding stop_def by linarith
    from tail_none [OF r(4,2,6) bits r(7) this True] show ?thesis unfolding run first_block_def using True by simp
  next
    case False
    from tail_some [OF r(4,2,6) bits r(5,7) False] show ?thesis unfolding run first_block_def using False by simp
  qed
qed

section \<open>Counting is exact\<close>

lemma bitcount_loop_count:
  assumes "b \<in> {0, 2, 4, 6}" "i < stop \<or> b = 0"
  shows "bitcount_loop buf stop s i b count =
    count + of_nat (length (filter (\<lambda>g. block_state buf g = s) [4 * i + b div 2..<4 * stop]))"
  using assms
proof (induction buf stop s i b count rule: bitcount_loop.induct)
  case (1 buf stop s i b count)
  show ?case
  proof (cases "i < stop")
    case False
    then show ?thesis using "1.prems" by (simp add: bitcount_loop.simps)
  next
    case True
    define g where "g = 4 * i + b div 2"
    have g: "g div 4 = i" "2 * (g mod 4) = b" "g < 4 * stop" using True "1.prems"(1) by (auto simp: g_def)
    have st: "drop_bit b (buf ! i) AND GFS2_BIT_MASK = block_state buf g" by (simp only: block_state_def g GFS2_BIT_MASK_def)
    define c1 where "c1 = (if block_state buf g = s then count + 1 else count)"
    have up: "[g..<4 * stop] = g # [g + 1..<4 * stop]" using g(3) upt_conv_Cons by simp
    have run: "bitcount_loop buf stop s i b count = (if b + 2 \<ge> 8 then bitcount_loop buf stop s (i + 1) 0 c1 else bitcount_loop buf stop s i (b + 2) c1)"
      using True by (subst bitcount_loop.simps) (simp only: if_True Let_def st c1_def GFS2_BIT_SIZE_def)
    have "bitcount_loop buf stop s i b count = c1 + of_nat (length (filter (\<lambda>g. block_state buf g = s) [g + 1..<4 * stop]))"
    proof (cases "b + 2 \<ge> 8")
      case b: True
      have "g + 1 = 4 * (i + 1) + 0 div 2" using b "1.prems"(1) by (auto simp: g_def)
      then show ?thesis unfolding run using b "1.IH"(1) [OF True refl refl, unfolded GFS2_BIT_SIZE_def, OF b] True by (simp add: st c1_def)
    next
      case b: False
      have "g + 1 = 4 * i + (b + 2) div 2" by (simp add: g_def)
      then show ?thesis unfolding run using b "1.IH"(2) [OF True refl refl, unfolded GFS2_BIT_SIZE_def, OF b] True "1.prems"(1) by (auto simp: st c1_def)
    qed
    then show ?thesis unfolding g_def [symmetric] up c1_def by simp
  qed
qed

lemma bitcount_count:
  "unat buflen \<le> length buf \<Longrightarrow>
     gfs2_bitcount buf buflen s = Some (of_nat (length (filter (\<lambda>g. block_state buf g = s) [0..<4 * unat buflen])))"
  using bitcount_loop_count [of 0 0 "unat buflen" buf s 0] by (simp add: gfs2_bitcount_def)

end
