(* ===== verification/Gfs2_Rgrp.thy ===== *)
theory Gfs2_Rgrp imports Gfs2_Bits begin

text \<open>
  Resource groups of GFS2 (\<^verbatim>\<open>gfs2/libgfs2/rgrp.c\<close>, \<^verbatim>\<open>fs_geometry.c\<close> and the rest of \<^verbatim>\<open>fs_bits.c\<close>): the layout of a device, the
  size of the bitmaps, and reading and changing the state of a block. The sizes of the structures on disk
  (\<^verbatim>\<open>struct gfs2_rgrp\<close>, \<^verbatim>\<open>struct gfs2_meta_header\<close>) are parameters, as their declarations are not part of the
  repository, and so are the functions that write them to a block.
\<close>

section \<open>Data\<close>

record gfs2_rindex =
  ri_addr :: u64
  ri_length :: u32
  ri_data0 :: u64
  ri_data :: u32
  ri_bitbytes :: u32

record gfs2_bitmap =
  bi_offset :: u32
  bi_start :: u32
  bi_len :: u32

record gfs2_rgrp =
  rg_flags :: u32
  rg_free :: u32
  rg_dinodes :: u32

record gfs2_buffer_head =
  b_blocknr :: u64
  b_modified :: bool
  b_data :: "u8 list"

text \<open>The field \<open>rl_id\<close> stands for the address of the structure.\<close>

record rgrp_list =
  rl_id :: nat
  rl_start :: u64
  rl_length :: u64
  rl_ri :: gfs2_rindex
  rl_rg :: gfs2_rgrp
  rl_bits :: "gfs2_bitmap list option"
  rl_bh :: "gfs2_buffer_head option list option"

record device =
  dev_start :: u64
  dev_length :: u64

text \<open>The fields of \<^verbatim>\<open>struct gfs2_sbd\<close> that the code below uses, and the static variable \<^verbatim>\<open>prev_rgd\<close> of \<^verbatim>\<open>gfs2_blk2rgrpd\<close>.\<close>

record gfs2_sbd =
  sd_sb_bsize :: u32
  sd_bsize :: u32
  sd_rgsize :: u32
  sd_device :: device
  sd_sb_addr :: u64
  sd_fssize :: u64
  sd_blks_total :: u64
  sd_rgrps :: u64
  sd_new_rgrps :: u64
  sd_rglist :: "rgrp_list list"
  sd_prev_rgd :: "nat option"

text \<open>What the headers of the kernel say: the sizes of the two structures and how they are written to a block.\<close>

record ondisk =
  sizeof_rgrp :: u32
  sizeof_meta_header :: u32
  gfs2_rgrp_out :: "gfs2_rgrp \<Rightarrow> u8 list \<Rightarrow> u8 list"
  gfs2_meta_header_out :: "u8 list \<Rightarrow> u8 list"

section \<open>The number of bitmap blocks\<close>

function bitblocks_loop :: "u32 \<Rightarrow> u32 \<Rightarrow> u32 \<Rightarrow> u32 \<Rightarrow> u32 \<Rightarrow> u32 \<times> u32" where
  "bitblocks_loop inc rgblocks bitblocks provided prev =
     (let needed = (rgblocks - bitblocks) div of_nat GFS2_NBBY in
      if provided \<ge> needed then (if prev \<ge> needed then bitblocks - 1 else bitblocks, needed)
      else bitblocks_loop inc rgblocks (bitblocks + 1) (provided + inc) provided)"
  by pat_completeness auto

lemma word_count_down: "(a :: u32) \<noteq> 0 \<Longrightarrow> unat (a - 1) < unat a"
  by (simp add: unat_minus_one unat_gt_0)

termination bitblocks_loop
proof (relation "measure (\<lambda>(inc, rgblocks, bitblocks, provided, prev). unat (rgblocks - bitblocks))", simp)
  fix inc rgblocks bitblocks provided prev needed :: u32
  assume "needed = (rgblocks - bitblocks) div of_nat GFS2_NBBY" "\<not> needed \<le> provided"
  then have "rgblocks - bitblocks \<noteq> 0" by auto
  from word_count_down [OF this]
  show "((inc, rgblocks, bitblocks + 1, provided + inc, provided), inc, rgblocks, bitblocks, provided, prev)
      \<in> measure (\<lambda>(inc, rgblocks, bitblocks, provided, prev). unat (rgblocks - bitblocks))"
    by (simp add: diff_diff_eq)
qed

declare bitblocks_loop.simps [simp del]

text \<open>The result is the pair of \<open>*rgblocks\<close> and \<open>*bitblocks\<close>.\<close>

definition rgblocks2bitblocks :: "ondisk \<Rightarrow> u32 \<Rightarrow> u32 \<Rightarrow> u32 \<times> u32" where
  "rgblocks2bitblocks od bsize rgblocks =
     (case bitblocks_loop (bsize - sizeof_meta_header od) rgblocks 1 (bsize - sizeof_rgrp od) 0 of
        (bitblocks, needed) \<Rightarrow> (needed * of_nat GFS2_NBBY, bitblocks))"

section \<open>The bitmaps of a resource group\<close>

text \<open>The body of the loop of \<^verbatim>\<open>gfs2_compute_bitstructs\<close>, with the number of bytes it takes.\<close>

definition bitstruct :: "ondisk \<Rightarrow> u32 \<Rightarrow> gfs2_rindex \<Rightarrow> nat \<Rightarrow> u32 \<Rightarrow> gfs2_bitmap \<times> u32" where
  "bitstruct od sb_bsize ri x bytes_left =
     (if ri_length ri = 1 then (\<lparr>bi_offset = sizeof_rgrp od, bi_start = 0, bi_len = bytes_left\<rparr>, bytes_left)
      else if x = 0 then
        (let bytes = sb_bsize - sizeof_rgrp od in (\<lparr>bi_offset = sizeof_rgrp od, bi_start = 0, bi_len = bytes\<rparr>, bytes))
      else if x + 1 = unat (ri_length ri) then
        (\<lparr>bi_offset = sizeof_meta_header od, bi_start = ri_bitbytes ri - bytes_left, bi_len = bytes_left\<rparr>, bytes_left)
      else
        (let bytes = sb_bsize - sizeof_meta_header od
         in (\<lparr>bi_offset = sizeof_meta_header od, bi_start = ri_bitbytes ri - bytes_left, bi_len = bytes\<rparr>, bytes)))"

fun bitstructs_loop :: "ondisk \<Rightarrow> u32 \<Rightarrow> gfs2_rindex \<Rightarrow> nat \<Rightarrow> nat \<Rightarrow> u32 \<Rightarrow> gfs2_bitmap list \<times> u32" where
  "bitstructs_loop od sb_bsize ri 0 x bytes_left = ([], bytes_left)"
| "bitstructs_loop od sb_bsize ri (Suc n) x bytes_left =
     (case bitstruct od sb_bsize ri x bytes_left of
        (bits, bytes) \<Rightarrow>
          (case bitstructs_loop od sb_bsize ri n (x + 1) (bytes_left - bytes) of (rest, left) \<Rightarrow> (bits # rest, left)))"

text \<open>
  \<open>got_bits\<close> and \<open>got_bh\<close> say whether the allocations succeed. An array that is there already and shorter
  than the number of blocks is overrun, which is \<open>None\<close>.
\<close>

definition gfs2_compute_bitstructs :: "ondisk \<Rightarrow> bool \<Rightarrow> bool \<Rightarrow> gfs2_sbd \<Rightarrow> rgrp_list \<Rightarrow> (int \<times> rgrp_list) option" where
  "gfs2_compute_bitstructs od got_bits got_bh sdp rgd =
     (let ri = rl_ri rgd; len = unat (ri_length ri) in
      if len > 2149 \<or> len = 0 then Some (-1, rgd)
      else if rl_bits rgd = None \<and> \<not> got_bits then Some (-1, rgd)
      else if (case rl_bits rgd of None \<Rightarrow> False | Some old \<Rightarrow> length old < len) then None
      else
        (case bitstructs_loop od (sd_sb_bsize sdp) ri len 0 (ri_bitbytes ri) of
           (bits, left) \<Rightarrow>
             (let rgd1 = rgd\<lparr>rl_bits := Some (bits @ (case rl_bits rgd of None \<Rightarrow> [] | Some old \<Rightarrow> drop len old))\<rparr>;
                  final = bits ! (len - 1)
              in if left \<noteq> 0 then Some (-1, rgd1)
                 else if (bi_start final + bi_len final) * of_nat GFS2_NBBY \<noteq> ri_data ri then Some (-1, rgd1)
                 else if rl_bh rgd1 \<noteq> None then Some (0, rgd1)
                 else if \<not> got_bh then Some (-1, rgd1)
                 else Some (0, rgd1\<lparr>rl_bh := Some (replicate len None)\<rparr>))))"

section \<open>Finding the resource group of a block\<close>

text \<open>A pointer to a resource group that has been freed is \<open>None\<close>.\<close>

definition rgrp_at :: "gfs2_sbd \<Rightarrow> nat \<Rightarrow> rgrp_list option" where
  "rgrp_at sdp i = find (\<lambda>r. rl_id r = i) (sd_rglist sdp)"

definition upd_rgrp :: "nat \<Rightarrow> (rgrp_list \<Rightarrow> rgrp_list) \<Rightarrow> gfs2_sbd \<Rightarrow> gfs2_sbd" where
  "upd_rgrp i f sdp = sdp\<lparr>sd_rglist := update_first (\<lambda>r. rl_id r = i) f (sd_rglist sdp)\<rparr>"

definition in_header :: "u64 \<Rightarrow> rgrp_list \<Rightarrow> bool" where
  "in_header blk rgd = (blk \<ge> ri_addr (rl_ri rgd) \<and> blk < ri_addr (rl_ri rgd) + ucast (ri_length (rl_ri rgd)))"

definition in_data :: "u64 \<Rightarrow> rgrp_list \<Rightarrow> bool" where
  "in_data blk rgd = (ri_data0 (rl_ri rgd) \<le> blk \<and> blk < ri_data0 (rl_ri rgd) + ucast (ri_data (rl_ri rgd)))"

text \<open>The result is \<open>None\<close> when the code follows a dangling \<^verbatim>\<open>prev_rgd\<close>; otherwise the address that is returned and the state.\<close>

definition blk2rgrpd_search :: "gfs2_sbd \<Rightarrow> u64 \<Rightarrow> nat option \<times> gfs2_sbd" where
  "blk2rgrpd_search sdp blk =
     (case find (\<lambda>rgd. in_header blk rgd \<or> in_data blk rgd) (sd_rglist sdp) of
        None \<Rightarrow> (None, sdp)
      | Some rgd \<Rightarrow> (Some (rl_id rgd), sdp\<lparr>sd_prev_rgd := Some (rl_id rgd)\<rparr>))"

definition gfs2_blk2rgrpd :: "gfs2_sbd \<Rightarrow> u64 \<Rightarrow> (nat option \<times> gfs2_sbd) option" where
  "gfs2_blk2rgrpd sdp blk =
     (case sd_prev_rgd sdp of
        None \<Rightarrow> Some (blk2rgrpd_search sdp blk)
      | Some i \<Rightarrow>
          (case rgrp_at sdp i of
             None \<Rightarrow> None
           | Some prev \<Rightarrow>
               if in_data blk prev then Some (Some i, sdp)
               else if in_header blk prev then Some (Some i, sdp)
               else Some (blk2rgrpd_search sdp blk)))"

section \<open>The state of a block\<close>

text \<open>The first bitmap block that holds a block of the resource group; the number of blocks if there is none.\<close>

fun find_bits :: "u32 \<Rightarrow> gfs2_bitmap list \<Rightarrow> nat" where
  "find_bits rgrp_block [] = 0"
| "find_bits rgrp_block (bits # rest) =
     (if rgrp_block < (bi_start bits + bi_len bits) * of_nat GFS2_NBBY then 0 else find_bits rgrp_block rest + 1)"

text \<open>
  The loop at the start of \<^verbatim>\<open>gfs2_set_bitmap\<close> and \<^verbatim>\<open>gfs2_get_bitmap\<close>: the number of the bitmap block, or \<open>None\<close> if the array
  is missing or shorter than the number of blocks.
\<close>

definition bitmap_block :: "rgrp_list \<Rightarrow> u32 \<Rightarrow> nat option" where
  "bitmap_block rgd rgrp_block =
     (let len = unat (ri_length (rl_ri rgd)) in
      case rl_bits rgd of
        None \<Rightarrow> if len = 0 then Some 0 else None
      | Some bits \<Rightarrow> if length bits < len then None else Some (find_bits rgrp_block (take len bits)))"

text \<open>
  The buffer and the offset in it of the byte that holds the state of a block, as entry \<open>k\<close> of the array \<^verbatim>\<open>bits\<close>
  describes it, in entry \<open>buf\<close> of the array of buffers. \<open>None\<close> stands for a null pointer or a place
  behind the end of an array or of the data of the buffer.
\<close>

definition bitmap_byte :: "rgrp_list \<Rightarrow> nat \<Rightarrow> nat \<Rightarrow> u32 \<Rightarrow> (gfs2_buffer_head \<times> nat) option" where
  "bitmap_byte rgd k buf rgrp_block =
     (case (rl_bits rgd, rl_bh rgd) of
        (Some bits, Some bh) \<Rightarrow>
          if k < length bits \<and> buf < length bh then
            (case bh ! buf of
               None \<Rightarrow> None
             | Some b \<Rightarrow>
                 (let x = unat (bi_offset (bits ! k)) + unat (rgrp_block div of_nat GFS2_NBBY - bi_start (bits ! k))
                  in if x < length (b_data b) then Some (b, x) else None))
          else None
      | _ \<Rightarrow> None)"

definition rgrp_block_of :: "rgrp_list \<Rightarrow> u64 \<Rightarrow> u32" where
  "rgrp_block_of rgd blkno = ucast (blkno - ri_data0 (rl_ri rgd))"

definition bit_in_byte :: "u32 \<Rightarrow> nat" where
  "bit_in_byte rgrp_block = unat (rgrp_block mod of_nat GFS2_NBBY) * GFS2_BIT_SIZE"

definition set_state :: "u8 \<Rightarrow> nat \<Rightarrow> u8 \<Rightarrow> u8" where
  "set_state byte n state =
     (let cur_state = drop_bit n byte AND GFS2_BIT_MASK in (byte XOR push_bit n cur_state) OR push_bit n state)"

definition put_byte :: "nat \<Rightarrow> nat \<Rightarrow> u8 \<Rightarrow> rgrp_list \<Rightarrow> rgrp_list" where
  "put_byte buf x v rgd =
     rgd\<lparr>rl_bh := map_option (\<lambda>bh. bh[buf := map_option (\<lambda>b. b\<lparr>b_data := (b_data b)[x := v], b_modified := True\<rparr>) (bh ! buf)]) (rl_bh rgd)\<rparr>"

text \<open>
  When no bitmap block holds the block, \<^verbatim>\<open>gfs2_set_bitmap\<close> goes on with the last entry of the array \<^verbatim>\<open>bits\<close> (none if there are no
  blocks) and with the number of blocks as the index into the array of buffers.
\<close>

definition gfs2_set_bitmap :: "gfs2_sbd \<Rightarrow> u64 \<Rightarrow> int \<Rightarrow> (int \<times> gfs2_sbd) option" where
  "gfs2_set_bitmap sdp blkno state =
     (if state < 0 \<or> state > 3 then Some (-1, sdp)
      else
        (case gfs2_blk2rgrpd sdp blkno of
           None \<Rightarrow> None
         | Some (None, sdp1) \<Rightarrow> Some (-1, sdp1)
         | Some (Some i, sdp1) \<Rightarrow>
             (case rgrp_at sdp1 i of
                None \<Rightarrow> None
              | Some rgd \<Rightarrow>
                  (let rgrp_block = rgrp_block_of rgd blkno in
                   case bitmap_block rgd rgrp_block of
                     None \<Rightarrow> None
                   | Some buf \<Rightarrow>
                       (if ri_length (rl_ri rgd) = 0 then None
                        else
                          (case bitmap_byte rgd (min buf (unat (ri_length (rl_ri rgd)) - 1)) buf rgrp_block of
                             None \<Rightarrow> None
                           | Some (b, x) \<Rightarrow>
                               Some (0, upd_rgrp i (put_byte buf x (set_state (b_data b ! x) (bit_in_byte rgrp_block) (word_of_int state))) sdp1)))))))"

definition get_state :: "rgrp_list \<Rightarrow> u64 \<Rightarrow> int option" where
  "get_state rgd blkno =
     (let rgrp_block = rgrp_block_of rgd blkno in
      case bitmap_block rgd rgrp_block of
        None \<Rightarrow> None
      | Some i \<Rightarrow>
          (if i \<ge> unat (ri_length (rl_ri rgd)) then Some (-1)
           else
             (case bitmap_byte rgd i i rgrp_block of
                None \<Rightarrow> None
              | Some (b, x) \<Rightarrow> Some (uint (drop_bit (bit_in_byte rgrp_block) (b_data b ! x) AND GFS2_BIT_MASK)))))"

definition gfs2_get_bitmap :: "gfs2_sbd \<Rightarrow> u64 \<Rightarrow> nat option \<Rightarrow> (int \<times> gfs2_sbd) option" where
  "gfs2_get_bitmap sdp blkno rgd =
     (case (case rgd of None \<Rightarrow> gfs2_blk2rgrpd sdp blkno | Some i \<Rightarrow> Some (Some i, sdp)) of
        None \<Rightarrow> None
      | Some (None, sdp1) \<Rightarrow> Some (-1, sdp1)
      | Some (Some i, sdp1) \<Rightarrow>
          (case rgrp_at sdp1 i of
             None \<Rightarrow> None
           | Some rgd \<Rightarrow> (case get_state rgd blkno of None \<Rightarrow> None | Some val \<Rightarrow> Some (val, sdp1))))"

definition gfs2_check_range :: "gfs2_sbd \<Rightarrow> u64 \<Rightarrow> int" where
  "gfs2_check_range sdp blkno = (if blkno > sd_fssize sdp \<or> blkno \<le> sd_sb_addr sdp then -1 else 0)"

section \<open>The layout of a device\<close>

text \<open>A run returns, leaves the program, or does what the language leaves undefined.\<close>

datatype 'a outcome = Returns 'a | Exits | Undefined

definition GFS2_DEFAULT_RGSIZE :: u32 where "GFS2_DEFAULT_RGSIZE = 256"
definition GFS2_EXCESSIVE_RGS :: u64 where "GFS2_EXCESSIVE_RGS = 10000"

text \<open>The number of resource groups and their size in megabytes; \<open>None\<close> is a division by zero.\<close>

function how_many_rgrps :: "bool \<Rightarrow> u64 \<Rightarrow> u32 \<Rightarrow> u32 \<Rightarrow> (u64 \<times> u32) option" where
  "how_many_rgrps rgsize_specified dlen bsize rgsize =
     (let per = push_bit 20 rgsize div bsize in
      if bsize = 0 \<or> per = 0 then None
      else
        (let nrgrp = (dlen + ucast per - 1) div ucast per in
         if rgsize_specified \<or> nrgrp \<le> GFS2_EXCESSIVE_RGS \<or> rgsize \<ge> 2048 then Some (nrgrp, rgsize)
         else how_many_rgrps rgsize_specified dlen bsize (rgsize + GFS2_DEFAULT_RGSIZE)))"
  by pat_completeness auto
termination
proof (relation "measure (\<lambda>(sp, dlen, bsize, rgsize). 2048 - unat rgsize)", simp)
  fix sp :: bool and dlen nrgrp :: u64 and bsize rgsize per :: u32
  assume "\<not> (sp \<or> nrgrp \<le> GFS2_EXCESSIVE_RGS \<or> 2048 \<le> rgsize)"
  then have "unat rgsize < 2048" by (simp add: word_le_nat_alt)
  then have "unat (rgsize + 256) = unat rgsize + 256" by (simp add: unat_word_ariths)
  then show "((sp, dlen, bsize, rgsize + GFS2_DEFAULT_RGSIZE), sp, dlen, bsize, rgsize) \<in> measure (\<lambda>(sp, dlen, bsize, rgsize). 2048 - unat rgsize)"
    using \<open>unat rgsize < 2048\<close> by (simp add: GFS2_DEFAULT_RGSIZE_def)
qed

declare how_many_rgrps.simps [simp del]

definition zero_rgrp :: "nat \<Rightarrow> u64 \<Rightarrow> u64 \<Rightarrow> rgrp_list" where
  "zero_rgrp i start len =
     \<lparr>rl_id = i, rl_start = start, rl_length = len,
      rl_ri = \<lparr>ri_addr = 0, ri_length = 0, ri_data0 = 0, ri_data = 0, ri_bitbytes = 0\<rparr>,
      rl_rg = \<lparr>rg_flags = 0, rg_free = 0, rg_dinodes = 0\<rparr>, rl_bits = None, rl_bh = None\<rparr>"

text \<open>The last loop of \<^verbatim>\<open>compute_rgrp_layout\<close>; \<open>calloc\<close> gives the address of each new structure, or fails.\<close>

fun layout_loop :: "(nat \<Rightarrow> nat option) \<Rightarrow> device \<Rightarrow> u32 \<Rightarrow> u64 \<Rightarrow> nat \<Rightarrow> nat \<Rightarrow> rgrp_list list \<Rightarrow> rgrp_list list option" where
  "layout_loop calloc dev nrgrp rglength 0 rgrp rls = Some rls"
| "layout_loop calloc dev nrgrp rglength (Suc n) rgrp rls =
     (case calloc rgrp of
        None \<Rightarrow> None
      | Some i \<Rightarrow>
          (let rl = (if rgrp \<noteq> 0 then zero_rgrp i (rl_start (last rls) + rl_length (last rls)) rglength
                     else zero_rgrp i (dev_start dev) (dev_length dev - ucast (nrgrp - 1) * (dev_length dev div ucast nrgrp)))
           in layout_loop calloc dev nrgrp rglength n (rgrp + 1) (rls @ [rl])))"

definition finish_layout :: "(nat \<Rightarrow> nat option) \<Rightarrow> u32 \<Rightarrow> u64 \<Rightarrow> gfs2_sbd \<Rightarrow> gfs2_sbd outcome" where
  "finish_layout calloc nrgrp rglength sdp =
     (let rgrp = length (sd_rglist sdp) in
      case layout_loop calloc (sd_device sdp) nrgrp rglength (unat nrgrp - rgrp) rgrp (sd_rglist sdp) of
        None \<Rightarrow> Exits
      | Some rls \<Rightarrow> Returns (sdp\<lparr>sd_rglist := rls, sd_rgrps := ucast nrgrp\<rparr>))"

definition layout_new :: "(nat \<Rightarrow> nat option) \<Rightarrow> bool \<Rightarrow> gfs2_sbd \<Rightarrow> gfs2_sbd outcome" where
  "layout_new calloc rgsize_specified sdp =
     (let dev = sd_device sdp; dev1 = dev\<lparr>dev_length := dev_length dev - (sd_sb_addr sdp + 1)\<rparr> in
      case how_many_rgrps rgsize_specified (dev_length dev1) (sd_bsize sdp) (sd_rgsize sdp) of
        None \<Rightarrow> Undefined
      | Some (n, rgsize) \<Rightarrow>
          (let nrgrp = ucast n :: u32 in
           if nrgrp = 0 then Undefined
           else finish_layout calloc nrgrp (dev_length dev1 div ucast nrgrp)
                  (sdp\<lparr>sd_device := dev1, sd_rgsize := rgsize, sd_new_rgrps := ucast nrgrp\<rparr>)))"

text \<open>With one resource group only, the code follows the null pointer \<^verbatim>\<open>rlast2\<close>.\<close>

definition layout_grow :: "(nat \<Rightarrow> nat option) \<Rightarrow> gfs2_sbd \<Rightarrow> gfs2_sbd outcome" where
  "layout_grow calloc sdp =
     (case rev (sd_rglist sdp) of
        rlast # rlast2 # _ \<Rightarrow>
          (let addr = ri_addr (rl_ri rlast);
               rglength = addr - ri_addr (rl_ri rlast2);
               new_chunk = dev_length (sd_device sdp) - (addr + rglength)
           in if rglength = 0 then Undefined
              else
                (let new_rgrps = new_chunk div rglength;
                     nrgrp = of_nat (length (sd_rglist sdp)) + ucast new_rgrps
                 in finish_layout calloc nrgrp rglength
                      (sdp\<lparr>sd_rglist := butlast (sd_rglist sdp) @ [rlast\<lparr>rl_start := addr, rl_length := rglength\<rparr>], sd_new_rgrps := new_rgrps\<rparr>)))
      | _ \<Rightarrow> Undefined)"

definition compute_rgrp_layout :: "(nat \<Rightarrow> nat option) \<Rightarrow> bool \<Rightarrow> gfs2_sbd \<Rightarrow> gfs2_sbd outcome" where
  "compute_rgrp_layout calloc rgsize_specified sdp =
     (let sdp1 = sdp\<lparr>sd_new_rgrps := 0, sd_device := (sd_device sdp)\<lparr>dev_start := dev_start (sd_device sdp) + (sd_sb_addr sdp + 1)\<rparr>\<rparr> in
      if sd_rglist sdp = [] then layout_new calloc rgsize_specified sdp1 else layout_grow calloc sdp1)"

section \<open>Building the resource groups\<close>

text \<open>A buffer of zeros for a block; the allocation is taken to succeed.\<close>

definition bget :: "gfs2_sbd \<Rightarrow> u64 \<Rightarrow> gfs2_buffer_head" where
  "bget sdp num = \<lparr>b_blocknr = num, b_modified = False, b_data = replicate (unat (sd_bsize sdp)) 0\<rparr>"

definition header_buffer :: "ondisk \<Rightarrow> gfs2_sbd \<Rightarrow> rgrp_list \<Rightarrow> nat \<Rightarrow> gfs2_buffer_head" where
  "header_buffer od sdp rl x =
     (let b = bget sdp (rl_start rl + of_nat x) in
      b\<lparr>b_data := (if x \<noteq> 0 then gfs2_meta_header_out od (b_data b) else gfs2_rgrp_out od (rl_rg rl) (b_data b)), b_modified := True\<rparr>)"

definition write_headers :: "ondisk \<Rightarrow> gfs2_sbd \<Rightarrow> u32 \<Rightarrow> rgrp_list \<Rightarrow> rgrp_list option" where
  "write_headers od sdp bitblocks rl =
     (let n = unat bitblocks in
      if n = 0 then Some rl
      else
        (case rl_bh rl of
           None \<Rightarrow> None
         | Some bh \<Rightarrow>
             if length bh < n then None
             else Some (rl\<lparr>rl_bh := Some (map (\<lambda>x. Some (header_buffer od sdp rl x)) [0..<n] @ drop n bh)\<rparr>)))"

definition set_rindex :: "u32 \<Rightarrow> u32 \<Rightarrow> rgrp_list \<Rightarrow> rgrp_list" where
  "set_rindex rgblocks bitblocks rl =
     rl\<lparr>rl_ri := \<lparr>ri_addr = rl_start rl, ri_length = bitblocks, ri_data0 = rl_start rl + ucast bitblocks, ri_data = rgblocks,
          ri_bitbytes = rgblocks div of_nat GFS2_NBBY\<rparr>,
        rl_rg := \<lparr>rg_flags = 0, rg_free = rgblocks, rg_dinodes = 0\<rparr>\<rparr>"

text \<open>The body of the loop of \<^verbatim>\<open>build_rgrps\<close>. The result of \<^verbatim>\<open>gfs2_compute_bitstructs\<close> is not looked at. \<open>alloc\<close> says for
  each resource group which allocations succeed.\<close>

definition build_rgrp :: "ondisk \<Rightarrow> (nat \<Rightarrow> bool \<times> bool) \<Rightarrow> bool \<Rightarrow> gfs2_sbd \<Rightarrow> rgrp_list \<Rightarrow> rgrp_list option" where
  "build_rgrp od alloc do_write sdp rl =
     (case rgblocks2bitblocks od (sd_bsize sdp) (ucast (rl_length rl)) of
        (rgblocks, bitblocks) \<Rightarrow>
          (case gfs2_compute_bitstructs od (fst (alloc (rl_id rl))) (snd (alloc (rl_id rl))) sdp (set_rindex rgblocks bitblocks rl) of
             None \<Rightarrow> None
           | Some (rv, rl1) \<Rightarrow> if do_write then write_headers od sdp bitblocks rl1 else Some rl1))"

fun build_loop :: "ondisk \<Rightarrow> (nat \<Rightarrow> bool \<times> bool) \<Rightarrow> bool \<Rightarrow> rgrp_list list \<Rightarrow> gfs2_sbd \<Rightarrow> gfs2_sbd option" where
  "build_loop od alloc do_write [] sdp = Some sdp"
| "build_loop od alloc do_write (rl # rls) sdp =
     (case build_rgrp od alloc do_write sdp rl of
        None \<Rightarrow> None
      | Some rl1 \<Rightarrow>
          build_loop od alloc do_write rls
            (sdp\<lparr>sd_rglist := sd_rglist sdp @ [rl1],
                 sd_blks_total := sd_blks_total sdp + ucast (ri_data (rl_ri rl1)),
                 sd_fssize := ri_data0 (rl_ri rl1) + ucast (ri_data (rl_ri rl1))\<rparr>))"

text \<open>The list is rebuilt from the front as its entries are changed in place.\<close>

definition build_rgrps :: "ondisk \<Rightarrow> (nat \<Rightarrow> bool \<times> bool) \<Rightarrow> bool \<Rightarrow> gfs2_sbd \<Rightarrow> gfs2_sbd option" where
  "build_rgrps od alloc do_write sdp = build_loop od alloc do_write (sd_rglist sdp) (sdp\<lparr>sd_rglist := []\<rparr>)"

section \<open>Releasing the resource groups\<close>

text \<open>The blocks that are written when a buffer is released; writing is taken to succeed.\<close>

definition brelse :: "gfs2_buffer_head \<Rightarrow> (u64 \<times> u8 list) list" where
  "brelse bh = (if b_modified bh then [(b_blocknr bh, b_data bh)] else [])"

definition gfs2_rgrp_relse :: "rgrp_list \<Rightarrow> ((u64 \<times> u8 list) list \<times> rgrp_list) option" where
  "gfs2_rgrp_relse rgd =
     (let len = unat (ri_length (rl_ri rgd)) in
      if len = 0 then Some ([], rgd)
      else
        (case rl_bh rgd of
           None \<Rightarrow> None
         | Some bh \<Rightarrow>
             if length bh < len \<or> None \<in> set (take len bh) then None
             else Some (concat (map (\<lambda>b. brelse (the b)) (take len bh)), rgd\<lparr>rl_bh := Some (replicate len None @ drop len bh)\<rparr>)))"

text \<open>A resource group whose first buffer is there has its buffers released; every structure is freed.\<close>

fun rgrp_free_loop :: "rgrp_list list \<Rightarrow> (u64 \<times> u8 list) list option" where
  "rgrp_free_loop [] = Some []"
| "rgrp_free_loop (rgd # rgds) =
     (case (case rl_bh rgd of Some (Some b # bs) \<Rightarrow> map_option fst (gfs2_rgrp_relse rgd) | _ \<Rightarrow> Some []) of
        None \<Rightarrow> None
      | Some ws \<Rightarrow> map_option (\<lambda>ws'. ws @ ws') (rgrp_free_loop rgds))"

definition gfs2_rgrp_free :: "gfs2_sbd \<Rightarrow> ((u64 \<times> u8 list) list \<times> gfs2_sbd) option" where
  "gfs2_rgrp_free sdp = map_option (\<lambda>ws. (ws, sdp\<lparr>sd_rglist := []\<rparr>)) (rgrp_free_loop (sd_rglist sdp))"

end
