(* ===== verification/Gfs2_Place.thy ===== *)
theory Gfs2_Place imports Gfs2_Rgrp begin

text \<open>
  Well-formed resource groups (\<open>rgrp_wf\<close>, \<open>sbd_wf\<close>): every data block has a place of its own in the buffers of the
  bitmap, so that changing the state of one leaves the others alone.
\<close>

lemma unat_lt32: "unat (w :: u32) < 2 ^ 32"
  using unsigned_less [of w] by simp

lemma unat_ucast_64: "unat (ucast (w :: u32) :: u64) = unat w"
  using unat_lt32 [of w] by (simp add: unsigned_ucast_eq take_bit_nat_eq_self)

section \<open>One byte\<close>

lemma bit_set_state:
  assumes "s \<le> 3"
  shows "bit (set_state v n s) k \<longleftrightarrow> (if n \<le> k \<and> k < n + 2 then k < 8 \<and> bit s (k - n) else bit v k)"
proof -
  have s2: "bit s j \<Longrightarrow> j < 2" for j by (rule bit_state [OF assms])
  have m: "bit (3 :: u8) j \<longleftrightarrow> j < 2" for j using bit_mask_iff [where ?'a = "8 word", of 2 j] by (auto simp: mask_eq_exp_minus_1)
  show ?thesis
    unfolding set_state_def Let_def GFS2_BIT_MASK_def bit_or_iff bit_xor_iff bit_push_bit_iff bit_and_iff bit_drop_bit_eq o_def m
    using s2 [of "k - n"] by (auto simp: possible_bit_def dest: bit_imp_le_length)
qed

lemma bit_three: "bit (3 :: u8) j \<longleftrightarrow> j < 2"
  using bit_mask_iff [where ?'a = "8 word", of 2 j] by (auto simp: mask_eq_exp_minus_1)

lemma bit_field: "bit (drop_bit n (v :: u8) AND 3) k \<longleftrightarrow> k < 2 \<and> bit v (n + k)"
  unfolding bit_and_iff bit_drop_bit_eq o_def bit_three by auto

lemma set_state_same: "s \<le> 3 \<Longrightarrow> n \<le> 6 \<Longrightarrow> drop_bit n (set_state v n s) AND 3 = s"
  by (rule bit_eqI) (auto simp only: bit_field bit_set_state dest: bit_state, auto dest: bit_state)

lemma set_state_other:
  assumes "s \<le> 3" "even n" "even n'" "n \<noteq> n'"
  shows "drop_bit n' (set_state v n s) AND 3 = drop_bit n' v AND 3"
proof (rule bit_eqI)
  fix k
  have "\<not> (n \<le> n' + k \<and> n' + k < n + 2)" if "k < 2"
  proof
    assume a: "n \<le> n' + k \<and> n' + k < n + 2"
    obtain a b where "n = 2 * a" "n' = 2 * b" using assms(2,3) by (auto elim!: evenE)
    then show False using a that assms(4) by arith
  qed
  then show "bit (drop_bit n' (set_state v n s) AND 3) k \<longleftrightarrow> bit (drop_bit n' v AND 3) k"
    unfolding bit_field bit_set_state [OF assms(1)] by auto
qed

section \<open>Well-formed resource groups\<close>

text \<open>
  The entries of the array \<^verbatim>\<open>bits\<close> divide the bytes of the bitmap among the blocks, each has its place behind the header
  of its block, and every block has a buffer.
\<close>

definition bits_wf :: "nat \<Rightarrow> nat \<Rightarrow> gfs2_bitmap list \<Rightarrow> bool" where
  "bits_wf bsize bitbytes bits \<longleftrightarrow>
     bits \<noteq> [] \<and> bi_start (hd bits) = 0 \<and> unat (bi_start (last bits)) + unat (bi_len (last bits)) = bitbytes \<and>
     list_all (\<lambda>x. unat (bi_start (bits ! (x + 1))) = unat (bi_start (bits ! x)) + unat (bi_len (bits ! x))) [0..<length bits - 1] \<and>
     list_all (\<lambda>b. unat (bi_offset b) + unat (bi_len b) \<le> bsize) bits"

definition buffers_wf :: "nat \<Rightarrow> gfs2_buffer_head option list \<Rightarrow> bool" where
  "buffers_wf bsize bh = list_all (\<lambda>b. case b of None \<Rightarrow> False | Some b \<Rightarrow> length (b_data b) = bsize) bh"

definition rgrp_wf :: "nat \<Rightarrow> rgrp_list \<Rightarrow> bool" where
  "rgrp_wf bsize rgd =
     (let ri = rl_ri rgd in
      case (rl_bits rgd, rl_bh rgd) of
        (Some bits, Some bh) \<Rightarrow>
          length bits = unat (ri_length ri) \<and> length bh = unat (ri_length ri) \<and>
          bits_wf bsize (unat (ri_bitbytes ri)) bits \<and> buffers_wf bsize bh \<and>
          unat (ri_data ri) = 4 * unat (ri_bitbytes ri) \<and>
          unat (ri_data0 ri) = unat (ri_addr ri) + unat (ri_length ri) \<and> unat (ri_data0 ri) + unat (ri_data ri) < 2 ^ 64
      | _ \<Rightarrow> False)"

lemma bits_wf_start:
  assumes "bits_wf bsize bitbytes bits" "x + 1 < length bits"
  shows "unat (bi_start (bits ! (x + 1))) = unat (bi_start (bits ! x)) + unat (bi_len (bits ! x))"
  using assms unfolding bits_wf_def list_all_iff by auto

lemma bits_wf_end:
  assumes "bits_wf bsize bitbytes bits" "x < length bits"
  shows "unat (bi_start (bits ! x)) + unat (bi_len (bits ! x)) \<le> bitbytes"
  using assms
proof (induction "length bits - Suc x" arbitrary: x)
  case 0
  then have "x = length bits - 1" by simp
  moreover have "bits \<noteq> []" "unat (bi_start (last bits)) + unat (bi_len (last bits)) = bitbytes" using 0 by (simp_all add: bits_wf_def)
  ultimately show ?case using last_conv_nth [of bits] by simp
next
  case (Suc n)
  then have "unat (bi_start (bits ! (x + 1))) + unat (bi_len (bits ! (x + 1))) \<le> bitbytes" by simp
  then show ?case using bits_wf_start [OF Suc.prems(1), of x] Suc.hyps(2) by simp
qed

text \<open>The block that holds byte \<open>n\<close> of the bitmap.\<close>

definition holds_byte :: "gfs2_bitmap list \<Rightarrow> nat \<Rightarrow> nat \<Rightarrow> bool" where
  "holds_byte bits n x \<longleftrightarrow> x < length bits \<and> unat (bi_start (bits ! x)) \<le> n \<and> n < unat (bi_start (bits ! x)) + unat (bi_len (bits ! x))"

lemma find_bits_word:
  assumes "unat (bi_start b) + unat (bi_len b) \<le> bitbytes" "4 * bitbytes < 2 ^ 32"
  shows "g < (bi_start b + bi_len b) * of_nat GFS2_NBBY \<longleftrightarrow> unat g div 4 < unat (bi_start b) + unat (bi_len b)"
proof -
  have "unat (bi_start b + bi_len b) = unat (bi_start b) + unat (bi_len b)" using assms by (simp add: unat_word_ariths)
  then have "unat ((bi_start b + bi_len b) * of_nat GFS2_NBBY) = 4 * (unat (bi_start b) + unat (bi_len b))"
    using assms by (simp add: unat_word_ariths GFS2_NBBY_def)
  then show ?thesis unfolding word_less_nat_alt by (auto simp: less_mult_imp_div_less div_less_iff_less_mult)
qed

lemma find_bits_least:
  assumes "\<And>b. b \<in> set bits \<Longrightarrow> unat (bi_start b) + unat (bi_len b) \<le> bitbytes" "4 * bitbytes < 2 ^ 32"
    and "x < length bits" "unat g div 4 < unat (bi_start (bits ! x)) + unat (bi_len (bits ! x))"
    and "\<And>y. y < x \<Longrightarrow> \<not> unat g div 4 < unat (bi_start (bits ! y)) + unat (bi_len (bits ! y))"
  shows "find_bits g bits = x"
  using assms
proof (induction bits arbitrary: x)
  case (Cons b bits)
  note w = find_bits_word [OF Cons.prems(1) Cons.prems(2), of b g, OF list.set_intros(1)]
  show ?case
  proof (cases x)
    case 0
    then show ?thesis using Cons.prems(4) w by simp
  next
    case (Suc y)
    then have "find_bits g bits = y" using Cons.prems(1,2,3,4) Cons.prems(5) [of "Suc _"] by (intro Cons.IH) auto
    then show ?thesis using Suc Cons.prems(5) [of 0] w by simp
  qed
qed simp

lemma find_bits_holds:
  assumes "bits_wf bsize bitbytes bits" "4 * bitbytes < 2 ^ 32" "unat g < 4 * bitbytes"
  shows "holds_byte bits (unat g div 4) (find_bits g bits)"
proof -
  define upto where "upto x = unat (bi_start (bits ! x)) + unat (bi_len (bits ! x))" for x
  have ne: "bits \<noteq> []" "upto (length bits - 1) = bitbytes"
    using assms(1) last_conv_nth [of bits] by (simp_all add: bits_wf_def upto_def)
  have "unat g div 4 < upto (length bits - 1)" using assms(3) ne(2) by (simp add: less_mult_imp_div_less)
  then obtain x where x: "x \<le> length bits - 1" "unat g div 4 < upto x" "\<And>y. y < x \<Longrightarrow> \<not> unat g div 4 < upto y"
    using ex_least_nat_le [of "\<lambda>x. unat g div 4 < upto x"] by blast
  have len: "x < length bits" using x(1) ne(1) by (cases bits) simp_all
  have "find_bits g bits = x"
    by (rule find_bits_least [OF _ assms(2) len x(2)[unfolded upto_def] x(3)[unfolded upto_def]])
       (auto simp: in_set_conv_nth intro: bits_wf_end [OF assms(1)])
  moreover have "unat (bi_start (bits ! x)) \<le> unat g div 4"
  proof (cases x)
    case 0
    then show ?thesis using assms(1) ne(1) by (simp add: bits_wf_def hd_conv_nth)
  next
    case (Suc y)
    then show ?thesis using bits_wf_start [OF assms(1), of y] len x(3) [of y] by (simp add: upto_def)
  qed
  ultimately show ?thesis using len x(2) by (simp add: holds_byte_def upto_def)
qed

lemma holds_byte_unique:
  assumes "bits_wf bsize bitbytes bits" "holds_byte bits n x" "holds_byte bits n y"
  shows "x = y"
proof -
  have mono: "unat (bi_start (bits ! a)) + unat (bi_len (bits ! a)) \<le> unat (bi_start (bits ! b))" if "a < b" "b < length bits" for a b
    using that
  proof (induction b)
    case (Suc b)
    then show ?case using bits_wf_start [OF assms(1), of b] by (cases "a = b") auto
  qed simp
  show ?thesis using mono [of x y] mono [of y x] assms(2,3) unfolding holds_byte_def by (cases x y rule: linorder_cases) auto
qed

section \<open>The place of a block\<close>

definition place_buf :: "rgrp_list \<Rightarrow> u32 \<Rightarrow> nat" where
  "place_buf rgd g = find_bits g (the (rl_bits rgd))"

definition place_byte :: "rgrp_list \<Rightarrow> u32 \<Rightarrow> nat" where
  "place_byte rgd g =
     (let b = the (rl_bits rgd) ! place_buf rgd g in unat (bi_offset b) + (unat g div 4 - unat (bi_start b)))"

lemma rgrp_wf_cases:
  assumes "rgrp_wf bsize rgd"
  obtains bits bh where "rl_bits rgd = Some bits" "rl_bh rgd = Some bh" "length bits = unat (ri_length (rl_ri rgd))"
    "length bh = unat (ri_length (rl_ri rgd))" "bits_wf bsize (unat (ri_bitbytes (rl_ri rgd))) bits" "buffers_wf bsize bh"
    "unat (ri_data (rl_ri rgd)) = 4 * unat (ri_bitbytes (rl_ri rgd))"
    "unat (ri_data0 (rl_ri rgd)) = unat (ri_addr (rl_ri rgd)) + unat (ri_length (rl_ri rgd))"
    "unat (ri_data0 (rl_ri rgd)) + unat (ri_data (rl_ri rgd)) < 2 ^ 64"
  using assms by (auto simp: rgrp_wf_def Let_def split: option.splits)

lemma place:
  assumes "rgrp_wf bsize rgd" "g < ri_data (rl_ri rgd)"
  shows "place_buf rgd g < unat (ri_length (rl_ri rgd))" "bitmap_block rgd g = Some (place_buf rgd g)"
    "\<exists>b. the (rl_bh rgd) ! place_buf rgd g = Some b \<and> length (b_data b) = bsize \<and> place_byte rgd g < bsize \<and>
       bitmap_byte rgd (place_buf rgd g) (place_buf rgd g) g = Some (b, place_byte rgd g)"
proof -
  obtain bits bh where r: "rl_bits rgd = Some bits" "rl_bh rgd = Some bh" "length bits = unat (ri_length (rl_ri rgd))"
    "length bh = unat (ri_length (rl_ri rgd))" "bits_wf bsize (unat (ri_bitbytes (rl_ri rgd))) bits" "buffers_wf bsize bh"
    "unat (ri_data (rl_ri rgd)) = 4 * unat (ri_bitbytes (rl_ri rgd))"
    by (rule rgrp_wf_cases [OF assms(1)])
  have lt: "unat g < 4 * unat (ri_bitbytes (rl_ri rgd))" using assms(2) r(7) by (simp add: word_less_nat_alt)
  have "4 * unat (ri_bitbytes (rl_ri rgd)) < 2 ^ 32" using r(7) unat_lt32 [of "ri_data (rl_ri rgd)"] by simp
  from find_bits_holds [OF r(5) this lt] have h: "holds_byte bits (unat g div 4) (place_buf rgd g)" by (simp add: place_buf_def r(1))
  then show l: "place_buf rgd g < unat (ri_length (rl_ri rgd))" using r(3) by (simp add: holds_byte_def)
  show "bitmap_block rgd g = Some (place_buf rgd g)" using r(1,3) by (simp add: bitmap_block_def place_buf_def)
  define e where "e = bits ! place_buf rgd g"
  have e: "unat (bi_start e) \<le> unat g div 4" "unat g div 4 < unat (bi_start e) + unat (bi_len e)" using h by (simp_all add: holds_byte_def e_def)
  have "unat (g div of_nat GFS2_NBBY - bi_start e) = unat g div 4 - unat (bi_start e)"
  proof -
    have "unat (g div of_nat GFS2_NBBY) = unat g div 4" by (simp add: GFS2_NBBY_def unat_div)
    then show ?thesis using e(1) by (simp add: unat_sub word_le_nat_alt)
  qed
  moreover have "unat (bi_offset e) + unat (bi_len e) \<le> bsize"
    using r(5) l r(3) by (simp add: bits_wf_def list_all_length e_def)
  moreover obtain b where b: "bh ! place_buf rgd g = Some b" "length (b_data b) = bsize"
    using r(4,6) l by (auto simp: buffers_wf_def list_all_length split: option.splits)
  moreover have pb: "place_byte rgd g = unat (bi_offset e) + (unat g div 4 - unat (bi_start e))" by (simp add: place_byte_def Let_def r(1) e_def)
  ultimately show "\<exists>b. the (rl_bh rgd) ! place_buf rgd g = Some b \<and> length (b_data b) = bsize \<and> place_byte rgd g < bsize \<and>
       bitmap_byte rgd (place_buf rgd g) (place_buf rgd g) g = Some (b, place_byte rgd g)"
    using e l r(1-4) by (auto simp: bitmap_byte_def Let_def e_def [symmetric])
qed

lemma bit_in_byte: "bit_in_byte g = 2 * (unat g mod 4)"
  by (simp add: bit_in_byte_def GFS2_NBBY_def GFS2_BIT_SIZE_def unat_mod)

definition block_val :: "rgrp_list \<Rightarrow> u32 \<Rightarrow> u8" where
  "block_val rgd g = drop_bit (bit_in_byte g) (b_data (the (the (rl_bh rgd) ! place_buf rgd g)) ! place_byte rgd g) AND 3"

definition put_block :: "u32 \<Rightarrow> u8 \<Rightarrow> rgrp_list \<Rightarrow> rgrp_list" where
  "put_block g s rgd =
     put_byte (place_buf rgd g) (place_byte rgd g)
       (set_state (b_data (the (the (rl_bh rgd) ! place_buf rgd g)) ! place_byte rgd g) (bit_in_byte g) s) rgd"

lemma put_byte_fields [simp]:
  "rl_id (put_byte k x v rgd) = rl_id rgd" "rl_ri (put_byte k x v rgd) = rl_ri rgd" "rl_bits (put_byte k x v rgd) = rl_bits rgd"
  by (simp_all add: put_byte_def)

lemma put_block_fields [simp]:
  "rl_id (put_block g s rgd) = rl_id rgd" "rl_ri (put_block g s rgd) = rl_ri rgd" "rl_bits (put_block g s rgd) = rl_bits rgd"
  "place_buf (put_block g s rgd) = place_buf rgd" "place_byte (put_block g s rgd) = place_byte rgd"
  by (simp_all add: put_block_def place_buf_def place_byte_def fun_eq_iff)

lemma put_byte_wf:
  assumes "rgrp_wf bsize rgd"
  shows "rgrp_wf bsize (put_byte k x v rgd)"
proof -
  obtain bits bh where r: "rl_bits rgd = Some bits" "rl_bh rgd = Some bh" "buffers_wf bsize bh" by (rule rgrp_wf_cases [OF assms])
  have "buffers_wf bsize (bh[k := map_option (\<lambda>b. b\<lparr>b_data := (b_data b)[x := v], b_modified := True\<rparr>) (bh ! k)])"
  proof (cases "k < length bh")
    case True
    then obtain b where "bh ! k = Some b" "length (b_data b) = bsize" using r(3) by (auto simp: buffers_wf_def list_all_length split: option.splits)
    then show ?thesis using r(3) by (auto simp: buffers_wf_def list_all_iff dest!: set_update_subset_insert [THEN subsetD])
  qed (use r(3) in \<open>simp add: list_update_beyond\<close>)
  then show ?thesis using assms r(1,2) unfolding put_byte_def by (simp add: rgrp_wf_def Let_def)
qed

lemma put_block_wf: "rgrp_wf bsize rgd \<Longrightarrow> rgrp_wf bsize (put_block g s rgd)"
  unfolding put_block_def by (rule put_byte_wf)

lemma place_inj:
  assumes "rgrp_wf bsize rgd" "g < ri_data (rl_ri rgd)" "h < ri_data (rl_ri rgd)"
    and "place_buf rgd g = place_buf rgd h" "place_byte rgd g = place_byte rgd h" "bit_in_byte g = bit_in_byte h"
  shows "g = h"
proof -
  obtain bits where r: "rl_bits rgd = Some bits" "bits_wf bsize (unat (ri_bitbytes (rl_ri rgd))) bits"
    "unat (ri_data (rl_ri rgd)) = 4 * unat (ri_bitbytes (rl_ri rgd))"
    by (rule rgrp_wf_cases [OF assms(1)])
  have lt: "4 * unat (ri_bitbytes (rl_ri rgd)) < 2 ^ 32" using r(3) unat_lt32 [of "ri_data (rl_ri rgd)"] by simp
  have "unat (bi_start (bits ! place_buf rgd k)) \<le> unat k div 4" if "k < ri_data (rl_ri rgd)" for k
    using find_bits_holds [OF r(2) lt, of k] that r(3) by (simp add: word_less_nat_alt holds_byte_def place_buf_def r(1))
  from this [OF assms(2)] this [OF assms(3)] have "unat g div 4 = unat h div 4"
    using assms(4,5) by (simp add: place_byte_def Let_def r(1))
  moreover have "unat g mod 4 = unat h mod 4" using assms(6) by (simp add: bit_in_byte)
  ultimately have "unat g = unat h" by (metis div_mult_mod_eq)
  then show ?thesis by (simp only: word_unat_eq_iff)
qed

lemma block_val_put:
  assumes "rgrp_wf bsize rgd" "g < ri_data (rl_ri rgd)" "h < ri_data (rl_ri rgd)" "s \<le> 3"
  shows "block_val (put_block g s rgd) h = (if h = g then s else block_val rgd h)"
proof -
  obtain bits bh where r: "rl_bh rgd = Some bh" "length bh = unat (ri_length (rl_ri rgd))" by (rule rgrp_wf_cases [OF assms(1)])
  obtain b where b: "bh ! place_buf rgd g = Some b" "place_byte rgd g < length (b_data b)" "place_buf rgd g < length bh"
    using place [OF assms(1,2)] r by auto
  define w where "w = set_state (b_data b ! place_byte rgd g) (bit_in_byte g) s"
  have new: "the (rl_bh (put_block g s rgd)) = bh[place_buf rgd g := Some (b\<lparr>b_data := (b_data b)[place_byte rgd g := w], b_modified := True\<rparr>)]"
    by (simp add: put_block_def put_byte_def r(1) b(1) w_def)
  have even: "even (bit_in_byte k)" "bit_in_byte k \<le> 6" for k
  proof -
    have "unat k mod 4 < 4" by simp
    then show "even (bit_in_byte k)" "bit_in_byte k \<le> 6" unfolding bit_in_byte by simp_all
  qed
  show ?thesis
  proof (cases "place_buf rgd h = place_buf rgd g \<and> place_byte rgd h = place_byte rgd g")
    case True
    then have v: "block_val (put_block g s rgd) h = drop_bit (bit_in_byte h) w AND 3" using b by (simp add: block_val_def new)
    show ?thesis
    proof (cases "h = g")
      case False
      then have "bit_in_byte g \<noteq> bit_in_byte h" using place_inj [OF assms(1,3,2)] True by auto
      then show ?thesis unfolding v w_def using False True set_state_other [OF assms(4) even(1) even(1)] r b by (simp add: block_val_def)
    next
      case eq: True
      then show ?thesis unfolding v w_def using set_state_same [OF assms(4) even(2)] by simp
    qed
  next
    case False
    then show ?thesis using b r by (auto simp: block_val_def new nth_list_update)
  qed
qed

section \<open>Reading and changing a block of one resource group\<close>

lemma in_data_block:
  assumes "rgrp_wf bsize rgd" "in_data blk rgd"
  shows "rgrp_block_of rgd blk < ri_data (rl_ri rgd)" "unat blk = unat (ri_data0 (rl_ri rgd)) + unat (rgrp_block_of rgd blk)"
proof -
  have sum: "unat (ri_data0 (rl_ri rgd)) + unat (ri_data (rl_ri rgd)) < 2 ^ 64" by (rule rgrp_wf_cases [OF assms(1)])
  have c: "unat (ucast (ri_data (rl_ri rgd)) :: u64) = unat (ri_data (rl_ri rgd))" by (rule unat_ucast_64)
  have "unat (ri_data0 (rl_ri rgd) + ucast (ri_data (rl_ri rgd))) = unat (ri_data0 (rl_ri rgd)) + unat (ri_data (rl_ri rgd))"
    using sum c by (simp add: unat_word_ariths)
  then have d: "unat (ri_data0 (rl_ri rgd)) \<le> unat blk" "unat blk < unat (ri_data0 (rl_ri rgd)) + unat (ri_data (rl_ri rgd))"
    using assms(2) by (simp_all add: in_data_def word_le_nat_alt word_less_nat_alt)
  then have "unat (blk - ri_data0 (rl_ri rgd)) = unat blk - unat (ri_data0 (rl_ri rgd))" by (simp add: unat_sub word_le_nat_alt)
  moreover have "unat blk - unat (ri_data0 (rl_ri rgd)) < 2 ^ 32" using d unat_lt32 [of "ri_data (rl_ri rgd)"] by linarith
  ultimately have u: "unat (rgrp_block_of rgd blk) = unat blk - unat (ri_data0 (rl_ri rgd))"
    by (simp add: rgrp_block_of_def unsigned_ucast_eq take_bit_nat_eq_self)
  show "unat blk = unat (ri_data0 (rl_ri rgd)) + unat (rgrp_block_of rgd blk)" "rgrp_block_of rgd blk < ri_data (rl_ri rgd)"
    using u d by (simp_all add: word_less_nat_alt)
qed

lemma get_state_block:
  assumes "rgrp_wf bsize rgd" "rgrp_block_of rgd blk < ri_data (rl_ri rgd)"
  shows "get_state rgd blk = Some (uint (block_val rgd (rgrp_block_of rgd blk)))"
  using place [OF assms] by (auto simp: get_state_def Let_def block_val_def GFS2_BIT_MASK_def)

section \<open>Reading and changing a block of the file system\<close>

definition rg_end :: "rgrp_list \<Rightarrow> nat" where
  "rg_end rgd = unat (ri_data0 (rl_ri rgd)) + unat (ri_data (rl_ri rgd))"

text \<open>
  The resource groups are well formed, have different addresses in memory, lie one behind the other on the device,
  and the remembered one is still there.
\<close>

definition sbd_wf :: "gfs2_sbd \<Rightarrow> bool" where
  "sbd_wf sdp \<longleftrightarrow>
     list_all (rgrp_wf (unat (sd_bsize sdp))) (sd_rglist sdp) \<and> distinct (map rl_id (sd_rglist sdp)) \<and>
     sorted_wrt (\<lambda>r t. rg_end r \<le> unat (ri_addr (rl_ri t))) (sd_rglist sdp) \<and>
     (case sd_prev_rgd sdp of None \<Rightarrow> True | Some i \<Rightarrow> i \<in> set (map rl_id (sd_rglist sdp)))"

lemma covers_range:
  assumes "rgrp_wf bsize rgd"
  shows "in_header blk rgd \<or> in_data blk rgd \<longleftrightarrow> unat (ri_addr (rl_ri rgd)) \<le> unat blk \<and> unat blk < rg_end rgd"
proof -
  let ?ri = "rl_ri rgd"
  have d: "unat (ri_data0 ?ri) = unat (ri_addr ?ri) + unat (ri_length ?ri)" "unat (ri_data0 ?ri) + unat (ri_data ?ri) < 2 ^ 64"
    by (rule rgrp_wf_cases [OF assms], simp)+
  then have "unat (ri_addr ?ri + ucast (ri_length ?ri)) = unat (ri_addr ?ri) + unat (ri_length ?ri)"
    "unat (ri_data0 ?ri + ucast (ri_data ?ri)) = unat (ri_data0 ?ri) + unat (ri_data ?ri)"
    by (simp_all add: unat_word_ariths unat_ucast_64)
  then show ?thesis using d(1) by (auto simp: in_header_def in_data_def rg_end_def word_le_nat_alt word_less_nat_alt)
qed

lemma covers_unique:
  assumes "sbd_wf sdp" "r \<in> set (sd_rglist sdp)" "t \<in> set (sd_rglist sdp)"
    and "in_header blk r \<or> in_data blk r" "in_header blk t \<or> in_data blk t"
  shows "r = t"
proof -
  have wf: "rgrp_wf (unat (sd_bsize sdp)) r" "rgrp_wf (unat (sd_bsize sdp)) t" using assms(1-3) by (auto simp: sbd_wf_def list_all_iff)
  have rng: "unat (ri_addr (rl_ri r)) \<le> unat blk" "unat blk < rg_end r" "unat (ri_addr (rl_ri t)) \<le> unat blk" "unat blk < rg_end t"
    using assms(4,5) covers_range [OF wf(1)] covers_range [OF wf(2)] by auto
  obtain i j where ij: "i < length (sd_rglist sdp)" "r = sd_rglist sdp ! i" "j < length (sd_rglist sdp)" "t = sd_rglist sdp ! j"
    using assms(2,3) by (auto simp: in_set_conv_nth)
  have ord: "rg_end (sd_rglist sdp ! a) \<le> unat (ri_addr (rl_ri (sd_rglist sdp ! b)))" if "a < b" "b < length (sd_rglist sdp)" for a b
    using assms(1) that by (simp add: sbd_wf_def sorted_wrt_iff_nth_less)
  have "\<not> i < j" using ord [OF _ ij(3), of i, folded ij(2,4)] rng(2,3) by linarith
  moreover have "\<not> j < i" using ord [OF _ ij(1), of j, folded ij(2,4)] rng(1,4) by linarith
  ultimately show ?thesis using ij(2,4) by simp
qed

lemma rgrp_at_member:
  assumes "distinct (map rl_id (sd_rglist sdp))" "rgd \<in> set (sd_rglist sdp)"
  shows "rgrp_at sdp (rl_id rgd) = Some rgd"
proof -
  have "find (\<lambda>r. rl_id r = rl_id rgd) xs = Some rgd" if "distinct (map rl_id xs)" "rgd \<in> set xs" for xs
    using that by (induction xs) (auto simp: image_iff)
  then show ?thesis using assms by (simp add: rgrp_at_def)
qed

lemma find_unique:
  assumes "x \<in> set xs" "P x" "\<And>y. y \<in> set xs \<Longrightarrow> P y \<Longrightarrow> y = x"
  shows "find P xs = Some x"
  using assms
proof (induction xs)
  case (Cons z zs)
  show ?case
  proof (cases "P z")
    case True
    then show ?thesis using Cons.prems(3) [of z] by simp
  next
    case False
    then have "x \<in> set zs" using Cons.prems(1,2) by auto
    then have "find P zs = Some x" using Cons.prems(3) by (intro Cons.IH [OF _ assms(2)]) (simp_all only: list.set_intros)
    then show ?thesis using False by simp
  qed
qed simp

lemma blk2rgrpd_finds:
  assumes "sbd_wf sdp" "rgd \<in> set (sd_rglist sdp)" "in_header blk rgd \<or> in_data blk rgd"
  shows "gfs2_blk2rgrpd sdp blk = Some (Some (rl_id rgd), sdp\<lparr>sd_prev_rgd := Some (rl_id rgd)\<rparr>)"
proof -
  have "find (\<lambda>r. in_header blk r \<or> in_data blk r) (sd_rglist sdp) = Some rgd"
  proof (rule find_unique [OF assms(2)])
    show "in_header blk rgd \<or> in_data blk rgd" by (rule assms(3))
    fix y assume "y \<in> set (sd_rglist sdp)" "in_header blk y \<or> in_data blk y"
    then show "y = rgd" by (rule covers_unique [OF assms(1) _ assms(2) _ assms(3)])
  qed
  then have search: "blk2rgrpd_search sdp blk = (Some (rl_id rgd), sdp\<lparr>sd_prev_rgd := Some (rl_id rgd)\<rparr>)"
    by (simp add: blk2rgrpd_search_def)
  show ?thesis
  proof (cases "sd_prev_rgd sdp")
    case None
    then show ?thesis using search by (simp add: gfs2_blk2rgrpd_def)
  next
    case (Some i)
    then obtain prev where p: "prev \<in> set (sd_rglist sdp)" "rl_id prev = i" using assms(1) by (auto simp: sbd_wf_def)
    have at: "rgrp_at sdp i = Some prev" using rgrp_at_member [of sdp prev] assms(1) p by (simp add: sbd_wf_def)
    show ?thesis
    proof (cases "in_header blk prev \<or> in_data blk prev")
      case True
      then have "prev = rgd" using covers_unique [OF assms(1) p(1) assms(2) _ assms(3)] by simp
      then have "i = rl_id rgd" using p(2) by simp
      then have "sdp\<lparr>sd_prev_rgd := Some (rl_id rgd)\<rparr> = sdp" using Some by (cases sdp) simp
      then show ?thesis unfolding gfs2_blk2rgrpd_def Some option.case at using True \<open>i = rl_id rgd\<close> by auto
    next
      case False
      then show ?thesis using at Some search by (simp add: gfs2_blk2rgrpd_def)
    qed
  qed
qed

lemma update_first_map:
  "distinct (map k xs) \<Longrightarrow> update_first (\<lambda>r. k r = i) f xs = map (\<lambda>r. if k r = i then f r else r) xs"
proof (induction xs)
  case (Cons x xs)
  then have "map (\<lambda>r. if k r = i then f r else r) xs = xs" if "k x = i"
    using that by (intro map_idI) (auto simp: image_iff)
  then show ?case using Cons by simp
qed simp

lemma upd_rgrp_wf:
  assumes "sbd_wf sdp" "\<And>r. rl_id (f r) = rl_id r" "\<And>r. rl_ri (f r) = rl_ri r" "\<And>r. rgrp_wf (unat (sd_bsize sdp)) r \<Longrightarrow> rgrp_wf (unat (sd_bsize sdp)) (f r)"
  shows "sbd_wf (upd_rgrp i f sdp)"
proof -
  let ?g = "\<lambda>r. if rl_id r = i then f r else r"
  have xs: "sd_rglist (upd_rgrp i f sdp) = map ?g (sd_rglist sdp)"
    using assms(1) by (simp add: upd_rgrp_def sbd_wf_def update_first_map)
  have ids: "map rl_id (map ?g (sd_rglist sdp)) = map rl_id (sd_rglist sdp)" using assms(2) by simp
  have "rg_end (?g r) = rg_end r" "rl_ri (?g r) = rl_ri r" for r using assms(3) by (simp_all add: rg_end_def)
  then have srt: "sorted_wrt (\<lambda>r t. rg_end r \<le> unat (ri_addr (rl_ri t))) (map ?g (sd_rglist sdp))"
    using assms(1) by (simp add: sbd_wf_def sorted_wrt_map)
  show ?thesis unfolding sbd_wf_def xs ids using assms(1,4) srt by (auto simp: sbd_wf_def list_all_iff upd_rgrp_def split: option.splits)
qed

lemma upd_rgrp_cong:
  assumes "distinct (map rl_id (sd_rglist sdp))" "rgd \<in> set (sd_rglist sdp)" "f rgd = h rgd"
  shows "upd_rgrp (rl_id rgd) f sdp = upd_rgrp (rl_id rgd) h sdp"
proof -
  have "r = rgd" if "r \<in> set (sd_rglist sdp)" "rl_id r = rl_id rgd" for r
    using assms(1,2) that by (auto simp: distinct_map dest: inj_onD)
  then have "map (\<lambda>r. if rl_id r = rl_id rgd then f r else r) (sd_rglist sdp) = map (\<lambda>r. if rl_id r = rl_id rgd then h r else r) (sd_rglist sdp)"
    using assms(3) by (intro map_cong) auto
  then show ?thesis using assms(1) by (simp add: upd_rgrp_def update_first_map)
qed

lemma set_bitmap_data:
  assumes "sbd_wf sdp" "rgd \<in> set (sd_rglist sdp)" "in_data blk rgd" "0 \<le> state" "state \<le> 3"
  shows "gfs2_set_bitmap sdp blk state =
    Some (0, upd_rgrp (rl_id rgd) (put_block (rgrp_block_of rgd blk) (word_of_int state)) (sdp\<lparr>sd_prev_rgd := Some (rl_id rgd)\<rparr>))"
proof -
  have wf: "rgrp_wf (unat (sd_bsize sdp)) rgd" using assms(1,2) by (auto simp: sbd_wf_def list_all_iff)
  have at: "rgrp_at (sdp\<lparr>sd_prev_rgd := Some (rl_id rgd)\<rparr>) (rl_id rgd) = Some rgd"
    using rgrp_at_member [of "sdp\<lparr>sd_prev_rgd := Some (rl_id rgd)\<rparr>" rgd] assms(1,2) by (simp add: sbd_wf_def)
  have fit: "rgrp_block_of rgd blk < ri_data (rl_ri rgd)" by (rule in_data_block [OF wf assms(3)])
  define g where "g = rgrp_block_of rgd blk"
  obtain b where b: "the (rl_bh rgd) ! place_buf rgd g = Some b" "bitmap_byte rgd (place_buf rgd g) (place_buf rgd g) g = Some (b, place_byte rgd g)"
    using place(3) [OF wf fit] by (auto simp: g_def)
  have p: "place_buf rgd g < unat (ri_length (rl_ri rgd))" "bitmap_block rgd g = Some (place_buf rgd g)"
    using place(1,2) [OF wf fit] by (simp_all add: g_def)
  then have "ri_length (rl_ri rgd) \<noteq> 0" "min (place_buf rgd g) (unat (ri_length (rl_ri rgd)) - 1) = place_buf rgd g" by auto
  then have run: "gfs2_set_bitmap sdp blk state = Some (0, upd_rgrp (rl_id rgd) (put_byte (place_buf rgd g) (place_byte rgd g)
      (set_state (b_data b ! place_byte rgd g) (bit_in_byte g) (word_of_int state))) (sdp\<lparr>sd_prev_rgd := Some (rl_id rgd)\<rparr>))"
    using assms(4,5) blk2rgrpd_finds [OF assms(1,2) disjI2 [OF assms(3)]] at p b by (simp add: gfs2_set_bitmap_def Let_def g_def [symmetric])
  show ?thesis unfolding run g_def [symmetric] prod.inject option.inject
    by (intro conjI refl upd_rgrp_cong) (use assms(1,2) b(1) in \<open>simp_all add: sbd_wf_def put_block_def\<close>)
qed

lemma get_bitmap_data:
  assumes "sbd_wf sdp" "rgd \<in> set (sd_rglist sdp)" "in_data blk rgd"
  shows "map_option fst (gfs2_get_bitmap sdp blk None) = Some (uint (block_val rgd (rgrp_block_of rgd blk)))"
proof -
  have wf: "rgrp_wf (unat (sd_bsize sdp)) rgd" using assms(1,2) by (auto simp: sbd_wf_def list_all_iff)
  have at: "rgrp_at (sdp\<lparr>sd_prev_rgd := Some (rl_id rgd)\<rparr>) (rl_id rgd) = Some rgd"
    using rgrp_at_member [of "sdp\<lparr>sd_prev_rgd := Some (rl_id rgd)\<rparr>" rgd] assms(1,2) by (simp add: sbd_wf_def)
  have "rgrp_block_of rgd blk < ri_data (rl_ri rgd)" by (rule in_data_block [OF wf assms(3)])
  then show ?thesis using blk2rgrpd_finds [OF assms(1,2) disjI2 [OF assms(3)]] at get_state_block [OF wf] by (simp add: gfs2_get_bitmap_def)
qed

lemma prev_rgd_wf: "sbd_wf sdp \<Longrightarrow> rgd \<in> set (sd_rglist sdp) \<Longrightarrow> sbd_wf (sdp\<lparr>sd_prev_rgd := Some (rl_id rgd)\<rparr>)"
  by (simp add: sbd_wf_def)

lemma state_word:
  assumes "0 \<le> (state :: int)" "state \<le> 3"
  shows "(word_of_int state :: u8) \<le> 3" "uint (word_of_int state :: u8) = state"
proof -
  show u: "uint (word_of_int state :: u8) = state" using assms by (simp add: uint_word_of_int)
  show "(word_of_int state :: u8) \<le> 3" unfolding word_le_def u using assms by simp
qed

lemma block_of_inj:
  assumes "rgrp_wf bsize rgd" "in_data a rgd" "in_data b rgd" "rgrp_block_of rgd a = rgrp_block_of rgd b"
  shows "a = b"
  using in_data_block(2) [OF assms(1,2)] in_data_block(2) [OF assms(1,3)] assms(4) by (simp add: word_unat_eq_iff)

lemma set_get_bitmap:
  assumes "sbd_wf sdp" "rgd \<in> set (sd_rglist sdp)" "in_data blk rgd" "0 \<le> state" "state \<le> 3"
    and "r \<in> set (sd_rglist sdp)" "in_data b r"
  shows "\<exists>sdp'. gfs2_set_bitmap sdp blk state = Some (0, sdp') \<and> sbd_wf sdp' \<and>
    map_option fst (gfs2_get_bitmap sdp' b None) = (if b = blk then Some state else map_option fst (gfs2_get_bitmap sdp b None))"
proof -
  define g where "g = rgrp_block_of rgd blk"
  define f where "f = put_block g (word_of_int state)"
  define sdp1 where "sdp1 = sdp\<lparr>sd_prev_rgd := Some (rl_id rgd)\<rparr>"
  define sdp' where "sdp' = upd_rgrp (rl_id rgd) f sdp1"
  have wf1: "sbd_wf sdp1" using prev_rgd_wf [OF assms(1,2)] by (simp add: sdp1_def)
  have wf': "sbd_wf sdp'" unfolding sdp'_def f_def by (rule upd_rgrp_wf [OF wf1]) (simp_all add: put_block_wf)
  have wf: "rgrp_wf (unat (sd_bsize sdp)) rgd" "rgrp_wf (unat (sd_bsize sdp)) r" using assms(1,2,6) by (auto simp: sbd_wf_def list_all_iff)
  have dist: "distinct (map rl_id (sd_rglist sdp))" using assms(1) by (simp add: sbd_wf_def)
  define r' where "r' = (if rl_id r = rl_id rgd then f r else r)"
  have mem: "r' \<in> set (sd_rglist sdp')" using assms(6) dist by (auto simp: sdp'_def sdp1_def upd_rgrp_def update_first_map r'_def)
  have same: "rl_id r = rl_id rgd \<longleftrightarrow> r = rgd" using dist assms(2,6) by (auto simp: distinct_map dest: inj_onD)
  have ri: "rl_ri r' = rl_ri r" by (simp add: r'_def f_def)
  then have bo: "rgrp_block_of r' b = rgrp_block_of r b" "in_data b r'" using assms(7) by (simp_all add: rgrp_block_of_def in_data_def)
  note got = get_bitmap_data [OF wf' mem bo(2), unfolded bo(1)] get_bitmap_data [OF assms(1,6,7)]
  have val: "uint (block_val r' (rgrp_block_of r b)) = (if b = blk then state else uint (block_val r (rgrp_block_of r b)))"
  proof (cases "r = rgd")
    case True
    have "b = blk" if "rgrp_block_of rgd b = g" using block_of_inj [OF wf(1) _ assms(3)] assms(7) that True by (simp add: g_def)
    then show ?thesis
      using block_val_put [OF wf(1) in_data_block(1) [OF wf(1) assms(3)] in_data_block(1) [OF wf(1), of b] state_word(1) [OF assms(4,5)]]
        assms(7) True state_word(2) [OF assms(4,5)] by (auto simp: r'_def f_def g_def)
  next
    case False
    then have "b \<noteq> blk" using covers_unique [OF assms(1,6,2), of b] assms(3,7) by auto
    then show ?thesis using False same by (simp add: r'_def)
  qed
  have "gfs2_set_bitmap sdp blk state = Some (0, sdp')"
    using set_bitmap_data [OF assms(1-5)] by (simp add: sdp'_def sdp1_def f_def g_def)
  then show ?thesis using wf' got val by auto
qed

text \<open>The number of a header block within the data wraps, and no bitmap block holds it.\<close>

lemma find_bits_none:
  assumes "\<And>b. b \<in> set bits \<Longrightarrow> unat (bi_start b) + unat (bi_len b) \<le> bitbytes" "4 * bitbytes < 2 ^ 32" "4 * bitbytes \<le> unat g"
  shows "find_bits g bits = length bits"
  using assms(1)
proof (induction bits)
  case (Cons b bits)
  have "unat (bi_start b) + unat (bi_len b) \<le> bitbytes" using Cons.prems by simp
  moreover have "bitbytes \<le> unat g div 4" using assms(3) by (simp add: less_eq_div_iff_mult_less_eq)
  ultimately have "\<not> g < (bi_start b + bi_len b) * of_nat GFS2_NBBY" using find_bits_word [OF _ assms(2), of b g] by simp
  then show ?case using Cons by simp
qed simp

lemma wrapped_block:
  fixes blk a :: u64
  assumes "unat a = unat blk + d" "1 \<le> d" "d < 2 ^ 32"
  shows "unat (ucast (blk - a) :: u32) = 2 ^ 32 - d"
proof -
  have "unat (blk - a) = 2 ^ 64 - d" using assms(1,2) by (simp add: unat_sub_if')
  moreover have "(2 ^ 64 - d) div 2 ^ 32 = (2 ^ 32 - 1 :: nat)" by (rule div_nat_eqI) (use assms(2,3) in simp_all)
  then have "(2 ^ 64 - d) mod 2 ^ 32 = 2 ^ 32 - d" unfolding modulo_nat_def using assms(2,3) by simp
  ultimately show ?thesis by (simp add: unsigned_ucast_eq take_bit_eq_mod)
qed

lemma header_block:
  assumes "rgrp_wf bsize rgd" "in_header blk rgd" "unat (ri_data (rl_ri rgd)) + unat (ri_length (rl_ri rgd)) < 2 ^ 32"
  shows "bitmap_block rgd (rgrp_block_of rgd blk) = Some (unat (ri_length (rl_ri rgd)))"
proof -
  let ?ri = "rl_ri rgd"
  obtain bits bh where r: "rl_bits rgd = Some bits" "length bits = unat (ri_length ?ri)" "bits_wf bsize (unat (ri_bitbytes ?ri)) bits"
    "unat (ri_data ?ri) = 4 * unat (ri_bitbytes ?ri)" "unat (ri_data0 ?ri) = unat (ri_addr ?ri) + unat (ri_length ?ri)"
    "unat (ri_data0 ?ri) + unat (ri_data ?ri) < 2 ^ 64" by (rule rgrp_wf_cases [OF assms(1)])
  define d where "d = unat (ri_data0 ?ri) - unat blk"
  have "unat (ri_addr ?ri + ucast (ri_length ?ri)) = unat (ri_addr ?ri) + unat (ri_length ?ri)"
    using r(5,6) by (simp add: unat_word_ariths unat_ucast_64)
  then have "unat (ri_addr ?ri) \<le> unat blk" "unat blk < unat (ri_data0 ?ri)"
    using assms(2) r(5) by (simp_all add: in_header_def word_le_nat_alt word_less_nat_alt)
  then have d: "unat (ri_data0 ?ri) = unat blk + d" "1 \<le> d" "d \<le> unat (ri_length ?ri)" using r(5) by (simp_all add: d_def)
  have "unat (rgrp_block_of rgd blk) = 2 ^ 32 - d"
    unfolding rgrp_block_of_def by (rule wrapped_block [OF d(1,2)]) (use d(3) assms(3) in linarith)
  then have "4 * unat (ri_bitbytes ?ri) \<le> unat (rgrp_block_of rgd blk)" using assms(3) r(4) d(3) by linarith
  then have "find_bits (rgrp_block_of rgd blk) bits = length bits"
    using bits_wf_end [OF r(3)] assms(3) r(4) by (intro find_bits_none [where bitbytes = "unat (ri_bitbytes ?ri)"]) (auto simp: in_set_conv_nth)
  then show ?thesis using r(1,2) by (simp add: bitmap_block_def)
qed

lemma header_bitmap:
  assumes "sbd_wf sdp" "rgd \<in> set (sd_rglist sdp)" "in_header blk rgd"
    and "unat (ri_data (rl_ri rgd)) + unat (ri_length (rl_ri rgd)) < 2 ^ 32" "0 \<le> state" "state \<le> 3"
  shows "gfs2_set_bitmap sdp blk state = None" "map_option fst (gfs2_get_bitmap sdp blk None) = Some (-1)"
proof -
  have wf: "rgrp_wf (unat (sd_bsize sdp)) rgd" using assms(1,2) by (auto simp: sbd_wf_def list_all_iff)
  obtain bh where bh: "rl_bh rgd = Some bh" "length bh = unat (ri_length (rl_ri rgd))" by (rule rgrp_wf_cases [OF wf])
  have at: "rgrp_at (sdp\<lparr>sd_prev_rgd := Some (rl_id rgd)\<rparr>) (rl_id rgd) = Some rgd"
    using rgrp_at_member [of "sdp\<lparr>sd_prev_rgd := Some (rl_id rgd)\<rparr>" rgd] assms(1,2) by (simp add: sbd_wf_def)
  note b = header_block [OF wf assms(3,4)] and l = blk2rgrpd_finds [OF assms(1,2) disjI1 [OF assms(3)]]
  have "bitmap_byte rgd k (unat (ri_length (rl_ri rgd))) g = None" for k g
    using bh by (simp add: bitmap_byte_def split: option.splits)
  then show "gfs2_set_bitmap sdp blk state = None" using assms(5,6) l at b by (simp add: gfs2_set_bitmap_def Let_def)
  show "map_option fst (gfs2_get_bitmap sdp blk None) = Some (-1)" using l at b by (simp add: gfs2_get_bitmap_def get_state_def Let_def)
qed

end
