(* ===== verification/Gfs2_Layout.thy ===== *)
theory Gfs2_Layout imports Gfs2_Place begin

text \<open>
  The layout of a new file system: the number of bitmap blocks of a resource group (\<open>fits\<close>), the entries of its array of
  bitmaps (\<open>bit_entry\<close>), and that the resource groups that \<^verbatim>\<open>compute_rgrp_layout\<close> and \<^verbatim>\<open>build_rgrps\<close> make are well formed
  and free.
\<close>

section \<open>The number of bitmap blocks is right\<close>

text \<open>The number of bytes for bitmaps in \<open>k\<close> blocks: \<open>a\<close> in the first and \<open>s\<close> in each of the others.\<close>

definition capacity :: "nat \<Rightarrow> nat \<Rightarrow> nat \<Rightarrow> nat" where
  "capacity a s k = (if k = 0 then 0 else a + (k - 1) * s)"

lemma capacity_0 [simp]: "capacity a s 0 = 0"
  by (simp add: capacity_def)

lemma capacity_Suc: "capacity a s (Suc k) = (if k = 0 then a else capacity a s k + s)"
  by (cases k) (simp_all add: capacity_def)

lemma capacity_mono: "0 < s \<Longrightarrow> 0 < a \<Longrightarrow> j < k \<Longrightarrow> capacity a s j < capacity a s k"
proof (induction k)
  case (Suc k)
  then show ?case by (cases "j = k") (auto simp: capacity_Suc capacity_def)
qed simp

text \<open>
  \<open>n\<close> bytes of bitmap in \<open>k\<close> blocks, for \<open>R\<close> blocks in all: they fit, no block less would do, and at most four blocks
  are lost.
\<close>

definition fits :: "nat \<Rightarrow> nat \<Rightarrow> nat \<Rightarrow> nat \<Rightarrow> nat \<Rightarrow> bool" where
  "fits a s R k n \<longleftrightarrow> 1 \<le> k \<and> 4 * n + k \<le> R \<and> R \<le> 4 * n + k + 4 \<and> capacity a s (k - 1) < n + (if k = 1 then 1 else 0) \<and> n \<le> capacity a s k"

lemma fits_same:
  assumes "1 \<le> B" "B \<le> R" "capacity a s (B - 1) < (R - B) div 4" "(R - B) div 4 \<le> capacity a s B"
  shows "fits a s R B ((R - B) div 4)"
proof -
  have "4 * ((R - B) div 4) + B \<le> R" "R \<le> 4 * ((R - B) div 4) + B + 4" using assms(2) by linarith+
  then show ?thesis using assms by (simp add: fits_def)
qed

lemma fits_one_less:
  assumes "1 < B" "B \<le> R" "(R - B) div 4 \<le> capacity a s (B - 1)" "capacity a s (B - 1) < (R - (B - 1)) div 4" "0 < a" "0 < s"
  shows "fits a s R (B - 1) ((R - B) div 4)"
proof -
  have eq: "capacity a s (B - 1) = (R - B) div 4" using assms(1-4) by linarith
  have "capacity a s (B - 1 - 1) < capacity a s (B - 1)" by (rule capacity_mono [OF assms(6,5)]) (use assms(1) in simp)
  moreover have "4 * ((R - B) div 4) + (B - 1) \<le> R" "R \<le> 4 * ((R - B) div 4) + (B - 1) + 4" using assms(1,2) by linarith+
  ultimately show ?thesis unfolding fits_def eq using assms(1) by simp
qed

lemma bitblocks_loop_fits:
  assumes "unat provided = capacity a s (unat b)" "1 \<le> unat b" "unat b \<le> unat rg" "5 \<le> unat rg"
    and "unat prev = capacity a s (unat b - 1)" "1 < unat b \<longrightarrow> unat prev < (unat rg - (unat b - 1)) div 4"
    and "0 < a" "0 < s" "s = unat inc" "a < 2 ^ 31" "s < 2 ^ 31"
    and "bitblocks_loop inc rg b provided prev = (bb, n)"
  shows "fits a s (unat rg) (unat bb) (unat n)"
  using assms
proof (induction inc rg b provided prev rule: bitblocks_loop.induct)
  case (1 inc rg b provided prev)
  define B R where "B = unat b" and "R = unat rg"
  have BR: "1 \<le> B" "B \<le> R" "5 \<le> R" using "1.prems"(2-4) by (simp_all add: B_def R_def)
  define need where "need = (rg - b) div of_nat GFS2_NBBY"
  have "unat (rg - b) = R - B" using BR(2) by (simp add: unat_sub word_le_nat_alt B_def R_def)
  then have need: "unat need = (R - B) div 4" by (simp add: need_def GFS2_NBBY_def unat_div)
  have le: "need \<le> provided \<longleftrightarrow> (R - B) div 4 \<le> capacity a s B" "need \<le> prev \<longleftrightarrow> (R - B) div 4 \<le> capacity a s (B - 1)"
    using "1.prems"(1,5) need by (simp_all add: word_le_nat_alt B_def)
  show ?case
  proof (cases "need \<le> provided")
    case True
    then have res: "bb = (if need \<le> prev then b - 1 else b)" "n = need"
      using "1.prems"(12) by (auto simp: bitblocks_loop.simps need_def [symmetric])
    show ?thesis
    proof (cases "need \<le> prev")
      case prev: True
      then have B: "1 < B" using le(2) BR by (cases "B = 1") auto
      then have "unat bb = B - 1" using res(1) prev by (simp add: B_def unat_sub word_le_nat_alt)
      then show ?thesis
        using fits_one_less [OF B BR(2) _ _ "1.prems"(7,8)] prev le(2) "1.prems"(5,6) B res(2) need by (simp add: B_def R_def)
    next
      case False
      then show ?thesis using fits_same [OF BR(1,2), of a s] le True res need by (simp add: B_def R_def)
    qed
  next
    case False
    then have lt: "capacity a s B < (R - B) div 4" using le(1) by simp
    have b1: "unat (b + 1) = B + 1" using lt unat_lt32 [of rg] by (simp add: unat_word_ariths B_def R_def)
    have "R div 4 < 2 ^ 30" "(R - B) div 4 \<le> R div 4" using unat_lt32 [of rg] by (simp_all add: R_def div_le_mono)
    then have p1: "unat (provided + inc) = capacity a s (B + 1)"
      using lt "1.prems"(1,9,11) BR(1) by (simp add: unat_word_ariths B_def capacity_Suc)
    show ?thesis
    proof (rule "1.IH" [OF need_def])
      show "bitblocks_loop inc rg (b + 1) (provided + inc) provided = (bb, n)"
        using "1.prems"(12) False by (simp add: bitblocks_loop.simps [of inc rg b] need_def [symmetric])
    qed (use "1.prems" b1 p1 lt False in \<open>simp_all add: B_def R_def\<close>)
  qed
qed

text \<open>What the development relies on of the structures on disk: a resource group starts with a meta header, a block is larger
  than both, and writing a header changes nothing behind it.\<close>

definition ondisk_ok :: "ondisk \<Rightarrow> u32 \<Rightarrow> bool" where
  "ondisk_ok od bsize \<longleftrightarrow> sizeof_meta_header od \<le> sizeof_rgrp od \<and> sizeof_rgrp od < bsize \<and> bsize < 2 ^ 31 \<and>
     (\<forall>rg bs. length (gfs2_rgrp_out od rg bs) = length bs \<and>
        drop (unat (sizeof_rgrp od)) (gfs2_rgrp_out od rg bs) = drop (unat (sizeof_rgrp od)) bs) \<and>
     (\<forall>bs. length (gfs2_meta_header_out od bs) = length bs \<and>
        drop (unat (sizeof_meta_header od)) (gfs2_meta_header_out od bs) = drop (unat (sizeof_meta_header od)) bs)"

abbreviation cap :: "ondisk \<Rightarrow> u32 \<Rightarrow> nat \<Rightarrow> nat" where
  "cap od bsize \<equiv> capacity (unat (bsize - sizeof_rgrp od)) (unat (bsize - sizeof_meta_header od))"

lemma ondisk_sizes:
  assumes "ondisk_ok od bsize"
  shows "unat (bsize - sizeof_rgrp od) = unat bsize - unat (sizeof_rgrp od)"
    "unat (bsize - sizeof_meta_header od) = unat bsize - unat (sizeof_meta_header od)"
    "0 < unat bsize - unat (sizeof_rgrp od)" "0 < unat bsize - unat (sizeof_meta_header od)"
    "unat (sizeof_rgrp od) < unat bsize" "unat (sizeof_meta_header od) < unat bsize" "unat bsize < 2 ^ 31"
proof -
  have "unat (sizeof_meta_header od) \<le> unat (sizeof_rgrp od)" and l: "unat (sizeof_rgrp od) < unat bsize" "unat bsize < 2 ^ 31"
    using assms by (simp_all add: ondisk_ok_def word_le_nat_alt word_less_nat_alt)
  then show "unat (sizeof_rgrp od) < unat bsize" "unat (sizeof_meta_header od) < unat bsize" "unat bsize < 2 ^ 31"
    "0 < unat bsize - unat (sizeof_rgrp od)" "0 < unat bsize - unat (sizeof_meta_header od)"
    "unat (bsize - sizeof_rgrp od) = unat bsize - unat (sizeof_rgrp od)"
    "unat (bsize - sizeof_meta_header od) = unat bsize - unat (sizeof_meta_header od)"
    by (simp_all add: unat_sub word_le_nat_alt)
qed

lemma cap_mono: "ondisk_ok od bsize \<Longrightarrow> j \<le> k \<Longrightarrow> cap od bsize j \<le> cap od bsize k"
  using capacity_mono [of "unat (bsize - sizeof_meta_header od)" "unat (bsize - sizeof_rgrp od)" j k] ondisk_sizes [of od bsize]
  by (cases "j = k") simp_all

lemma rgblocks2bitblocks_fits:
  assumes "ondisk_ok od bsize" "5 \<le> unat rg" "rgblocks2bitblocks od bsize rg = (rgb, bb)"
  shows "\<exists>n. unat rgb = 4 * n \<and> fits (unat (bsize - sizeof_rgrp od)) (unat (bsize - sizeof_meta_header od)) (unat rg) (unat bb) n"
proof -
  obtain n where n: "bitblocks_loop (bsize - sizeof_meta_header od) rg 1 (bsize - sizeof_rgrp od) 0 = (bb, n)" "rgb = n * of_nat GFS2_NBBY"
    using assms(3) by (auto simp: rgblocks2bitblocks_def split: prod.splits)
  note sz = ondisk_sizes [OF assms(1)]
  have f: "fits (unat (bsize - sizeof_rgrp od)) (unat (bsize - sizeof_meta_header od)) (unat rg) (unat bb) (unat n)"
    by (rule bitblocks_loop_fits [OF _ _ _ assms(2) _ _ _ _ refl _ _ n(1)]) (use sz assms(2) in \<open>simp_all add: capacity_def\<close>)
  then have "4 * unat n < 2 ^ 32" using unat_lt32 [of rg] by (simp add: fits_def)
  then have "unat rgb = 4 * unat n" by (simp add: n(2) GFS2_NBBY_def unat_word_ariths)
  then show ?thesis using f by blast
qed

section \<open>The entries of the bitmap array\<close>

definition bit_entry :: "ondisk \<Rightarrow> u32 \<Rightarrow> gfs2_rindex \<Rightarrow> nat \<Rightarrow> gfs2_bitmap" where
  "bit_entry od sb ri x =
     \<lparr>bi_offset = (if x = 0 then sizeof_rgrp od else sizeof_meta_header od), bi_start = of_nat (cap od sb x),
      bi_len = (if x + 1 = unat (ri_length ri) then ri_bitbytes ri - of_nat (cap od sb x)
                else if x = 0 then sb - sizeof_rgrp od else sb - sizeof_meta_header od)\<rparr>"

lemma bitstruct_entry:
  assumes "x < unat (ri_length ri)"
  shows "bitstruct od sb ri x (ri_bitbytes ri - of_nat (cap od sb x)) = (bit_entry od sb ri x, bi_len (bit_entry od sb ri x))"
proof (cases "ri_length ri = 1")
  case True
  then show ?thesis using assms by (simp add: bitstruct_def bit_entry_def capacity_def)
next
  case False
  then have "unat (ri_length ri) \<noteq> 1" by (metis unat_1 word_unat_eq_iff)
  then show ?thesis using False by (auto simp: bitstruct_def bit_entry_def Let_def capacity_def)
qed

lemma bitstructs_loop_entries:
  "x + n = unat (ri_length ri) \<Longrightarrow> 0 < n \<Longrightarrow>
     bitstructs_loop od sb ri n x (ri_bitbytes ri - of_nat (cap od sb x)) = (map (bit_entry od sb ri) [x..<unat (ri_length ri)], 0)"
proof (induction n arbitrary: x)
  case (Suc n)
  have x: "x < unat (ri_length ri)" using Suc.prems by simp
  have up: "[x..<unat (ri_length ri)] = x # [Suc x..<unat (ri_length ri)]" using x by (rule upt_conv_Cons)
  show ?case
  proof (cases n)
    case 0
    then show ?thesis using Suc.prems x by (simp add: bitstruct_entry up) (simp add: bit_entry_def)
  next
    case m: (Suc m)
    have left: "ri_bitbytes ri - of_nat (cap od sb x) - bi_len (bit_entry od sb ri x) = ri_bitbytes ri - of_nat (cap od sb (Suc x))"
      using Suc.prems m by (simp add: bit_entry_def capacity_Suc)
    have "bitstructs_loop od sb ri n (x + 1) (ri_bitbytes ri - of_nat (cap od sb (Suc x))) = (map (bit_entry od sb ri) [Suc x..<unat (ri_length ri)], 0)"
      using Suc.IH [of "Suc x"] Suc.prems m by simp
    then show ?thesis unfolding bitstructs_loop.simps bitstruct_entry [OF x] prod.case left up by simp
  qed
qed simp

text \<open>The test whether bytes are left over never fails.\<close>

lemma compute_bitstructs_entries:
  assumes "rl_bits rgd = None" "rl_bh rgd = None" "1 \<le> unat (ri_length (rl_ri rgd))" "unat (ri_length (rl_ri rgd)) \<le> 2149"
  shows "\<exists>rgd'. gfs2_compute_bitstructs od True True sdp rgd =
      Some (if ri_bitbytes (rl_ri rgd) * of_nat GFS2_NBBY = ri_data (rl_ri rgd) then 0 else -1, rgd') \<and>
    rl_bits rgd' = Some (map (bit_entry od (sd_sb_bsize sdp) (rl_ri rgd)) [0..<unat (ri_length (rl_ri rgd))]) \<and>
    rl_id rgd' = rl_id rgd \<and> rl_ri rgd' = rl_ri rgd \<and> rl_start rgd' = rl_start rgd \<and> rl_rg rgd' = rl_rg rgd \<and>
    (ri_bitbytes (rl_ri rgd) * of_nat GFS2_NBBY = ri_data (rl_ri rgd) \<longrightarrow> rl_bh rgd' = Some (replicate (unat (ri_length (rl_ri rgd))) None))"
proof -
  define len where "len = unat (ri_length (rl_ri rgd))"
  let ?e = "bit_entry od (sd_sb_bsize sdp) (rl_ri rgd)"
  have loop: "bitstructs_loop od (sd_sb_bsize sdp) (rl_ri rgd) len 0 (ri_bitbytes (rl_ri rgd)) = (map ?e [0..<len], 0)"
    using bitstructs_loop_entries [of 0 len "rl_ri rgd" od "sd_sb_bsize sdp"] assms(3) by (simp add: len_def)
  have "map ?e [0..<len] ! (len - 1) = ?e (len - 1)" using assms(3) by (simp add: len_def)
  moreover have "bi_start (?e (len - 1)) + bi_len (?e (len - 1)) = ri_bitbytes (rl_ri rgd)"
    using assms(3) by (simp add: bit_entry_def len_def)
  ultimately show ?thesis using assms loop unfolding len_def [symmetric] by (simp add: gfs2_compute_bitstructs_def Let_def len_def [symmetric])
qed

lemma entries_wf:
  assumes od: "ondisk_ok od bsize" and f: "fits (unat (bsize - sizeof_rgrp od)) (unat (bsize - sizeof_meta_header od)) R k n"
    and ri: "unat (ri_length ri) = k" "unat (ri_bitbytes ri) = n"
  shows "bits_wf (unat bsize) n (map (bit_entry od bsize ri) [0..<k])"
proof -
  note sz = ondisk_sizes [OF od]
  have k: "1 \<le> k" "cap od bsize (k - 1) \<le> n" "n \<le> cap od bsize k" using f by (simp_all add: fits_def split: if_splits)
  have n32: "n < 2 ^ 32" using unat_lt32 [of "ri_bitbytes ri"] ri(2) by simp
  have mono: "cap od bsize x \<le> cap od bsize (k - 1)" if "x < k" for x
    using that by (intro cap_mono [OF od]) simp
  have st: "unat (bi_start (bit_entry od bsize ri x)) = cap od bsize x" if "x < k" for x
    using mono [OF that] k(2) n32 by (simp add: bit_entry_def unat_of_nat)
  have len: "unat (bi_len (bit_entry od bsize ri x)) = (if x + 1 = k then n - cap od bsize x else cap od bsize (Suc x) - cap od bsize x)" if "x < k" for x
  proof (cases "x + 1 = k")
    case True
    have "cap od bsize x \<le> n" using mono [OF that] k(2) by simp
    then have "unat (ri_bitbytes ri - of_nat (cap od bsize x)) = n - cap od bsize x"
      using ri(2) n32 by (simp add: unat_sub word_le_nat_alt unat_of_nat)
    then show ?thesis using True ri(1) by (simp add: bit_entry_def)
  next
    case False
    then show ?thesis using ri(1) by (simp add: bit_entry_def capacity_Suc)
  qed
  have off: "unat (bi_offset (bit_entry od bsize ri x)) + unat (bi_len (bit_entry od bsize ri x)) \<le> unat bsize" if "x < k" for x
  proof (cases "x + 1 = k")
    case True
    define h where "h = (if x = 0 then sizeof_rgrp od else sizeof_meta_header od)"
    have "n \<le> cap od bsize (Suc x)" using k(3) True by simp
    then have "n - cap od bsize x \<le> unat bsize - unat h" using sz(1,2) by (simp add: capacity_Suc h_def split: if_splits)
    then have "unat h + (n - cap od bsize x) \<le> unat bsize" using sz(5,6) by (simp add: h_def split: if_splits)
    moreover have "bi_offset (bit_entry od bsize ri x) = h" by (simp add: bit_entry_def h_def)
    ultimately show ?thesis using len [OF that] True by simp
  next
    case False
    then show ?thesis using ri(1) sz by (simp add: bit_entry_def)
  qed
  have "k - 1 < k" "k - 1 + 1 = k" using k(1) by simp_all
  then have "unat (bi_start (bit_entry od bsize ri (k - 1))) + unat (bi_len (bit_entry od bsize ri (k - 1))) = n"
    using st [of "k - 1"] len [of "k - 1"] k(2) by simp
  moreover have "cap od bsize x \<le> cap od bsize (Suc x)" for x by (simp add: capacity_Suc)
  ultimately show ?thesis
    using k(1) st len off by (auto simp: bits_wf_def list_all_iff hd_map last_map bit_entry_def)
qed

section \<open>Building one resource group\<close>

lemma fits_limit:
  assumes "ondisk_ok od bsize" "fits (unat (bsize - sizeof_rgrp od)) (unat (bsize - sizeof_meta_header od)) R k n" "R \<le> 4 * cap od bsize 2149"
  shows "k \<le> 2149"
proof (rule ccontr)
  assume k: "\<not> k \<le> 2149"
  have "cap od bsize 2149 \<le> cap od bsize (k - 1)"
    using k by (intro cap_mono [OF assms(1)]) linarith
  moreover have "cap od bsize (k - 1) < n" "4 * n + k \<le> R" using assms(2) k by (simp_all add: fits_def)
  ultimately show False using assms(3) k by linarith
qed

lemma header_buffer_data:
  assumes "ondisk_ok od (sd_bsize sdp)"
  shows "length (b_data (header_buffer od sdp rl x)) = unat (sd_bsize sdp)"
    "unat (if x = 0 then sizeof_rgrp od else sizeof_meta_header od) \<le> i \<Longrightarrow> i < unat (sd_bsize sdp) \<Longrightarrow> b_data (header_buffer od sdp rl x) ! i = 0"
proof -
  define h where "h = unat (if x = 0 then sizeof_rgrp od else sizeof_meta_header od)"
  define z where "z = replicate (unat (sd_bsize sdp)) (0 :: u8)"
  have d: "length (b_data (header_buffer od sdp rl x)) = length z" "drop h (b_data (header_buffer od sdp rl x)) = drop h z"
    using assms by (simp_all add: ondisk_ok_def header_buffer_def bget_def Let_def h_def z_def)
  then show "length (b_data (header_buffer od sdp rl x)) = unat (sd_bsize sdp)" by (simp add: z_def)
  assume i: "unat (if x = 0 then sizeof_rgrp od else sizeof_meta_header od) \<le> i" "i < unat (sd_bsize sdp)"
  have "b_data (header_buffer od sdp rl x) ! i = drop h (b_data (header_buffer od sdp rl x)) ! (i - h)"
    using i d(1) by (simp add: h_def z_def)
  also have "\<dots> = 0" unfolding d(2) using i by (simp add: h_def z_def)
  finally show "b_data (header_buffer od sdp rl x) ! i = 0" .
qed

lemma built_free:
  assumes "rgrp_wf (unat (sd_bsize sdp)) r" "ondisk_ok od (sd_bsize sdp)" "g < ri_data (rl_ri r)"
    and "rl_bits r = Some (map (bit_entry od sb ri) [0..<k])" "rl_bh r = Some (map (\<lambda>x. Some (header_buffer od sdp rl x)) [0..<k])"
    and "unat (ri_length (rl_ri r)) = k"
  shows "block_val r g = 0"
proof -
  note p = place [OF assms(1,3)]
  have "unat (if place_buf r g = 0 then sizeof_rgrp od else sizeof_meta_header od) \<le> place_byte r g"
    using p(1) assms(4,6) by (simp add: place_byte_def Let_def bit_entry_def)
  moreover have "place_byte r g < unat (sd_bsize sdp)" using p(3) by blast
  ultimately have "b_data (header_buffer od sdp rl (place_buf r g)) ! place_byte r g = 0"
    by (rule header_buffer_data(2) [OF assms(2)])
  then show ?thesis using p(1) assms(5,6) by (simp add: block_val_def)
qed

text \<open>A new resource group that \<open>build_rgrp\<close> handles well.\<close>

definition new_rgrp_ok :: "ondisk \<Rightarrow> u32 \<Rightarrow> rgrp_list \<Rightarrow> bool" where
  "new_rgrp_ok od bsize rl \<longleftrightarrow>
     rl_bits rl = None \<and> rl_bh rl = None \<and> 5 \<le> unat (rl_length rl) \<and> unat (rl_length rl) < 2 ^ 32 \<and>
     unat (rl_length rl) \<le> 4 * cap od bsize 2149 \<and> unat (rl_start rl) + unat (rl_length rl) < 2 ^ 64"

definition built_from :: "gfs2_sbd \<Rightarrow> rgrp_list \<Rightarrow> rgrp_list \<Rightarrow> bool" where
  "built_from sdp rl r \<longleftrightarrow>
     rgrp_wf (unat (sd_bsize sdp)) r \<and> rl_id r = rl_id rl \<and> ri_addr (rl_ri r) = rl_start rl \<and>
     rg_end r \<le> unat (rl_start rl) + unat (rl_length rl) \<and> unat (rl_start rl) + unat (rl_length rl) \<le> rg_end r + 4 \<and>
     rg_free (rl_rg r) = ri_data (rl_ri r) \<and> (\<forall>g < ri_data (rl_ri r). block_val r g = 0)"

lemma build_rgrp_built:
  assumes "ondisk_ok od (sd_bsize sdp)" "sd_sb_bsize sdp = sd_bsize sdp" "alloc (rl_id rl) = (True, True)" "new_rgrp_ok od (sd_bsize sdp) rl"
  shows "\<exists>r. build_rgrp od alloc True sdp rl = Some r \<and> built_from sdp rl r"
proof -
  let ?bs = "sd_bsize sdp"
  have new: "rl_bits rl = None" "rl_bh rl = None" "5 \<le> unat (rl_length rl)" "unat (rl_length rl) < 2 ^ 32"
    "unat (rl_length rl) \<le> 4 * cap od ?bs 2149" "unat (rl_start rl) + unat (rl_length rl) < 2 ^ 64" using assms(4) by (simp_all add: new_rgrp_ok_def)
  define R where "R = unat (rl_length rl)"
  have R: "unat (ucast (rl_length rl) :: u32) = R" using new(4) by (simp add: unsigned_ucast_eq take_bit_nat_eq_self R_def)
  obtain rgb bb where rb: "rgblocks2bitblocks od ?bs (ucast (rl_length rl)) = (rgb, bb)" by fastforce
  obtain n where n: "unat rgb = 4 * n" "fits (unat (?bs - sizeof_rgrp od)) (unat (?bs - sizeof_meta_header od)) R (unat bb) n"
    using rgblocks2bitblocks_fits [OF assms(1) _ rb] new(3) R by (auto simp: R_def)
  have bb: "1 \<le> unat bb" "unat bb \<le> 2149" "4 * n + unat bb \<le> R" "R \<le> 4 * n + unat bb + 4"
    using n(2) fits_limit [OF assms(1) n(2)] new(5) by (simp_all add: fits_def R_def)
  define rl1 where "rl1 = set_rindex rgb bb rl"
  have rl1: "rl_bits rl1 = None" "rl_bh rl1 = None" "ri_length (rl_ri rl1) = bb" "ri_data (rl_ri rl1) = rgb"
    "ri_bitbytes (rl_ri rl1) = rgb div of_nat GFS2_NBBY" "rl_id rl1 = rl_id rl" "rl_start rl1 = rl_start rl" "rg_free (rl_rg rl1) = rgb"
    "ri_addr (rl_ri rl1) = rl_start rl" "ri_data0 (rl_ri rl1) = rl_start rl + ucast bb"
    using new(1,2) by (simp_all add: rl1_def set_rindex_def)
  have bitb: "unat (ri_bitbytes (rl_ri rl1)) = n" using n(1) by (simp add: rl1(5) GFS2_NBBY_def unat_div)
  then have "unat (ri_bitbytes (rl_ri rl1) * of_nat GFS2_NBBY) = unat rgb"
    using n(1) unat_lt32 [of rgb] by (simp add: GFS2_NBBY_def unat_word_ariths)
  then have data: "ri_bitbytes (rl_ri rl1) * of_nat GFS2_NBBY = ri_data (rl_ri rl1)" by (simp only: word_unat_eq_iff rl1(4))
  obtain rl2 where rl2: "gfs2_compute_bitstructs od True True sdp rl1 = Some (0, rl2)"
    "rl_bits rl2 = Some (map (bit_entry od ?bs (rl_ri rl1)) [0..<unat bb])" "rl_id rl2 = rl_id rl" "rl_ri rl2 = rl_ri rl1" "rl_start rl2 = rl_start rl"
    "rl_rg rl2 = rl_rg rl1" "rl_bh rl2 = Some (replicate (unat bb) None)"
    using compute_bitstructs_entries [OF rl1(1,2), of od sdp] bb(1,2) data rl1(3,6,7) assms(2) by auto
  define r where "r = rl2\<lparr>rl_bh := Some (map (\<lambda>x. Some (header_buffer od sdp rl2 x)) [0..<unat bb])\<rparr>"
  have run: "build_rgrp od alloc True sdp rl = Some r"
    using rb assms(3) rl2(1,7) bb(1) by (simp add: build_rgrp_def rl1_def [symmetric] write_headers_def Let_def r_def)
  have r: "rl_bits r = rl_bits rl2" "rl_ri r = rl_ri rl1" "rl_id r = rl_id rl" "rl_rg r = rl_rg rl1"
    "rl_bh r = Some (map (\<lambda>x. Some (header_buffer od sdp rl2 x)) [0..<unat bb])" using rl2 by (simp_all add: r_def)
  have d0: "unat (rl_start rl + ucast bb) = unat (rl_start rl) + unat bb"
    using new(6) bb(3) by (simp add: unat_word_ariths unat_ucast_64 R_def)
  have wf: "rgrp_wf (unat ?bs) r"
    using entries_wf [OF assms(1) n(2), of "rl_ri rl1"] rl1 bitb rl2(2) n(1) d0 new(6) bb(3)
    by (simp add: rgrp_wf_def Let_def r buffers_wf_def list_all_iff header_buffer_data [OF assms(1)] R_def)
  have "block_val r g = 0" if "g < ri_data (rl_ri r)" for g
    using built_free [OF wf assms(1) that, of "?bs" "rl_ri rl1" "unat bb" rl2] rl2(2) r rl1(3) by simp
  then have "built_from sdp rl r"
    using wf bb(3,4) d0 n(1) rl1 r new(6) by (simp add: built_from_def rg_end_def R_def)
  then show ?thesis using run by blast
qed

section \<open>Building all resource groups\<close>

lemma build_loop_built:
  assumes "ondisk_ok od (sd_bsize sdp)" "sd_sb_bsize sdp = sd_bsize sdp" "\<And>i. alloc i = (True, True)" "list_all (new_rgrp_ok od (sd_bsize sdp)) rls"
  shows "\<exists>sdp' rs. build_loop od alloc True rls sdp = Some sdp' \<and> sd_rglist sdp' = sd_rglist sdp @ rs \<and> list_all2 (built_from sdp) rls rs \<and>
    sd_bsize sdp' = sd_bsize sdp \<and> sd_prev_rgd sdp' = sd_prev_rgd sdp"
  using assms
proof (induction rls arbitrary: sdp)
  case (Cons rl rls)
  obtain r where r: "build_rgrp od alloc True sdp rl = Some r" "built_from sdp rl r"
    using build_rgrp_built [of od sdp alloc rl] Cons.prems by auto
  define sdp1 where "sdp1 = sdp\<lparr>sd_rglist := sd_rglist sdp @ [r], sd_blks_total := sd_blks_total sdp + ucast (ri_data (rl_ri r)),
    sd_fssize := ri_data0 (rl_ri r) + ucast (ri_data (rl_ri r))\<rparr>"
  have same: "built_from sdp1 = built_from sdp" by (simp add: fun_eq_iff built_from_def sdp1_def)
  have "ondisk_ok od (sd_bsize sdp1)" "sd_sb_bsize sdp1 = sd_bsize sdp1" "list_all (new_rgrp_ok od (sd_bsize sdp1)) rls"
    using Cons.prems by (simp_all add: sdp1_def)
  from Cons.IH [OF this(1,2) Cons.prems(3) this(3)] obtain sdp' rs where "build_loop od alloc True rls sdp1 = Some sdp'"
    "sd_rglist sdp' = sd_rglist sdp1 @ rs" "list_all2 (built_from sdp) rls rs" "sd_bsize sdp' = sd_bsize sdp1" "sd_prev_rgd sdp' = sd_prev_rgd sdp1"
    unfolding same by blast
  then show ?case using r by (intro exI [of _ sdp'] exI [of _ "r # rs"]) (simp add: sdp1_def)
qed simp

text \<open>New resource groups, one behind the other on the device.\<close>

definition laid_out :: "rgrp_list list \<Rightarrow> bool" where
  "laid_out rls \<longleftrightarrow> distinct (map rl_id rls) \<and> sorted_wrt (\<lambda>r t. unat (rl_start r) + unat (rl_length r) \<le> unat (rl_start t)) rls"

lemma built_sorted:
  assumes "list_all2 (built_from sdp) rls rs" "laid_out rls"
  shows "distinct (map rl_id rs)" "sorted_wrt (\<lambda>r t. rg_end r \<le> unat (ri_addr (rl_ri t))) rs"
proof -
  have "map rl_id rs = map rl_id rls" using assms(1) by (induction rule: list_all2_induct) (auto simp: built_from_def)
  then show "distinct (map rl_id rs)" using assms(2) by (simp add: laid_out_def)
  have len: "length rs = length rls" and nth: "\<And>i. i < length rls \<Longrightarrow> built_from sdp (rls ! i) (rs ! i)"
    using assms(1) by (auto simp: list_all2_conv_all_nth)
  show "sorted_wrt (\<lambda>r t. rg_end r \<le> unat (ri_addr (rl_ri t))) rs"
    unfolding sorted_wrt_iff_nth_less
  proof (intro allI impI)
    fix i j assume ij: "i < j" "j < length rs"
    have "rg_end (rs ! i) \<le> unat (rl_start (rls ! i)) + unat (rl_length (rls ! i))" using nth [of i] ij len by (simp add: built_from_def)
    also have "\<dots> \<le> unat (rl_start (rls ! j))" using assms(2) ij len by (simp add: laid_out_def sorted_wrt_iff_nth_less)
    also have "\<dots> = unat (ri_addr (rl_ri (rs ! j)))" using nth [of j] ij len by (simp add: built_from_def)
    finally show "rg_end (rs ! i) \<le> unat (ri_addr (rl_ri (rs ! j)))" .
  qed
qed

lemma build_rgrps_wf:
  assumes "ondisk_ok od (sd_bsize sdp)" "sd_sb_bsize sdp = sd_bsize sdp" "\<And>i. alloc i = (True, True)"
    and "list_all (new_rgrp_ok od (sd_bsize sdp)) (sd_rglist sdp)" "laid_out (sd_rglist sdp)" "sd_prev_rgd sdp = None"
  shows "\<exists>sdp'. build_rgrps od alloc True sdp = Some sdp' \<and> sbd_wf sdp' \<and> list_all2 (built_from sdp) (sd_rglist sdp) (sd_rglist sdp')"
proof -
  define s0 where "s0 = sdp\<lparr>sd_rglist := []\<rparr>"
  have "built_from s0 = built_from sdp" by (simp add: fun_eq_iff built_from_def s0_def)
  then obtain sdp' where r: "build_rgrps od alloc True sdp = Some sdp'" "list_all2 (built_from sdp) (sd_rglist sdp) (sd_rglist sdp')"
    "sd_bsize sdp' = sd_bsize sdp" "sd_prev_rgd sdp' = None"
    using build_loop_built [of od s0 alloc "sd_rglist sdp"] assms by (auto simp: build_rgrps_def s0_def)
  have "list_all (rgrp_wf (unat (sd_bsize sdp))) (sd_rglist sdp')"
    using r(2) by (auto simp: list_all2_conv_all_nth list_all_length built_from_def)
  then have "sbd_wf sdp'" using built_sorted [OF r(2) assms(5)] r(3,4) by (simp add: sbd_wf_def)
  then show ?thesis using r by blast
qed

section \<open>The layout of a new device\<close>

text \<open>Where resource group \<open>i\<close> of \<open>N\<close> starts on \<open>L\<close> blocks, and how long it is.\<close>

definition rg_len :: "nat \<Rightarrow> nat \<Rightarrow> nat \<Rightarrow> nat" where
  "rg_len L N i = (if i = 0 then L - (N - 1) * (L div N) else L div N)"

definition rg_off :: "nat \<Rightarrow> nat \<Rightarrow> nat \<Rightarrow> nat" where
  "rg_off L N i = (if i = 0 then 0 else rg_len L N 0 + (i - 1) * (L div N))"

lemma rg_off_Suc: "rg_off L N (Suc i) = rg_off L N i + rg_len L N i"
  by (cases i) (simp_all add: rg_off_def rg_len_def)

lemma rg_len_0: "0 < N \<Longrightarrow> rg_len L N 0 + (N - 1) * (L div N) = L"
proof -
  assume "0 < N"
  have "(N - 1) * (L div N) \<le> N * (L div N)" by (simp add: mult_le_mono1)
  also have "\<dots> \<le> L" by simp
  finally show ?thesis by (simp add: rg_len_def)
qed

lemma rg_off_end: "i < N \<Longrightarrow> rg_off L N (Suc i) \<le> L"
proof -
  assume "i < N"
  then have "i * (L div N) \<le> (N - 1) * (L div N)" by (intro mult_le_mono1) simp
  moreover have "rg_len L N 0 + (N - 1) * (L div N) = L" using \<open>i < N\<close> by (intro rg_len_0) simp
  ultimately have "rg_len L N 0 + i * (L div N) \<le> L" by linarith
  then show ?thesis by (simp add: rg_off_def)
qed

lemma rg_off_mono: "i \<le> j \<Longrightarrow> rg_off L N i \<le> rg_off L N j"
  by (induction rule: dec_induct) (auto simp: rg_off_Suc)

definition placed :: "u64 \<Rightarrow> nat \<Rightarrow> nat \<Rightarrow> nat \<Rightarrow> rgrp_list \<Rightarrow> bool" where
  "placed S L N i r \<longleftrightarrow> unat (rl_start r) = unat S + rg_off L N i \<and> unat (rl_length r) = rg_len L N i \<and> rl_bits r = None \<and> rl_bh r = None"

lemma layout_loop_placed:
  assumes "layout_loop calloc dev nrgrp (dev_length dev div ucast nrgrp) n k rls = Some rls'" "k + n = unat nrgrp" "length rls = k"
    and "\<And>i. i < k \<Longrightarrow> placed (dev_start dev) (unat (dev_length dev)) (unat nrgrp) i (rls ! i) \<and> calloc i = Some (rl_id (rls ! i))"
    and "unat (dev_start dev) + unat (dev_length dev) < 2 ^ 64"
  shows "length rls' = unat nrgrp \<and>
    (\<forall>i < unat nrgrp. placed (dev_start dev) (unat (dev_length dev)) (unat nrgrp) i (rls' ! i) \<and> calloc i = Some (rl_id (rls' ! i)))"
  using assms
proof (induction n arbitrary: k rls)
  case (Suc n)
  let ?S = "dev_start dev" and ?N = "unat nrgrp"
  define L where "L = unat (dev_length dev)"
  have N: "0 < ?N" "k < ?N" using Suc.prems(2) by simp_all
  obtain a where a: "calloc k = Some a" using Suc.prems(1) by (auto split: option.splits)
  define rl where "rl = (if k \<noteq> 0 then zero_rgrp a (rl_start (last rls) + rl_length (last rls)) (dev_length dev div ucast nrgrp)
     else zero_rgrp a ?S (dev_length dev - ucast (nrgrp - 1) * (dev_length dev div ucast nrgrp)))"
  have q: "unat (dev_length dev div ucast nrgrp) = L div ?N" by (simp add: unat_div unat_ucast_64 L_def)
  have le: "(?N - 1) * (L div ?N) \<le> L" using rg_len_0 [OF N(1), of L] by linarith
  have "placed ?S L ?N k rl"
  proof (cases k)
    case 0
    have "unat (nrgrp - 1) = ?N - 1" using N(1) by (simp add: unat_sub word_le_nat_alt)
    then have "unat (ucast (nrgrp - 1) * (dev_length dev div ucast nrgrp) :: u64) = (?N - 1) * (L div ?N)"
      using le q Suc.prems(5) by (simp add: unat_word_ariths unat_ucast_64 L_def)
    then have "unat (dev_length dev - ucast (nrgrp - 1) * (dev_length dev div ucast nrgrp)) = rg_len L ?N 0"
      using le by (simp add: unat_sub word_le_nat_alt rg_len_def L_def)
    then show ?thesis using 0 by (simp add: rl_def placed_def zero_rgrp_def rg_off_def)
  next
    case j: (Suc j)
    have "rls \<noteq> []" using j Suc.prems(3) by auto
    then have "last rls = rls ! j" using j Suc.prems(3) last_conv_nth [of rls] by simp
    then have "placed ?S L ?N j (last rls)" using Suc.prems(4) [of j] j by (simp add: L_def)
    moreover have "rg_off L ?N (Suc j) \<le> L" using N(2) j by (intro rg_off_end) simp
    ultimately have "unat (rl_start (last rls) + rl_length (last rls)) = unat ?S + rg_off L ?N k"
      using j Suc.prems(5) by (simp add: placed_def rg_off_Suc unat_word_ariths L_def)
    then show ?thesis using j q by (simp add: rl_def placed_def zero_rgrp_def rg_len_def)
  qed
  moreover have "rl_id rl = a" by (simp add: rl_def zero_rgrp_def)
  moreover have run: "layout_loop calloc dev nrgrp (dev_length dev div ucast nrgrp) n (k + 1) (rls @ [rl]) = Some rls'"
    using Suc.prems(1) a unfolding rl_def by (simp add: Let_def)
  ultimately show ?case
    using Suc.prems(2-5) a by (intro Suc.IH [OF run]) (auto simp: L_def [symmetric] nth_append less_Suc_eq)
qed simp

lemma placed_laid_out:
  assumes "\<And>i. i < length rls \<Longrightarrow> placed S L (length rls) i (rls ! i) \<and> calloc i = Some (rl_id (rls ! i))"
    and "\<And>i j. i \<noteq> j \<Longrightarrow> calloc i \<noteq> None \<Longrightarrow> calloc i \<noteq> calloc j"
  shows "laid_out rls"
  unfolding laid_out_def
proof
  show "distinct (map rl_id rls)"
    unfolding distinct_conv_nth
  proof (intro allI impI)
    fix i j assume ij: "i < length (map rl_id rls)" "j < length (map rl_id rls)" "i \<noteq> j"
    then have "calloc i = Some (rl_id (rls ! i))" "calloc j = Some (rl_id (rls ! j))" using assms(1) by simp_all
    then show "map rl_id rls ! i \<noteq> map rl_id rls ! j" using assms(2) [OF ij(3)] ij by auto
  qed
  show "sorted_wrt (\<lambda>r t. unat (rl_start r) + unat (rl_length r) \<le> unat (rl_start t)) rls"
    unfolding sorted_wrt_iff_nth_less
  proof (intro allI impI)
    fix i j assume ij: "i < j" "j < length rls"
    then have "placed S L (length rls) i (rls ! i)" "placed S L (length rls) j (rls ! j)" using assms(1) by simp_all
    moreover have "rg_off L (length rls) (Suc i) \<le> rg_off L (length rls) j" using ij by (intro rg_off_mono) simp
    ultimately show "unat (rl_start (rls ! i)) + unat (rl_length (rls ! i)) \<le> unat (rl_start (rls ! j))"
      by (simp add: placed_def rg_off_Suc)
  qed
qed

text \<open>The device that is left behind the superblock.\<close>

definition rest_start :: "gfs2_sbd \<Rightarrow> nat" where
  "rest_start sdp = unat (dev_start (sd_device sdp)) + unat (sd_sb_addr sdp) + 1"

definition device_ok :: "gfs2_sbd \<Rightarrow> bool" where
  "device_ok sdp \<longleftrightarrow> unat (sd_sb_addr sdp) + 1 \<le> unat (dev_length (sd_device sdp)) \<and>
     unat (dev_start (sd_device sdp)) + unat (dev_length (sd_device sdp)) < 2 ^ 64"

lemma compute_rgrp_layout_new:
  assumes "compute_rgrp_layout calloc sp sdp = Returns sdp1" "sd_rglist sdp = []" "device_ok sdp"
    and "\<And>i j. i \<noteq> j \<Longrightarrow> calloc i \<noteq> None \<Longrightarrow> calloc i \<noteq> calloc j"
  shows "laid_out (sd_rglist sdp1) \<and> sd_rglist sdp1 \<noteq> [] \<and> sd_bsize sdp1 = sd_bsize sdp \<and> sd_sb_bsize sdp1 = sd_sb_bsize sdp \<and> sd_prev_rgd sdp1 = sd_prev_rgd sdp \<and>
    (\<forall>r \<in> set (sd_rglist sdp1). rl_bits r = None \<and> rl_bh r = None \<and> rest_start sdp \<le> unat (rl_start r) \<and>
       unat (rl_start r) + unat (rl_length r) \<le> unat (dev_start (sd_device sdp)) + unat (dev_length (sd_device sdp)))"
proof -
  define dev where "dev = (sd_device sdp)\<lparr>dev_start := dev_start (sd_device sdp) + (sd_sb_addr sdp + 1), dev_length := dev_length (sd_device sdp) - (sd_sb_addr sdp + 1)\<rparr>"
  have sb: "unat (sd_sb_addr sdp + 1) = unat (sd_sb_addr sdp) + 1" using assms(3) by (simp add: device_ok_def unat_word_ariths)
  have dev: "unat (dev_start dev) = rest_start sdp" "unat (dev_length dev) = unat (dev_length (sd_device sdp)) - (unat (sd_sb_addr sdp) + 1)"
    using assms(3) sb by (simp_all add: dev_def device_ok_def rest_start_def unat_word_ariths unat_sub word_le_nat_alt)
  obtain nrgrp :: u32 and rls where r: "nrgrp \<noteq> 0" "layout_loop calloc dev nrgrp (dev_length dev div ucast nrgrp) (unat nrgrp) 0 [] = Some rls"
    "sd_rglist sdp1 = rls" "sd_bsize sdp1 = sd_bsize sdp" "sd_sb_bsize sdp1 = sd_sb_bsize sdp" "sd_prev_rgd sdp1 = sd_prev_rgd sdp"
    using assms(1,2) by (auto simp: compute_rgrp_layout_def layout_new_def finish_layout_def Let_def dev_def split: option.splits if_splits prod.splits)
  have "unat (dev_start dev) + unat (dev_length dev) < 2 ^ 64" using dev assms(3) by (simp add: device_ok_def rest_start_def)
  from layout_loop_placed [OF r(2) _ _ _ this]
  have p: "length rls = unat nrgrp" "\<And>i. i < length rls \<Longrightarrow> placed (dev_start dev) (unat (dev_length dev)) (length rls) i (rls ! i) \<and> calloc i = Some (rl_id (rls ! i))"
    by auto
  have "rl_bits x = None \<and> rl_bh x = None \<and> rest_start sdp \<le> unat (rl_start x) \<and>
       unat (rl_start x) + unat (rl_length x) \<le> unat (dev_start (sd_device sdp)) + unat (dev_length (sd_device sdp))" if x: "x \<in> set rls" for x
  proof -
    obtain i where i: "i < length rls" "x = rls ! i" using x by (auto simp: in_set_conv_nth)
    have "rg_off (unat (dev_length dev)) (length rls) (Suc i) \<le> unat (dev_length dev)" using i by (intro rg_off_end)
    then have "rest_start sdp + rg_off (unat (dev_length dev)) (length rls) i + rg_len (unat (dev_length dev)) (length rls) i
        \<le> unat (dev_start (sd_device sdp)) + unat (dev_length (sd_device sdp))"
      using dev(2) assms(3) unfolding rg_off_Suc device_ok_def rest_start_def by linarith
    then show ?thesis using p(2) [OF i(1)] unfolding i(2) placed_def dev(1) by simp
  qed
  moreover have "rls \<noteq> []" using p(1) r(1) by (auto simp: unat_eq_zero)
  ultimately show ?thesis using r placed_laid_out [OF p(2) assms(4)] by simp
qed

lemma new_layout_built:
  assumes "compute_rgrp_layout calloc sp sdp = Returns sdp1" "sd_rglist sdp = []" "device_ok sdp" "sd_prev_rgd sdp = None"
    and "\<And>i j. i \<noteq> j \<Longrightarrow> calloc i \<noteq> None \<Longrightarrow> calloc i \<noteq> calloc j" "\<And>i. alloc i = (True, True)"
    and "ondisk_ok od (sd_bsize sdp)" "sd_sb_bsize sdp = sd_bsize sdp"
    and "\<And>r. r \<in> set (sd_rglist sdp1) \<Longrightarrow> 5 \<le> unat (rl_length r) \<and> unat (rl_length r) < 2 ^ 32 \<and> unat (rl_length r) \<le> 4 * cap od (sd_bsize sdp) 2149"
  shows "\<exists>sdp2. build_rgrps od alloc True sdp1 = Some sdp2 \<and> sbd_wf sdp2 \<and> sd_rglist sdp2 \<noteq> [] \<and>
    (\<forall>r \<in> set (sd_rglist sdp2). rest_start sdp \<le> unat (ri_addr (rl_ri r)) \<and>
       rg_end r \<le> unat (dev_start (sd_device sdp)) + unat (dev_length (sd_device sdp)) \<and> rg_free (rl_rg r) = ri_data (rl_ri r) \<and>
       (\<forall>blk. in_data blk r \<longrightarrow> map_option fst (gfs2_get_bitmap sdp2 blk None) = Some 0))"
proof -
  note l = compute_rgrp_layout_new [OF assms(1,2,3,5)]
  have "list_all (new_rgrp_ok od (sd_bsize sdp1)) (sd_rglist sdp1)"
    using l assms(3,9) by (fastforce simp: list_all_iff new_rgrp_ok_def device_ok_def)
  then obtain sdp2 where b: "build_rgrps od alloc True sdp1 = Some sdp2" "sbd_wf sdp2" "list_all2 (built_from sdp1) (sd_rglist sdp1) (sd_rglist sdp2)"
    using build_rgrps_wf [of od sdp1 alloc] l assms(4,6,7,8) by auto
  have "rest_start sdp \<le> unat (ri_addr (rl_ri r)) \<and> rg_end r \<le> unat (dev_start (sd_device sdp)) + unat (dev_length (sd_device sdp)) \<and>
      rg_free (rl_rg r) = ri_data (rl_ri r) \<and> (\<forall>blk. in_data blk r \<longrightarrow> map_option fst (gfs2_get_bitmap sdp2 blk None) = Some 0)"
    if r: "r \<in> set (sd_rglist sdp2)" for r
  proof -
    obtain i where i: "i < length (sd_rglist sdp2)" "r = sd_rglist sdp2 ! i" using r by (auto simp: in_set_conv_nth)
    define rl where "rl = sd_rglist sdp1 ! i"
    have rl: "rl \<in> set (sd_rglist sdp1)" "built_from sdp1 rl r"
      using list_all2_nthD2 [OF b(3) i(1)] list_all2_lengthD [OF b(3)] i by (simp_all add: rl_def)
    have "map_option fst (gfs2_get_bitmap sdp2 blk None) = Some 0" if "in_data blk r" for blk
    proof -
      have "rgrp_wf (unat (sd_bsize sdp2)) r" using b(2) r by (auto simp: sbd_wf_def list_all_iff)
      then have "block_val r (rgrp_block_of r blk) = 0" using in_data_block(1) that rl(2) unfolding built_from_def by blast
      then show ?thesis using get_bitmap_data [OF b(2) r that] by simp
    qed
    moreover have "rest_start sdp \<le> unat (rl_start rl)"
      "unat (rl_start rl) + unat (rl_length rl) \<le> unat (dev_start (sd_device sdp)) + unat (dev_length (sd_device sdp))"
      using l rl(1) by blast+
    ultimately show ?thesis using rl(2) unfolding built_from_def by auto
  qed
  moreover have "sd_rglist sdp2 \<noteq> []" using b(3) l by auto
  ultimately show ?thesis using b(1,2) by blast
qed

end
