(* ===== verification/Gfs2_Props.thy ===== *)
theory Gfs2_Props imports Gfs2_Layout begin

text \<open>Properties of the GFS2 library.\<close>

section \<open>Example data\<close>

definition ex_bitmap :: "u8 list" where
  "ex_bitmap = [0x55, 0x55, 0x55, 0x1D, 0, 0, 0, 0]"

section \<open>Searching and counting\<close>

text \<open>C35: The search for a block in a given state, which compares 32 blocks at a time, returns the first block at or after the
  goal that is in the state when the bitmap is read block by block, and the value for no entry when there is
  none. Bytes behind the end of the bitmap, up to the next multiple of eight, are read and do not matter.\<close>

theorem bitfit_exact:
  assumes "state \<le> 3" "unat goal < 4 * unat len" "8 * ((unat len + 7) div 8) \<le> length buf"
  shows "gfs2_bitfit buf len goal state =
    Some (case find (\<lambda>g. block_state buf g = state) [unat goal..<4 * unat len] of None \<Rightarrow> BFITNOENT | Some g \<Rightarrow> word_of_nat g)"
  using bitfit_first_block [OF assms] unfolding first_block_def .

theorem bitfit_exact_witness:
  "gfs2_bitfit ex_bitmap 4 3 3 = Some 13 \<and> gfs2_bitfit ex_bitmap 4 3 0 = Some 15 \<and> gfs2_bitfit ex_bitmap 3 3 3 = Some BFITNOENT"
proof -
  have "find (\<lambda>g. block_state ex_bitmap g = 3) [unat (3 :: u64)..<4 * unat (4 :: u32)] = Some 13"
    "find (\<lambda>g. block_state ex_bitmap g = 0) [unat (3 :: u64)..<4 * unat (4 :: u32)] = Some 15"
    "find (\<lambda>g. block_state ex_bitmap g = 3) [unat (3 :: u64)..<4 * unat (3 :: u32)] = None" by code_simp+
  then show ?thesis
    using bitfit_exact [of 3 3 4 ex_bitmap] bitfit_exact [of 0 3 4 ex_bitmap] bitfit_exact [of 3 3 3 ex_bitmap]
    by (simp add: ex_bitmap_def)
qed

text \<open>C38: The count of the blocks in a state is the number of blocks that are in it when the bitmap is read block by
  block, and it does not wrap for a bitmap of less than a gigabyte.\<close>

theorem bitcount_exact:
  assumes "unat buflen \<le> length buf" "unat buflen < 2 ^ 30"
  shows "\<exists>n. gfs2_bitcount buf buflen state = Some n \<and> unat n = card {g. g < 4 * unat buflen \<and> block_state buf g = state}"
proof -
  let ?xs = "filter (\<lambda>g. block_state buf g = state) [0..<4 * unat buflen]"
  have "length ?xs \<le> 4 * unat buflen" using length_filter_le [of _ "[0..<4 * unat buflen]"] by simp
  then have "unat (word_of_nat (length ?xs) :: u32) = length ?xs" using assms(2) by (simp add: unat_of_nat)
  moreover have "length ?xs = card {g. g < 4 * unat buflen \<and> block_state buf g = state}"
    by (subst distinct_card [symmetric]) (auto intro: arg_cong [where f = card])
  ultimately show ?thesis using bitcount_count [OF assms(1)] by simp
qed

theorem bitcount_exact_witness:
  "gfs2_bitcount ex_bitmap 4 1 = Some 14 \<and> card {g. g < 16 \<and> block_state ex_bitmap g = 1} = 14"
proof -
  have "gfs2_bitcount ex_bitmap 4 1 = Some 14" by code_simp
  then show ?thesis using bitcount_exact [of 4 ex_bitmap 1] by (simp add: ex_bitmap_def)
qed

section \<open>Resource groups\<close>


definition ex_rgrp :: rgrp_list where
  "ex_rgrp = \<lparr>rl_id = 7, rl_start = 10, rl_length = 22, rl_ri = \<lparr>ri_addr = 10, ri_length = 2, ri_data0 = 12, ri_data = 20, ri_bitbytes = 5\<rparr>,
     rl_rg = \<lparr>rg_flags = 0, rg_free = 20, rg_dinodes = 0\<rparr>,
     rl_bits = Some [\<lparr>bi_offset = 4, bi_start = 0, bi_len = 4\<rparr>, \<lparr>bi_offset = 2, bi_start = 4, bi_len = 1\<rparr>],
     rl_bh = Some [Some \<lparr>b_blocknr = 10, b_modified = False, b_data = [1, 6, 1, 6, 0x55, 0x55, 0, 0x1D]\<rparr>,
       Some \<lparr>b_blocknr = 11, b_modified = False, b_data = [1, 6, 0xE4, 0, 0, 0, 0, 0]\<rparr>]\<rparr>"

definition ex_sbd :: gfs2_sbd where
  "ex_sbd = \<lparr>sd_sb_bsize = 8, sd_bsize = 8, sd_rgsize = 1, sd_device = \<lparr>dev_start = 0, dev_length = 300000\<rparr>, sd_sb_addr = 8, sd_fssize = 32,
     sd_blks_total = 20, sd_rgrps = 1, sd_new_rgrps = 0, sd_rglist = [ex_rgrp], sd_prev_rgd = None\<rparr>"

text \<open>C37: Changing the state of a data block succeeds, keeps the resource groups well formed, and afterwards the block has
  the new state and every other data block of the file system the one it had.\<close>

theorem set_get_bitmap_roundtrip:
  assumes "sbd_wf sdp" "rgd \<in> set (sd_rglist sdp)" "in_data blk rgd" "0 \<le> state" "state \<le> 3"
    and "r \<in> set (sd_rglist sdp)" "in_data b r"
  shows "\<exists>sdp'. gfs2_set_bitmap sdp blk state = Some (0, sdp') \<and> sbd_wf sdp' \<and>
    map_option fst (gfs2_get_bitmap sdp' b None) = (if b = blk then Some state else map_option fst (gfs2_get_bitmap sdp b None))"
  by (rule set_get_bitmap [OF assms])

lemma ex_sbd_wf: "sbd_wf ex_sbd" "ex_rgrp \<in> set (sd_rglist ex_sbd)" "in_data 28 ex_rgrp" "in_data 29 ex_rgrp" "in_header 11 ex_rgrp"
  by (simp_all add: ex_sbd_def ex_rgrp_def sbd_wf_def rgrp_wf_def bits_wf_def buffers_wf_def in_data_def in_header_def)

theorem set_get_bitmap_roundtrip_witness:
  "\<exists>sdp'. gfs2_set_bitmap ex_sbd 28 3 = Some (0, sdp') \<and> sbd_wf sdp' \<and> map_option fst (gfs2_get_bitmap sdp' 28 None) = Some 3 \<and>
     map_option fst (gfs2_get_bitmap sdp' 29 None) = Some 1"
proof -
  have "map_option fst (gfs2_get_bitmap ex_sbd 29 None) = Some 1" by code_simp
  then show ?thesis
    using set_get_bitmap_roundtrip [OF ex_sbd_wf(1,2,3) _ _ ex_sbd_wf(2,3), of 3] set_get_bitmap_roundtrip [OF ex_sbd_wf(1,2,3) _ _ ex_sbd_wf(2,4), of 3]
    by auto
qed

text \<open>C39: A block of the header of a resource group is found in that group but has no place in its bitmap: the number of
  the block wraps, the search for the bitmap block ends behind the last one, and \<^verbatim>\<open>gfs2_set_bitmap\<close> uses an entry
  behind the end of the array of buffers, where \<^verbatim>\<open>gfs2_get_bitmap\<close> reports an error.\<close>

theorem set_bitmap_leaves_array:
  assumes "sbd_wf sdp" "rgd \<in> set (sd_rglist sdp)" "in_header blk rgd"
    and "unat (ri_data (rl_ri rgd)) + unat (ri_length (rl_ri rgd)) < 2 ^ 32" "0 \<le> state" "state \<le> 3"
  shows "gfs2_set_bitmap sdp blk state = None \<and> map_option fst (gfs2_get_bitmap sdp blk None) = Some (-1)"
  using header_bitmap [OF assms] by simp

theorem set_bitmap_leaves_array_witness:
  "gfs2_set_bitmap ex_sbd 11 0 = None \<and> map_option fst (gfs2_get_bitmap ex_sbd 11 None) = Some (-1)"
  by (rule set_bitmap_leaves_array [OF ex_sbd_wf(1,2,5)]) (simp_all add: ex_rgrp_def)







end
