(* ===== verification/Spec2Isabelle.thy ===== *)
theory Spec2Isabelle imports Plock_Props Deadlock_Props Cman_Props Cpg_Props Gfs2_Props begin

text \<open>
  A verification development for the cluster suite (daemons and tools that keep a cluster of nodes
  consistent). Paths below are relative to \<^verbatim>\<open>src/\<close>.

  \<^bold>\<open>The POSIX lock daemon\<close> (\<^verbatim>\<open>group/dlm_controld/plock.c\<close>). Each node keeps the byte-range locks of every
  file of a lockspace. Requests of local processes come from the kernel (\<^verbatim>\<open>process_plocks\<close>), are sent to
  the group and are applied by every node when the group delivers them (\<^verbatim>\<open>receive_plock\<close>); with ownership
  a node that uses a file alone keeps its locks to itself until another asks (\<^verbatim>\<open>receive_own\<close>,
  \<^verbatim>\<open>receive_sync\<close>, \<^verbatim>\<open>receive_drop\<close>). A node that joins reads a checkpoint written by another node
  (\<^verbatim>\<open>store_plocks\<close>, \<^verbatim>\<open>retrieve_plocks\<close>) and then applies the messages it saved meanwhile.

  \<^item> \<open>Prelude\<close>: the machine types, byte order (\<^verbatim>\<open>group/include/linux_endian.h\<close>), first-match update and
    removal on lists, error numbers, and \<open>mem\<close>, a script of the outcomes of \<^verbatim>\<open>malloc\<close> with the contents
    of the blocks handed out.
  \<^item> \<open>Plock_Ranges\<close>, \<open>Plock_Locks\<close>: \<^verbatim>\<open>ranges_overlap\<close> to \<^verbatim>\<open>unlock_internal\<close> on a list of locks.
    \<open>Plock_Refine\<close> proves that they implement the byte map that POSIX describes (\<open>held\<close>, \<open>spec_lock\<close>,
    \<open>spec_unlock\<close>, \<open>spec_conflict\<close>); the contract is the locale \<open>lock_store\<close>.
  \<^item> \<open>Plock_State\<close>: resources, the plock fields of \<^verbatim>\<open>struct lockspace\<close>, the effects of a handler
    (\<open>plock_io\<close>: results written to the kernel, messages sent, counters), and lock, unlock, get and the
    wait queue. A resource is accessed by its number, as the first match. \<open>Plock_Ops\<close> has the locale
    \<open>resource_invariant\<close>, the laws under which an invariant of resources survives every operation;
    it is interpreted on mutual exclusion (\<open>res_safe\<close>, which survives failing allocations) and on the
    normal form (\<open>res_inv\<close>).
  \<^item> \<open>Plock_Proto\<close>: all senders and handlers, dropping of unused resources, rate limiting, requests from
    the kernel, purging of a failed node. \<open>Plock_Proto_Inv\<close> extends the locale to the handlers;
    \<open>Plock_Replica\<close> shows that without ownership the locks and queues are a function of the delivered
    messages; \<open>Plock_Reach\<close> has the step relation of a node and counts requests and answers.
  \<^item> \<open>Section_Names\<close>: printing and scanning of section names (\<^verbatim>\<open>snprintf\<close> and \<^verbatim>\<open>sscanf\<close> on decimal
    numbers). \<open>Plock_Ckpt\<close>: checkpoints; the answers of the checkpoint service are parameters.
  \<^item> \<open>Plock_Props\<close>: the properties.

  \<^bold>\<open>Deadlock detection\<close> (\<^verbatim>\<open>group/dlm_controld/deadlock.c\<close>). In a detection cycle every node collects the
  locks of its kernel, writes them to a checkpoint and reads those of the others; the node with the
  lowest id then builds the wait-for graph of transactions, removes again and again those that wait
  for nothing, and cancels the requests of one of the transactions that are left.

  \<^item> \<open>Deadlock\<close>: the whole file. Locks and resources live in an explicit store by address; a transaction
    is named by its xid. The lines of the kernel's lock dump are parameters after \<^verbatim>\<open>sscanf\<close>.
  \<^item> \<open>Deadlock_Graph\<close>: the invariant \<open>graph_wf\<close> of the graph and its counters; \<open>deadlocked\<close>, the largest
    set in which everybody waits for a member; the reduction computes it.
  \<^item> \<open>Deadlock_Build\<close>: the collected locks stay well formed (\<open>dl_wf\<close>), and the graph built from them is
    exactly the relation \<open>blocked_on\<close>.
  \<^item> \<open>Deadlock_Props\<close>: the properties, with a step relation for one node.

  \<^bold>\<open>Lockspace membership\<close> (\<^verbatim>\<open>group/dlm_controld/cpg.c\<close>). The nodes that use a lockspace form a process group.
  On every change of the group the kernel's lockspace is stopped (\<^verbatim>\<open>confchg_cb\<close>), each node waits until failed
  nodes are fenced, the cluster is quorate and the file system has been notified (\<^verbatim>\<open>apply_changes\<close>), sends a
  start message and, when it has one from every member, starts the kernel again; the node with the lowest
  id that has plock state stores it for those that joined. The daemons of all nodes agree beforehand on a protocol version.

  \<^item> \<open>Cpg_State\<close>: changes, the node history, \<^verbatim>\<open>struct lockspace\<close> and the conditions a restart waits for.
    \<open>Cpg_Ops\<close>: start messages, the choice of the node that stores the plocks, the group callbacks
    (\<^verbatim>\<open>confchg_cb\<close>, \<^verbatim>\<open>deliver_cb\<close>), joining and leaving, the notifications of the file system. The answers of fenced, cman,
    the checkpoint service and the kernel are the record \<open>cpg_env\<close>.
  \<^item> \<open>Cpg_Runs\<close>: a run of a node as a sequence of events (\<open>ls_run\<close>). The locale \<open>node_relation\<close> has the laws under
    which a relation between the node histories before and after survives every event.
  \<^item> \<open>Cpg_Transfer\<close>: the two sides of the transfer of plock state, over the handlers of \<open>Plock_Proto\<close> and the
    checkpoints of \<open>Plock_Ckpt\<close>. \<open>Cpg_Protocol\<close>: the group of the daemons, the version they choose, queries of
    \<^verbatim>\<open>dlm_tool\<close>. \<open>Cpg_Props\<close>: the properties.

  \<^bold>\<open>Membership and quorum\<close> (\<^verbatim>\<open>cman/daemon/\<close>). The daemon keeps the list of nodes with their votes. Corosync
  reports configuration changes (\<^verbatim>\<open>cman_confchg_fn\<close>) and delivers messages (\<^verbatim>\<open>cman_deliver_fn\<close>); clients send
  commands (\<^verbatim>\<open>process_command\<close>); every change recalculates quorum (\<^verbatim>\<open>recalculate_quorum\<close>). The daemon serves
  the other daemons of the suite, which act only while the cluster is quorate.

  \<^item> \<open>Cman_State\<close>: nodes, messages, the variables of \<^verbatim>\<open>commands.c\<close> as one record, the node list and the
    quorum calculation. What the daemon does to its surroundings is a list of effects; a null pointer
    that is followed is the effect \<open>Null_deref\<close>.
  \<^item> \<open>Cman_Barrier\<close>: \<^verbatim>\<open>barrier.c\<close>. \<open>Cman_Ops\<close>: commands, messages, shutdown, the quorum device, reading the
    configuration (\<^verbatim>\<open>cmanconfig.c\<close>), joining and configuration changes (\<^verbatim>\<open>ais.c\<close>).
  \<^item> \<open>Cman_Inv\<close>: the locale \<open>node_list_invariant\<close>, under whose laws an invariant of the node list survives
    every operation; it is interpreted on \<open>ordered\<close>, the sorted list without duplicates.
  \<^item> \<open>Cman_Quorum\<close>: the quorum calculation as arithmetic on votes that do not wrap (\<open>votes_bounded\<close>).
    \<open>Cman_Runs\<close>: the step relation of the daemon, its reachable states, barriers. \<open>Cman_Props\<close>: the
    properties.

  \<^bold>\<open>GFS2 resource groups\<close> (\<^verbatim>\<open>gfs2/libgfs2/\<close>). A file system is divided into resource groups; each starts with blocks that hold the
  bitmap of its data blocks, two bits a block.

  \<^item> \<open>Gfs2_Bits\<close>: the search of a bitmap, 32 blocks at a time, and the count of the blocks in a state (\<^verbatim>\<open>fs_bits.c\<close>), with the
    reference \<open>block_state\<close>.
  \<^item> \<open>Gfs2_Rgrp\<close>: resource groups and their buffers, the layout of a device (\<^verbatim>\<open>fs_geometry.c\<close>), the bitmap entries and the search for
    the group of a block (\<^verbatim>\<open>rgrp.c\<close>), reading and changing the state of a block. The sizes of the structures
    of the kernel's headers are the parameter \<open>ondisk\<close>.
  \<^item> \<open>Gfs2_Place\<close>: well-formed resource groups (\<open>sbd_wf\<close>), in which every data block has a place of its own.
    \<open>Gfs2_Layout\<close>: a new layout is well formed. \<open>Gfs2_Props\<close>: the properties.

  \<^bold>\<open>Conventions.\<close> A C structure is a record whose fields carry a prefix. Node ids are 32-bit words and
  offsets 64-bit words, so that wrap-around is the machine's; counters that are only incremented a
  bounded number of times are integers. A handler maps the old state to the new one; undefined
  behaviour that the code can reach is \<open>None\<close>. Every loop is a structural recursion or has a
  termination proof, so no fuel is used; a loop that waits for the checkpoint service
  (\<^verbatim>\<open>SA_AIS_ERR_TRY_AGAIN\<close>) is represented by the answer that ends it.

  \<^bold>\<open>Not modelled.\<close> Log output and the debug dumps; allocation failure in \<^verbatim>\<open>deadlock.c\<close>, which turns the
  detection off, and in the membership daemon; its commands that only copy data to a client, and its
  sockets; the bytes of a message below the fields named by the structures. The other daemons
  and tools are listed in the manifest with the reason they are left out.
\<close>

end
